(* ===== verification/RE_Prelude.thy ===== *)
theory RE_Prelude
  imports Main "HOL-Library.Word" "HOL-Library.AList"
begin

text \<open>
  What the components of the route emitter share: Go's machine integers as words, Go's maps as
  association lists, decimal printing (\<open>fmt.Sprintf("%d", n)\<close>), and the lemmas that carry the
  component proofs.

  A Go map is a list of key/value pairs with distinct keys (\<open>go_wf\<close>). The list fixes one order in
  which \<open>for k, v := range m\<close> visits the map; Go leaves that order open, so every property is stated
  for all lists and speaks of lookups, sets and counts only, which no order changes. The interface
  the components rely on is the locale \<open>go_map_laws\<close>, interpreted on the association list
  operations as \<open>gm\<close>.
\<close>

section \<open>Types\<close>

type_synonym uint16 = "16 word"
type_synonym uint32 = "32 word"
type_synonym uint64 = "64 word"
type_synonym int32 = "32 word"
type_synonym int64 = "64 word"

text \<open>An \<open>error\<close> value that is not nil; the model keeps its text.\<close>

type_synonym go_error = string

type_synonym ('k, 'v) gomap = "('k \<times> 'v) list"

named_theorems gomap_simps "lookups after the operations on Go maps"

section \<open>Go maps\<close>

definition go_get :: "('k, 'v) gomap \<Rightarrow> 'k \<Rightarrow> 'v option" where
  "go_get m k = map_of m k"

definition go_put :: "('k, 'v) gomap \<Rightarrow> 'k \<Rightarrow> 'v \<Rightarrow> ('k, 'v) gomap" where
  "go_put m k v = AList.update k v m"

definition go_del :: "('k, 'v) gomap \<Rightarrow> 'k \<Rightarrow> ('k, 'v) gomap" where
  "go_del m k = AList.delete k m"

definition go_wf :: "('k, 'v) gomap \<Rightarrow> bool" where
  "go_wf m = distinct (map fst m)"

definition go_keys :: "('k, 'v) gomap \<Rightarrow> 'k list" where
  "go_keys m = map fst m"

definition go_values :: "('k, 'v) gomap \<Rightarrow> 'v list" where
  "go_values m = map snd m"

text \<open>A map filled by \<open>for _, x := range xs { m[key(x)] = val(x) }\<close>: the last write of a key wins.\<close>

definition go_collect :: "('x \<Rightarrow> 'k) \<Rightarrow> ('x \<Rightarrow> 'v) \<Rightarrow> 'x list \<Rightarrow> ('k, 'v) gomap \<Rightarrow> ('k, 'v) gomap" where
  "go_collect key val xs m = fold (\<lambda>x m. go_put m (key x) (val x)) xs m"

text \<open>Copying a map into a fresh one by iterating over it.\<close>

definition go_copy :: "('k, 'v) gomap \<Rightarrow> ('k, 'v) gomap" where
  "go_copy m = go_collect fst snd m []"

section \<open>The interface of a Go map\<close>

text \<open>
  The laws every Go map promises: what a lookup returns after a write or a delete, that both keep
  the representation well formed, and that iteration visits exactly the stored pairs.
\<close>

locale go_map_laws =
  fixes empty :: "'m"
    and get :: "'m \<Rightarrow> 'k \<Rightarrow> 'v option"
    and put :: "'m \<Rightarrow> 'k \<Rightarrow> 'v \<Rightarrow> 'm"
    and del :: "'m \<Rightarrow> 'k \<Rightarrow> 'm"
    and items :: "'m \<Rightarrow> ('k \<times> 'v) list"
    and wf :: "'m \<Rightarrow> bool"
  assumes get_empty: "get empty k = None"
    and get_put: "get (put m k v) k' = (if k' = k then Some v else get m k')"
    and get_del: "get (del m k) k' = (if k' = k then None else get m k')"
    and wf_empty: "wf empty"
    and wf_put: "wf m \<Longrightarrow> wf (put m k v)"
    and wf_del: "wf m \<Longrightarrow> wf (del m k)"
    and items_get: "wf m \<Longrightarrow> (k, v) \<in> set (items m) \<longleftrightarrow> get m k = Some v"
    and items_distinct: "wf m \<Longrightarrow> distinct (map fst (items m))"
begin

lemma get_put_same: "get (put m k v) k = Some v"
  by (simp add: get_put)

lemma get_put_other: "k' \<noteq> k \<Longrightarrow> get (put m k v) k' = get m k'"
  by (simp add: get_put)

lemma get_del_same: "get (del m k) k = None"
  by (simp add: get_del)

lemma values_are_ran:
  assumes "wf m"
  shows "snd ` set (items m) = ran (get m)"
proof -
  have "snd ` set (items m) = {v. \<exists>k. (k, v) \<in> set (items m)}" by force
  then show ?thesis by (simp add: items_get [OF assms] ran_def)
qed

lemma keys_are_dom:
  assumes "wf m"
  shows "fst ` set (items m) = dom (get m)"
proof -
  have "fst ` set (items m) = {k. \<exists>v. (k, v) \<in> set (items m)}" by force
  then show ?thesis by (simp add: items_get [OF assms] dom_def)
qed

lemma wf_fill: "wf m \<Longrightarrow> wf (fold (\<lambda>x m. put m (key x) (val x)) xs m)"
  by (induction xs arbitrary: m) (auto simp: wf_put)

lemma get_fill_dom:
  "get (fold (\<lambda>x m. put m (key x) (val x)) xs m) k = None \<longleftrightarrow>
     (get m k = None \<and> k \<notin> key ` set xs)"
  by (induction xs arbitrary: m) (auto simp: get_put)

lemma get_fill_Some:
  "get (fold (\<lambda>x m. put m (key x) (val x)) xs m) k = Some v \<Longrightarrow>
     get m k = Some v \<or> (\<exists>x \<in> set xs. key x = k \<and> val x = v)"
proof (induction xs arbitrary: m)
  case Nil
  then show ?case by simp
next
  case (Cons x xs)
  then have "get (put m (key x) (val x)) k = Some v \<or> (\<exists>y \<in> set xs. key y = k \<and> val y = v)"
    by simp
  then show ?case by (auto simp: get_put split: if_splits)
qed

text \<open>Copying into an empty map keeps every lookup.\<close>

lemma get_copy:
  assumes "wf m"
  shows "get (fold (\<lambda>x m. put m (fst x) (snd x)) (items m) empty) k = get m k"
proof (cases "get (fold (\<lambda>x m. put m (fst x) (snd x)) (items m) empty) k")
  case None
  then have "k \<notin> dom (get m)"
    using keys_are_dom [OF assms] by (simp add: get_fill_dom)
  with None show ?thesis by (simp add: domIff)
next
  case (Some v)
  from get_fill_Some [OF this] obtain x where "x \<in> set (items m)" "fst x = k" "snd x = v"
    by (auto simp: get_empty)
  with Some assms show ?thesis by (cases x) (simp add: items_get)
qed

end

interpretation gm: go_map_laws "[]" go_get go_put go_del "\<lambda>m. m" go_wf
proof
  fix m :: "('a, 'b) gomap" and k v
  assume "go_wf m"
  then show "(k, v) \<in> set m \<longleftrightarrow> go_get m k = Some v"
    by (auto simp: go_wf_def go_get_def map_of_eq_Some_iff)
qed (auto simp: go_get_def go_put_def go_del_def go_wf_def update_conv' delete_conv'
    distinct_update distinct_delete)

lemmas go_get_laws [simp, gomap_simps] = gm.get_empty gm.get_put gm.get_del
lemmas go_wf_laws [simp, intro] = gm.wf_empty gm.wf_put gm.wf_del

lemma go_values_ran: "go_wf m \<Longrightarrow> set (go_values m) = ran (go_get m)"
  using gm.values_are_ran [of m] by (simp add: go_values_def)

lemma go_keys_dom: "set (go_keys m) = dom (go_get m)"
  by (simp add: go_keys_def go_get_def [abs_def] dom_map_of_conv_image_fst)

lemma go_collect_None: "go_get (go_collect key val xs m) k = None \<longleftrightarrow> go_get m k = None \<and> k \<notin> key ` set xs"
  unfolding go_collect_def by (rule gm.get_fill_dom)

lemma go_collect_SomeD:
  "go_get (go_collect key val xs []) k = Some v \<Longrightarrow> \<exists>x \<in> set xs. key x = k \<and> val x = v"
  unfolding go_collect_def by (drule gm.get_fill_Some) simp

lemma go_wf_collect [simp, intro]: "go_wf m \<Longrightarrow> go_wf (go_collect key val xs m)"
  unfolding go_collect_def by (rule gm.wf_fill)

lemma go_collect_snoc:
  "go_collect key val (xs @ [x]) m = go_put (go_collect key val xs m) (key x) (val x)"
  by (simp add: go_collect_def)

lemma go_put_new: "k \<notin> fst ` set m \<Longrightarrow> go_put m k v = m @ [(k, v)]"
  unfolding go_put_def by (induction m) auto

lemma go_copy_acc:
  assumes "distinct (map fst (m' @ m))"
  shows "go_collect fst snd m m' = m' @ m"
  using assms
proof (induction m arbitrary: m')
  case Nil
  then show ?case by (simp add: go_collect_def)
next
  case (Cons p m)
  have "go_collect fst snd (p # m) m' = go_collect fst snd m (go_put m' (fst p) (snd p))"
    by (simp add: go_collect_def)
  also have "go_put m' (fst p) (snd p) = m' @ [p]"
    using Cons.prems by (subst go_put_new) auto
  also have "go_collect fst snd m (m' @ [p]) = (m' @ [p]) @ m"
    using Cons.prems by (intro Cons.IH) auto
  finally show ?case by simp
qed

text \<open>A copy is the same map, iteration order included.\<close>

lemma go_copy_id [simp]: "go_wf m \<Longrightarrow> go_copy m = m"
  by (simp add: go_copy_def go_copy_acc go_wf_def)

lemma go_copy_Nil [simp]: "go_copy [] = []"
  by (simp add: go_copy_def go_collect_def)

lemma go_wf_filter [intro]: "go_wf m \<Longrightarrow> go_wf (filter P m)"
  by (simp add: go_wf_def distinct_map_filter)

lemma go_get_filter:
  "go_wf m \<Longrightarrow> go_get (filter (\<lambda>(k, v). P v) m) k =
     (case go_get m k of None \<Rightarrow> None | Some v \<Rightarrow> if P v then Some v else None)"
  unfolding go_wf_def go_get_def
  by (induction m) (auto simp: map_of_eq_None_iff image_iff split: option.splits)

section \<open>Decimal numbers\<close>

definition digit_char :: "nat \<Rightarrow> char" where
  "digit_char d = char_of (48 + d)"

fun nat_to_dec :: "nat \<Rightarrow> string" where
  "nat_to_dec n = (if n < 10 then [digit_char n] else nat_to_dec (n div 10) @ [digit_char (n mod 10)])"

declare nat_to_dec.simps [simp del]

text \<open>\<open>fmt.Sprintf("%d", i)\<close> and \<open>strconv.FormatInt(i, 10)\<close>.\<close>

definition itoa :: "int \<Rightarrow> string" where
  "itoa i = (if i < 0 then CHR ''-'' # nat_to_dec (nat (- i)) else nat_to_dec (nat i))"

text \<open>Reading a decimal number back, to state that printing loses nothing.\<close>

definition char_digit :: "char \<Rightarrow> nat" where
  "char_digit c = of_char c - 48"

definition dec_to_nat :: "string \<Rightarrow> nat" where
  "dec_to_nat s = foldl (\<lambda>n c. 10 * n + char_digit c) 0 s"

definition atoi :: "string \<Rightarrow> int" where
  "atoi s = (case s of c # cs \<Rightarrow> if c = CHR ''-'' then - int (dec_to_nat cs) else int (dec_to_nat s)
             | [] \<Rightarrow> 0)"

lemma char_digit_digit_char [simp]: "d < 10 \<Longrightarrow> char_digit (digit_char d) = d"
  by (simp add: char_digit_def digit_char_def)

lemma digit_char_not_minus: "d < 10 \<Longrightarrow> digit_char d \<noteq> CHR ''-''"
proof
  assume "d < 10" and "digit_char d = CHR ''-''"
  then have "of_char (digit_char d) = (45 :: nat)" by simp
  with \<open>d < 10\<close> show False by (simp add: digit_char_def)
qed

lemma dec_to_nat_to_dec: "dec_to_nat (nat_to_dec n) = n"
proof (induction n rule: nat_to_dec.induct)
  case (1 n)
  show ?case
  proof (cases "n < 10")
    case True
    then show ?thesis by (simp add: nat_to_dec.simps [of n] dec_to_nat_def)
  next
    case False
    with "1.IH" show ?thesis
      by (simp add: nat_to_dec.simps [of n] dec_to_nat_def)
  qed
qed

lemma nat_to_dec_shape: "\<exists>c cs. nat_to_dec n = c # cs \<and> c \<noteq> CHR ''-''"
proof (induction n rule: nat_to_dec.induct)
  case (1 n)
  show ?case
  proof (cases "n < 10")
    case True
    then show ?thesis by (simp add: nat_to_dec.simps [of n] digit_char_not_minus)
  next
    case False
    with "1.IH" obtain c cs where "nat_to_dec (n div 10) = c # cs" "c \<noteq> CHR ''-''" by auto
    with False show ?thesis by (simp add: nat_to_dec.simps [of n])
  qed
qed

lemma atoi_itoa: "atoi (itoa i) = i"
proof (cases "i < 0")
  case True
  then show ?thesis by (simp add: itoa_def atoi_def dec_to_nat_to_dec)
next
  case False
  obtain c cs where s: "nat_to_dec (nat i) = c # cs" "c \<noteq> CHR ''-''"
    using nat_to_dec_shape by blast
  then have "dec_to_nat (c # cs) = nat i" using dec_to_nat_to_dec [of "nat i"] by simp
  with s False show ?thesis by (simp add: itoa_def atoi_def)
qed

lemma itoa_inject: "itoa i = itoa j \<longleftrightarrow> i = j"
  by (metis atoi_itoa)

end
