(* ===== verification/BBS_Models.thy ===== *)
theory BBS_Models
  imports RE_Prelude
begin

text \<open>
  The data the route emitter receives from the packages it calls (\<open>bbs/models\<close>,
  \<open>routing-info\<close>, \<open>routing-api/models\<close>), reduced to the fields its own code reads, and the
  functions of those packages as the parameter record \<open>bbs_env\<close>. No function of another package is
  defined here: every definition that calls one takes the record as an argument, and a property that
  relies on a law of such a function states the law as a hypothesis at the values it uses.
  The record \<open>example_env\<close> instantiates the parameters for the witnesses.
\<close>

section \<open>Long running processes\<close>

record ModificationTag =
  mt_Epoch :: string
  mt_Index :: uint32

text \<open>Protobuf enumerations are open: values the code does not name are kept apart by number.\<close>

datatype Presence = ActualLRP_Ordinary | ActualLRP_Evacuating | ActualLRP_Presence nat

datatype PreferredAddress = PreferredAddressUnknown | PreferredAddressInstance
  | PreferredAddressHost | PreferredAddressOther nat

datatype LRPState = ActualLRPStateRunning | ActualLRPState string

record PortMapping =
  pm_ContainerPort :: uint32
  pm_HostPort :: uint32
  pm_ContainerTlsProxyPort :: uint32
  pm_HostTlsProxyPort :: uint32

text \<open>
  \<open>al_RoutableExists\<close> and \<open>al_GetRoutable\<close> are what the accessors \<open>RoutableExists()\<close> and
  \<open>GetRoutable()\<close> return. A nil entry of \<open>Ports\<close> is \<open>None\<close>.
\<close>

record ActualLRP =
  al_ProcessGuid :: string
  al_Index :: int32
  al_Domain :: string
  al_InstanceGuid :: string
  al_CellId :: string
  al_Address :: string
  al_InstanceAddress :: string
  al_Ports :: "PortMapping option list"
  al_PreferredAddress :: PreferredAddress
  al_Presence :: Presence
  al_State :: LRPState
  al_Since :: int64
  al_ModificationTag :: ModificationTag
  al_AvailabilityZone :: string
  al_RoutableExists :: bool
  al_GetRoutable :: bool

datatype MetricTagDynamic = MetricTagDynamicValueNone | MetricTagDynamicValueIndex
  | MetricTagDynamicValueInstanceGuid | MetricTagDynamicValueOther nat

record MetricTagValue =
  mtv_Static :: string
  mtv_Dynamic :: MetricTagDynamic

text \<open>\<open>models.Routes\<close>: router name to raw JSON.\<close>

type_synonym Routes = "(string, string) gomap"

record DesiredLRP =
  dl_ProcessGuid :: string
  dl_Domain :: string
  dl_LogGuid :: string
  dl_Instances :: int32
  dl_Routes :: "Routes option"
  dl_ModificationTag :: "ModificationTag option"
  dl_MetricTags :: "(string, MetricTagValue) gomap"

text \<open>\<open>models.DomainSet\<close>, seen through its method \<open>Contains\<close>.\<close>

type_synonym DomainSet = "string \<Rightarrow> bool"

section \<open>Routing info\<close>

record CFRoute =
  cf_Hostnames :: "string list"
  cf_Port :: uint32
  cf_RouteServiceUrl :: string
  cf_IsolationSegment :: string
  cf_Protocol :: string
  cf_Options :: string

record TCPRoute =
  tcp_RouterGroupGuid :: string
  tcp_ExternalPort :: uint32
  tcp_ContainerPort :: uint32

record InternalRouteInfo =
  iri_Hostname :: string

text \<open>
  \<open>tcpmodels.TcpRouteMapping\<close>: the values handed to its constructor \<open>NewTcpRouteMapping\<close>, whose
  SNI host name is nil and whose modification tag is empty in every call the route emitter makes.
  Ports the constructor takes as a signed \<open>int\<close> (the TLS port, where -1 says none) are \<open>int\<close>.
\<close>

record TcpRouteMapping =
  trm_RouterGroupGuid :: string
  trm_ExternalPort :: uint16
  trm_HostIP :: string
  trm_HostPort :: uint16
  trm_HostTLSPort :: int
  trm_InstanceId :: string
  trm_TTL :: int

section \<open>Events\<close>

record ActualLRPKey =
  alk_ProcessGuid :: string
  alk_Index :: int32
  alk_Domain :: string

record ActualLRPInstanceKey =
  aik_InstanceGuid :: string
  aik_CellId :: string

record ActualLRPInfo =
  ai_Address :: string
  ai_InstanceAddress :: string
  ai_Ports :: "PortMapping option list"
  ai_PreferredAddress :: PreferredAddress
  ai_Presence :: Presence
  ai_State :: LRPState
  ai_Since :: int64
  ai_ModificationTag :: ModificationTag
  ai_AvailabilityZone :: string
  ai_Routable :: "bool option"

datatype Event =
    DesiredLRPCreatedEvent string "DesiredLRP option"
  | DesiredLRPChangedEvent string "DesiredLRP option" "DesiredLRP option"
  | DesiredLRPRemovedEvent string "DesiredLRP option"
  | ActualLRPInstanceCreatedEvent string "ActualLRP option"
  | ActualLRPInstanceChangedEvent string "ActualLRPInfo option" "ActualLRPInfo option"
      ActualLRPKey ActualLRPInstanceKey
  | ActualLRPInstanceRemovedEvent string "ActualLRP option"
  | UnrecognizedEvent string

section \<open>The functions of the other packages\<close>

record bbs_env =
  SucceededBy :: "ModificationTag option \<Rightarrow> ModificationTag option \<Rightarrow> bool"
  TagEqual :: "ModificationTag option \<Rightarrow> ModificationTag option \<Rightarrow> bool"
  CFRoutesFromRoutingInfo :: "Routes \<Rightarrow> CFRoute list \<times> go_error option"
  TCPRoutesFromRoutingInfo :: "Routes option \<Rightarrow> TCPRoute list \<times> go_error option"
  InternalRoutesFromRoutingInfo :: "Routes \<Rightarrow> InternalRouteInfo list \<times> go_error option"
  ToActualLRP :: "ActualLRPInfo option \<Rightarrow> ActualLRPKey \<Rightarrow> ActualLRPInstanceKey \<Rightarrow> ActualLRP option"
  EventKey :: "Event \<Rightarrow> string"
  NewDomainSet :: "string list \<Rightarrow> DomainSet"

section \<open>An instance for the witnesses\<close>

text \<open>
  Tags are compared as the tests of the routing table use them: a missing tag is succeeded by any, a
  tag of the same epoch by one of a higher index. The routing info maps \<open>cf-router\<close> and its
  siblings to one fixed route each when the entry is present.
\<close>

definition example_succeeded_by :: "ModificationTag option \<Rightarrow> ModificationTag option \<Rightarrow> bool" where
  "example_succeeded_by a b = (case (a, b) of
     (Some s, Some t) \<Rightarrow> mt_Epoch s \<noteq> mt_Epoch t \<or> mt_Index s < mt_Index t
   | _ \<Rightarrow> True)"

definition example_cf_routes :: "Routes \<Rightarrow> CFRoute list \<times> go_error option" where
  "example_cf_routes rs = (case go_get rs ''cf-router'' of
     None \<Rightarrow> ([], None)
   | Some h \<Rightarrow> ([\<lparr>cf_Hostnames = [h], cf_Port = 8080, cf_RouteServiceUrl = '''',
        cf_IsolationSegment = '''', cf_Protocol = '''', cf_Options = ''''\<rparr>], None))"

definition example_tcp_routes :: "Routes option \<Rightarrow> TCPRoute list \<times> go_error option" where
  "example_tcp_routes ro = (case ro of None \<Rightarrow> ([], None) | Some rs \<Rightarrow>
     (case go_get rs ''tcp-router'' of
        None \<Rightarrow> ([], None)
      | Some g \<Rightarrow> ([\<lparr>tcp_RouterGroupGuid = g, tcp_ExternalPort = 61000, tcp_ContainerPort = 5222\<rparr>], None)))"

definition example_internal_routes :: "Routes \<Rightarrow> InternalRouteInfo list \<times> go_error option" where
  "example_internal_routes rs = (case go_get rs ''internal-router'' of
     None \<Rightarrow> ([], None) | Some h \<Rightarrow> ([\<lparr>iri_Hostname = h\<rparr>], None))"

definition example_to_actual ::
  "ActualLRPInfo option \<Rightarrow> ActualLRPKey \<Rightarrow> ActualLRPInstanceKey \<Rightarrow> ActualLRP option" where
  "example_to_actual io k ik = (case io of None \<Rightarrow> None | Some i \<Rightarrow> Some
     \<lparr>al_ProcessGuid = alk_ProcessGuid k, al_Index = alk_Index k, al_Domain = alk_Domain k,
      al_InstanceGuid = aik_InstanceGuid ik, al_CellId = aik_CellId ik, al_Address = ai_Address i,
      al_InstanceAddress = ai_InstanceAddress i, al_Ports = ai_Ports i,
      al_PreferredAddress = ai_PreferredAddress i, al_Presence = ai_Presence i,
      al_State = ai_State i, al_Since = ai_Since i, al_ModificationTag = ai_ModificationTag i,
      al_AvailabilityZone = ai_AvailabilityZone i, al_RoutableExists = (ai_Routable i \<noteq> None),
      al_GetRoutable = (ai_Routable i = Some True)\<rparr>)"

definition example_event_key :: "Event \<Rightarrow> string" where
  "example_event_key ev = (case ev of
     DesiredLRPCreatedEvent _ (Some d) \<Rightarrow> dl_ProcessGuid d
   | DesiredLRPChangedEvent _ (Some d) _ \<Rightarrow> dl_ProcessGuid d
   | DesiredLRPRemovedEvent _ (Some d) \<Rightarrow> dl_ProcessGuid d
   | ActualLRPInstanceCreatedEvent _ (Some a) \<Rightarrow> al_InstanceGuid a
   | ActualLRPInstanceChangedEvent _ _ _ _ ik \<Rightarrow> aik_InstanceGuid ik
   | ActualLRPInstanceRemovedEvent _ (Some a) \<Rightarrow> al_InstanceGuid a
   | _ \<Rightarrow> '''')"

definition example_env :: bbs_env where
  "example_env = \<lparr>SucceededBy = example_succeeded_by, TagEqual = (=),
     CFRoutesFromRoutingInfo = example_cf_routes, TCPRoutesFromRoutingInfo = example_tcp_routes,
     InternalRoutesFromRoutingInfo = example_internal_routes, ToActualLRP = example_to_actual,
     EventKey = example_event_key, NewDomainSet = (\<lambda>ds d. d \<in> set ds)\<rparr>"

definition example_tag :: "uint32 \<Rightarrow> ModificationTag" where
  "example_tag i = \<lparr>mt_Epoch = ''abc'', mt_Index = i\<rparr>"

text \<open>One instance of the process \<open>pg\<close> listening on container port 8080.\<close>

definition example_actual :: "string \<Rightarrow> int32 \<Rightarrow> Presence \<Rightarrow> uint32 \<Rightarrow> ActualLRP" where
  "example_actual ig idx pres ti =
     \<lparr>al_ProcessGuid = ''pg'', al_Index = idx, al_Domain = ''tests'', al_InstanceGuid = ig,
      al_CellId = ''cell'', al_Address = ''1.1.1.1'', al_InstanceAddress = ''10.0.0.1'',
      al_Ports = [Some \<lparr>pm_ContainerPort = 8080, pm_HostPort = 61001,
                        pm_ContainerTlsProxyPort = 61002, pm_HostTlsProxyPort = 61003\<rparr>],
      al_PreferredAddress = PreferredAddressUnknown, al_Presence = pres,
      al_State = ActualLRPStateRunning, al_Since = 7, al_ModificationTag = example_tag ti,
      al_AvailabilityZone = ''z1'', al_RoutableExists = False, al_GetRoutable = False\<rparr>"

definition example_desired :: "string \<Rightarrow> int32 \<Rightarrow> uint32 \<Rightarrow> DesiredLRP" where
  "example_desired host n ti =
     \<lparr>dl_ProcessGuid = ''pg'', dl_Domain = ''tests'', dl_LogGuid = ''lg'', dl_Instances = n,
      dl_Routes = Some [(''cf-router'', host)], dl_ModificationTag = Some (example_tag ti),
      dl_MetricTags = []\<rparr>"

lemmas example_env_simps = example_env_def example_succeeded_by_def example_cf_routes_def
  example_tcp_routes_def example_internal_routes_def example_to_actual_def example_event_key_def

lemmas example_lrp_simps = example_tag_def example_actual_def example_desired_def

end
