(* ===== verification/Endpoint.thy ===== *)
theory Endpoint
  imports BBS_Models
begin

text \<open>
  \<open>routingtable/endpoint.go\<close>: the keys, endpoints and routes of the routing table, the entry
  \<open>RoutableEndpoints\<close> that holds them, and the conversions from actual and desired LRPs.
  Pointers to modification tags are \<open>option\<close> values: the route emitter never writes through them,
  and two endpoints of one entry never agree on their key, so comparing tags by value where Go
  compares pointers makes no difference to any map the table builds.
\<close>

section \<open>Keys and endpoints\<close>

record EndpointKey =
  ek_InstanceGUID :: string
  ek_Evacuating :: bool

definition NewEndpointKey :: "string \<Rightarrow> bool \<Rightarrow> EndpointKey" where
  "NewEndpointKey instanceGUID evacuating =
     \<lparr>ek_InstanceGUID = instanceGUID, ek_Evacuating = evacuating\<rparr>"

record Address =
  addr_Host :: string
  addr_Port :: uint32

record Endpoint =
  ep_InstanceGUID :: string
  ep_Index :: int32
  ep_Host :: string
  ep_ContainerIP :: string
  ep_Port :: uint32
  ep_ContainerPort :: uint32
  ep_TlsProxyPort :: uint32
  ep_ContainerTlsProxyPort :: uint32
  ep_Presence :: Presence
  ep_IsolationSegment :: string
  ep_Since :: int64
  ep_ModificationTag :: "ModificationTag option"
  ep_PreferredAddress :: PreferredAddress
  ep_AvailabilityZone :: string

definition endpoint_key :: "Endpoint \<Rightarrow> EndpointKey" where
  "endpoint_key e =
     \<lparr>ek_InstanceGUID = ep_InstanceGUID e, ek_Evacuating = (ep_Presence e = ActualLRP_Evacuating)\<rparr>"

definition IsDirectInstanceRoute :: "Endpoint \<Rightarrow> bool \<Rightarrow> bool" where
  "IsDirectInstanceRoute e defaultIsDirectInstanceRoute =
     (case ep_PreferredAddress e of
        PreferredAddressInstance \<Rightarrow> True
      | PreferredAddressHost \<Rightarrow> False
      | PreferredAddressUnknown \<Rightarrow> (if defaultIsDirectInstanceRoute then True else False)
      | PreferredAddressOther _ \<Rightarrow> False)"

definition NewEndpoint ::
  "string \<Rightarrow> Presence \<Rightarrow> string \<Rightarrow> string \<Rightarrow> uint32 \<Rightarrow> uint32 \<Rightarrow> PreferredAddress \<Rightarrow>
   ModificationTag option \<Rightarrow> string \<Rightarrow> Endpoint" where
  "NewEndpoint instanceGUID presence host containerIP port containerPort preferredAddress
     modificationTag availabilityZone =
     \<lparr>ep_InstanceGUID = instanceGUID, ep_Index = 0, ep_Host = host, ep_ContainerIP = containerIP,
      ep_Port = port, ep_ContainerPort = containerPort, ep_TlsProxyPort = 0,
      ep_ContainerTlsProxyPort = 0, ep_Presence = presence, ep_IsolationSegment = '''',
      ep_Since = 0, ep_ModificationTag = modificationTag,
      ep_PreferredAddress = preferredAddress, ep_AvailabilityZone = availabilityZone\<rparr>"

section \<open>Routes\<close>

record ExternalEndpointInfo =
  eei_RouterGroupGUID :: string
  eei_Port :: uint32
  eei_TLSEnabled :: bool

type_synonym ExternalEndpointInfos = "ExternalEndpointInfo list"

record Route =
  rt_Hostname :: string
  rt_RouteServiceUrl :: string
  rt_IsolationSegment :: string
  rt_LogGUID :: string
  rt_Protocol :: string
  rt_MetricTags :: "(string, MetricTagValue) gomap"
  rt_Options :: string

record routeHash =
  rh_Hostname :: string
  rh_RouteServiceUrl :: string
  rh_IsolationSegment :: string
  rh_LogGUID :: string
  rh_Protocol :: string

record InternalRoute =
  ir_Hostname :: string
  ir_ContainerIP :: string
  ir_LogGUID :: string

text \<open>The interface \<open>routeMapping\<close> has three implementations.\<close>

datatype routeMapping =
    TCPRouteM ExternalEndpointInfo
  | HTTPRouteM Route
  | InternalRouteM InternalRoute

text \<open>What \<open>Hash()\<close> returns, an \<open>interface{}\<close>: equal when type and value are.\<close>

datatype route_hash =
    TCPHash ExternalEndpointInfo
  | HTTPHash routeHash
  | InternalHash InternalRoute

definition Route_Hash :: "Route \<Rightarrow> routeHash" where
  "Route_Hash r =
     \<lparr>rh_Hostname = rt_Hostname r, rh_RouteServiceUrl = rt_RouteServiceUrl r,
      rh_IsolationSegment = rt_IsolationSegment r, rh_LogGUID = rt_LogGUID r,
      rh_Protocol = rt_Protocol r\<rparr>"

fun Hash :: "routeMapping \<Rightarrow> route_hash" where
  "Hash (TCPRouteM info) = TCPHash info"
| "Hash (HTTPRouteM r) = HTTPHash (Route_Hash r)"
| "Hash (InternalRouteM r) = InternalHash r"

section \<open>Table entries\<close>

record RoutableEndpoints =
  re_Domain :: string
  re_Routes :: "routeMapping list"
  re_Endpoints :: "(EndpointKey, Endpoint) gomap"
  re_DesiredInstances :: int32
  re_ModificationTag :: "ModificationTag option"

text \<open>The zero value, which a lookup of a missing key returns.\<close>

definition zero_entry :: RoutableEndpoints where
  "zero_entry = \<lparr>re_Domain = '''', re_Routes = [], re_Endpoints = [], re_DesiredInstances = 0,
     re_ModificationTag = None\<rparr>"

definition copy_entry :: "RoutableEndpoints \<Rightarrow> RoutableEndpoints" where
  "copy_entry entry =
     \<lparr>re_Domain = re_Domain entry, re_Routes = re_Routes entry,
      re_Endpoints = go_copy (re_Endpoints entry),
      re_DesiredInstances = re_DesiredInstances entry,
      re_ModificationTag = re_ModificationTag entry\<rparr>"

section \<open>Conversions from LRPs\<close>

record RoutingKey =
  rk_ProcessGUID :: string
  rk_ContainerPort :: uint32

type_synonym RoutingKeys = "RoutingKey list"

definition NewRoutingKey :: "string \<Rightarrow> uint32 \<Rightarrow> RoutingKey" where
  "NewRoutingKey processGUID containerPort =
     \<lparr>rk_ProcessGUID = processGUID, rk_ContainerPort = containerPort\<rparr>"

definition endpoint_for_port :: "ActualLRP \<Rightarrow> PortMapping \<Rightarrow> Endpoint" where
  "endpoint_for_port actualLRP portMapping =
     \<lparr>ep_InstanceGUID = al_InstanceGuid actualLRP, ep_Index = al_Index actualLRP,
      ep_Host = al_Address actualLRP, ep_ContainerIP = al_InstanceAddress actualLRP,
      ep_Port = pm_HostPort portMapping, ep_ContainerPort = pm_ContainerPort portMapping,
      ep_TlsProxyPort = pm_HostTlsProxyPort portMapping,
      ep_ContainerTlsProxyPort = pm_ContainerTlsProxyPort portMapping,
      ep_Presence = al_Presence actualLRP, ep_IsolationSegment = '''',
      ep_Since = al_Since actualLRP, ep_ModificationTag = Some (al_ModificationTag actualLRP),
      ep_PreferredAddress = al_PreferredAddress actualLRP,
      ep_AvailabilityZone = al_AvailabilityZone actualLRP\<rparr>"

fun endpoints_for_ports :: "ActualLRP \<Rightarrow> PortMapping option list \<Rightarrow> Endpoint list" where
  "endpoints_for_ports actualLRP [] = []"
| "endpoints_for_ports actualLRP (None # ports) = endpoints_for_ports actualLRP ports"
| "endpoints_for_ports actualLRP (Some pm # ports) =
     endpoint_for_port actualLRP pm # endpoints_for_ports actualLRP ports"

definition NewEndpointsFromActual :: "ActualLRP \<Rightarrow> Endpoint list" where
  "NewEndpointsFromActual actualLRP = endpoints_for_ports actualLRP (al_Ports actualLRP)"

text \<open>\<open>None\<close> is the panic of dereferencing a nil port mapping, which this loop does not guard.\<close>

fun routing_keys_for_ports :: "string \<Rightarrow> PortMapping option list \<Rightarrow> RoutingKeys option" where
  "routing_keys_for_ports guid [] = Some []"
| "routing_keys_for_ports guid (None # ports) = None"
| "routing_keys_for_ports guid (Some pm # ports) =
     (case routing_keys_for_ports guid ports of
        None \<Rightarrow> None
      | Some keys \<Rightarrow>
          Some (NewRoutingKey guid (pm_ContainerPort pm) #
                (if pm_HostTlsProxyPort pm \<noteq> 0 \<and> pm_ContainerTlsProxyPort pm \<noteq> 0
                 then [NewRoutingKey guid (pm_ContainerTlsProxyPort pm)] else []) @ keys))"

definition NewRoutingKeysFromActual :: "ActualLRP \<Rightarrow> RoutingKeys option" where
  "NewRoutingKeysFromActual actualLRP =
     routing_keys_for_ports (al_ProcessGuid actualLRP) (al_Ports actualLRP)"

definition NewRoutingKeysFromDesired :: "bbs_env \<Rightarrow> DesiredLRP \<Rightarrow> RoutingKeys" where
  "NewRoutingKeysFromDesired E desired =
     (case TCPRoutesFromRoutingInfo E (dl_Routes desired) of
        (routes, Some err) \<Rightarrow> []
      | (routes, None) \<Rightarrow>
          map (\<lambda>r. NewRoutingKey (dl_ProcessGuid desired) (tcp_ContainerPort r)) routes)"

section \<open>Helpers on key and port lists\<close>

definition HasNoExternalPorts :: "ExternalEndpointInfos \<Rightarrow> bool" where
  "HasNoExternalPorts e = (length e = 0)"

fun ContainsExternalPort :: "ExternalEndpointInfos \<Rightarrow> uint32 \<Rightarrow> bool" where
  "ContainsExternalPort [] port = False"
| "ContainsExternalPort (existing # e) port =
     (if eei_Port existing = port then True else ContainsExternalPort e port)"

fun containsRoutingKey :: "RoutingKeys \<Rightarrow> RoutingKey \<Rightarrow> bool" where
  "containsRoutingKey [] routingKey = False"
| "containsRoutingKey (lhsKey # lhs) routingKey =
     (if lhsKey = routingKey then True else containsRoutingKey lhs routingKey)"

fun RoutingKeys_Remove :: "RoutingKeys \<Rightarrow> RoutingKeys \<Rightarrow> RoutingKeys" where
  "RoutingKeys_Remove [] rhs = []"
| "RoutingKeys_Remove (lhsKey # lhs) rhs =
     (if \<not> containsRoutingKey rhs lhsKey then lhsKey # RoutingKeys_Remove lhs rhs
      else RoutingKeys_Remove lhs rhs)"

section \<open>The significant part of an endpoint\<close>

text \<open>
  \<open>endpointDifferent\<close> ignores the modification tag, the presence and the time stamp. Two endpoints
  are the same to the diff exactly when they agree on \<open>endpoint_sig\<close>.
\<close>

definition endpoint_sig :: "Endpoint \<Rightarrow> Endpoint" where
  "endpoint_sig e = e\<lparr>ep_ModificationTag := None, ep_Presence := ActualLRP_Ordinary, ep_Since := 0\<rparr>"

definition wf_entry :: "RoutableEndpoints \<Rightarrow> bool" where
  "wf_entry entry = (go_wf (re_Endpoints entry) \<and>
     list_all (\<lambda>(k, e). endpoint_key e = k) (re_Endpoints entry))"

section \<open>Lemmas\<close>

lemma zero_entry_sel [simp]:
  "re_Domain zero_entry = ''''" "re_Routes zero_entry = []" "re_Endpoints zero_entry = []"
  "re_DesiredInstances zero_entry = 0" "re_ModificationTag zero_entry = None"
  by (simp_all add: zero_entry_def)

lemma wf_zero_entry [simp]: "wf_entry zero_entry"
  by (simp add: wf_entry_def)

lemma wf_entry_copy [simp]: "wf_entry entry \<Longrightarrow> copy_entry entry = entry"
  by (simp add: copy_entry_def wf_entry_def)

lemma wf_entryD:
  "wf_entry entry \<Longrightarrow> go_wf (re_Endpoints entry)"
  "wf_entry entry \<Longrightarrow> go_get (re_Endpoints entry) k = Some e \<Longrightarrow> endpoint_key e = k"
  by (auto simp: wf_entry_def list_all_iff gm.items_get [symmetric])

lemma wf_entryI:
  assumes "go_wf (re_Endpoints entry)"
    and "\<And>k e. go_get (re_Endpoints entry) k = Some e \<Longrightarrow> endpoint_key e = k"
  shows "wf_entry entry"
  using assms by (auto simp: wf_entry_def list_all_iff gm.items_get)

lemma wf_entry_put:
  "wf_entry entry \<Longrightarrow> endpoint_key e = k \<Longrightarrow>
     wf_entry (entry\<lparr>re_Endpoints := go_put (re_Endpoints entry) k e\<rparr>)"
  by (rule wf_entryI) (auto dest: wf_entryD split: if_splits)

lemma wf_entry_del:
  "wf_entry entry \<Longrightarrow> wf_entry (entry\<lparr>re_Endpoints := go_del (re_Endpoints entry) k\<rparr>)"
  by (rule wf_entryI) (auto dest: wf_entryD split: if_splits)

lemma wf_entry_other_fields [simp]:
  "wf_entry (entry\<lparr>re_Routes := rs\<rparr>) = wf_entry entry"
  "wf_entry (entry\<lparr>re_Domain := d\<rparr>) = wf_entry entry"
  "wf_entry (entry\<lparr>re_DesiredInstances := n\<rparr>) = wf_entry entry"
  "wf_entry (entry\<lparr>re_ModificationTag := t\<rparr>) = wf_entry entry"
  by (simp_all add: wf_entry_def)

lemma endpoint_key_sig: "ek_InstanceGUID (endpoint_key e) = ep_InstanceGUID (endpoint_sig e)"
  by (simp add: endpoint_key_def endpoint_sig_def)

lemma endpoint_sig_guid: "endpoint_sig a = endpoint_sig b \<Longrightarrow> ep_InstanceGUID a = ep_InstanceGUID b"
  by (metis endpoint_key_sig endpoint_key_def EndpointKey.select_convs(1))

lemma set_endpoints_for_ports:
  "set (endpoints_for_ports a ports) = {endpoint_for_port a pm | pm. Some pm \<in> set ports}"
  by (induction a ports rule: endpoints_for_ports.induct) auto

lemma routing_keys_for_ports_None: "routing_keys_for_ports guid ports = None \<longleftrightarrow> None \<in> set ports"
  by (induction guid ports rule: routing_keys_for_ports.induct) (auto split: option.splits)

lemma containsRoutingKey_iff [simp]: "containsRoutingKey ks k \<longleftrightarrow> k \<in> set ks"
  by (induction ks k rule: containsRoutingKey.induct) auto

lemma RoutingKeys_Remove_filter: "RoutingKeys_Remove lhs rhs = filter (\<lambda>k. k \<notin> set rhs) lhs"
  by (induction lhs rhs rule: RoutingKeys_Remove.induct) auto

lemma ContainsExternalPort_iff: "ContainsExternalPort es port \<longleftrightarrow> (\<exists>e \<in> set es. eei_Port e = port)"
  by (induction es port rule: ContainsExternalPort.induct) auto

end
