(* ===== verification/Registry_Message.thy ===== *)
theory Registry_Message
  imports Endpoint
begin

text \<open>
  \<open>routingtable/registry_message.go\<close>, \<open>routingtable/messages_to_emit.go\<close>, the methods
  \<open>MessageFor\<close> of \<open>routingtable/endpoint.go\<close> and the TCP mappings of
  \<open>routingtable/routingtable.go\<close>: what the routing table hands to the emitters.
\<close>

section \<open>Registry messages\<close>

record RegistryMessage =
  rm_Host :: string
  rm_Port :: uint32
  rm_TlsPort :: uint32
  rm_URIs :: "string list"
  rm_Protocol :: string
  rm_App :: string
  rm_RouteServiceUrl :: string
  rm_PrivateInstanceId :: string
  rm_PrivateInstanceIndex :: string
  rm_ServerCertDomainSAN :: string
  rm_IsolationSegment :: string
  rm_EndpointUpdatedAtNs :: int64
  rm_Tags :: "(string, string) gomap"
  rm_AvailabilityZone :: string
  rm_Options :: string

record ExternalServiceGreetingMessage =
  esg_MinimumRegisterInterval :: int
  esg_PruneThresholdInSeconds :: int

definition metric_tag_value :: "MetricTagValue \<Rightarrow> Endpoint \<Rightarrow> string" where
  "metric_tag_value v endpoint =
     (case mtv_Dynamic v of
        MetricTagDynamicValueNone \<Rightarrow> mtv_Static v
      | MetricTagDynamicValueIndex \<Rightarrow> itoa (sint (ep_Index endpoint))
      | MetricTagDynamicValueInstanceGuid \<Rightarrow> ep_InstanceGUID endpoint
      | MetricTagDynamicValueOther _ \<Rightarrow> '''')"

definition populateMetricTags :: "(string, MetricTagValue) gomap \<Rightarrow> Endpoint \<Rightarrow> (string, string) gomap" where
  "populateMetricTags input endpoint =
     go_put (go_collect fst (\<lambda>(k, v). metric_tag_value v endpoint) input [])
       ''component'' ''route-emitter''"

definition index_string :: "Endpoint \<Rightarrow> string" where
  "index_string endpoint =
     (if ep_InstanceGUID endpoint \<noteq> '''' then itoa (sint (ep_Index endpoint)) else '''')"

definition since_field :: "Endpoint \<Rightarrow> bool \<Rightarrow> int64" where
  "since_field endpoint emitEndpointUpdatedAt = (if \<not> emitEndpointUpdatedAt then 0 else ep_Since endpoint)"

definition RegistryMessageFor :: "Endpoint \<Rightarrow> Route \<Rightarrow> bool \<Rightarrow> RegistryMessage" where
  "RegistryMessageFor endpoint route emitEndpointUpdatedAt =
     \<lparr>rm_Host = ep_Host endpoint, rm_Port = ep_Port endpoint, rm_TlsPort = ep_TlsProxyPort endpoint,
      rm_URIs = [rt_Hostname route], rm_Protocol = rt_Protocol route, rm_App = rt_LogGUID route,
      rm_RouteServiceUrl = rt_RouteServiceUrl route,
      rm_PrivateInstanceId = ep_InstanceGUID endpoint,
      rm_PrivateInstanceIndex = index_string endpoint,
      rm_ServerCertDomainSAN = ep_InstanceGUID endpoint,
      rm_IsolationSegment = rt_IsolationSegment route,
      rm_EndpointUpdatedAtNs = since_field endpoint emitEndpointUpdatedAt,
      rm_Tags = populateMetricTags (rt_MetricTags route) endpoint,
      rm_AvailabilityZone = ep_AvailabilityZone endpoint, rm_Options = rt_Options route\<rparr>"

definition InternalAddressRegistryMessageFor :: "Endpoint \<Rightarrow> Route \<Rightarrow> bool \<Rightarrow> RegistryMessage" where
  "InternalAddressRegistryMessageFor endpoint route emitEndpointUpdatedAt =
     \<lparr>rm_Host = ep_ContainerIP endpoint, rm_Port = ep_ContainerPort endpoint,
      rm_TlsPort = ep_ContainerTlsProxyPort endpoint,
      rm_URIs = [rt_Hostname route], rm_Protocol = rt_Protocol route, rm_App = rt_LogGUID route,
      rm_RouteServiceUrl = rt_RouteServiceUrl route,
      rm_PrivateInstanceId = ep_InstanceGUID endpoint,
      rm_PrivateInstanceIndex = index_string endpoint,
      rm_ServerCertDomainSAN = ep_InstanceGUID endpoint,
      rm_IsolationSegment = rt_IsolationSegment route,
      rm_EndpointUpdatedAtNs = since_field endpoint emitEndpointUpdatedAt,
      rm_Tags = populateMetricTags (rt_MetricTags route) endpoint,
      rm_AvailabilityZone = ep_AvailabilityZone endpoint, rm_Options = ''''\<rparr>"

definition InternalEndpointRegistryMessageFor :: "Endpoint \<Rightarrow> InternalRoute \<Rightarrow> bool \<Rightarrow> RegistryMessage" where
  "InternalEndpointRegistryMessageFor endpoint route emitEndpointUpdatedAt =
     \<lparr>rm_Host = ep_ContainerIP endpoint, rm_Port = 0, rm_TlsPort = 0,
      rm_URIs = [ir_Hostname route, index_string endpoint @ ''.'' @ ir_Hostname route],
      rm_Protocol = '''', rm_App = ir_LogGUID route, rm_RouteServiceUrl = '''',
      rm_PrivateInstanceId = '''', rm_PrivateInstanceIndex = index_string endpoint,
      rm_ServerCertDomainSAN = '''', rm_IsolationSegment = '''',
      rm_EndpointUpdatedAtNs = since_field endpoint emitEndpointUpdatedAt,
      rm_Tags = [(''component'', ''route-emitter'')],
      rm_AvailabilityZone = ep_AvailabilityZone endpoint, rm_Options = ''''\<rparr>"

section \<open>MessageFor\<close>

definition ExternalEndpointInfo_MessageFor :: "ExternalEndpointInfo \<Rightarrow> Endpoint \<Rightarrow> bool \<Rightarrow> TcpRouteMapping" where
  "ExternalEndpointInfo_MessageFor info e directInstanceRoute =
     (let tlsHostPort = (if eei_TLSEnabled info then uint (ep_TlsProxyPort e) else -1);
          tlsContainerPort = (if eei_TLSEnabled info then uint (ep_ContainerTlsProxyPort e) else -1);
          instanceGUID = (if eei_TLSEnabled info then ep_InstanceGUID e else '''') in
      if IsDirectInstanceRoute e directInstanceRoute
      then \<lparr>trm_RouterGroupGuid = eei_RouterGroupGUID info, trm_ExternalPort = ucast (eei_Port info),
            trm_HostIP = ep_ContainerIP e, trm_HostPort = ucast (ep_ContainerPort e),
            trm_HostTLSPort = tlsContainerPort, trm_InstanceId = instanceGUID, trm_TTL = 0\<rparr>
      else \<lparr>trm_RouterGroupGuid = eei_RouterGroupGUID info, trm_ExternalPort = ucast (eei_Port info),
            trm_HostIP = ep_Host e, trm_HostPort = ucast (ep_Port e),
            trm_HostTLSPort = tlsHostPort, trm_InstanceId = instanceGUID, trm_TTL = 0\<rparr>)"

definition Route_MessageFor :: "Route \<Rightarrow> Endpoint \<Rightarrow> bool \<Rightarrow> bool \<Rightarrow> RegistryMessage" where
  "Route_MessageFor r endpoint directInstanceAddress emitEndpointUpdatedAt =
     (if IsDirectInstanceRoute endpoint directInstanceAddress
      then InternalAddressRegistryMessageFor endpoint r emitEndpointUpdatedAt
      else RegistryMessageFor endpoint r emitEndpointUpdatedAt)"

text \<open>The interface method: a registry message, a TCP mapping or an internal message, the others nil.\<close>

fun MessageFor :: "routeMapping \<Rightarrow> Endpoint \<Rightarrow> bool \<Rightarrow> bool \<Rightarrow>
    RegistryMessage option \<times> TcpRouteMapping option \<times> RegistryMessage option" where
  "MessageFor (TCPRouteM info) e direct emitUpdated =
     (None, Some (ExternalEndpointInfo_MessageFor info e direct), None)"
| "MessageFor (HTTPRouteM r) e direct emitUpdated =
     (Some (Route_MessageFor r e direct emitUpdated), None, None)"
| "MessageFor (InternalRouteM r) e direct emitUpdated =
     (None, None, Some (InternalEndpointRegistryMessageFor e r emitUpdated))"

section \<open>Collections of messages\<close>

record MessagesToEmit =
  RegistrationMessages :: "RegistryMessage list"
  UnregistrationMessages :: "RegistryMessage list"
  InternalRegistrationMessages :: "RegistryMessage list"
  InternalUnregistrationMessages :: "RegistryMessage list"

definition no_messages :: MessagesToEmit where
  "no_messages = \<lparr>RegistrationMessages = [], UnregistrationMessages = [],
     InternalRegistrationMessages = [], InternalUnregistrationMessages = []\<rparr>"

definition MessagesToEmit_Merge :: "MessagesToEmit \<Rightarrow> MessagesToEmit \<Rightarrow> MessagesToEmit" where
  "MessagesToEmit_Merge m other =
     \<lparr>RegistrationMessages = RegistrationMessages m @ RegistrationMessages other,
      UnregistrationMessages = UnregistrationMessages m @ UnregistrationMessages other,
      InternalRegistrationMessages = InternalRegistrationMessages m @ InternalRegistrationMessages other,
      InternalUnregistrationMessages = InternalUnregistrationMessages m @ InternalUnregistrationMessages other\<rparr>"

fun routeCount_from :: "uint64 \<Rightarrow> RegistryMessage list \<Rightarrow> uint64" where
  "routeCount_from count [] = count"
| "routeCount_from count (message # messages) =
     routeCount_from (count + of_nat (length (rm_URIs message))) messages"

definition routeCount :: "RegistryMessage list \<Rightarrow> uint64" where
  "routeCount messages = routeCount_from 0 messages"

definition RouteRegistrationCount :: "MessagesToEmit \<Rightarrow> uint64" where
  "RouteRegistrationCount m = routeCount (RegistrationMessages m)"

definition RouteUnregistrationCount :: "MessagesToEmit \<Rightarrow> uint64" where
  "RouteUnregistrationCount m = routeCount (UnregistrationMessages m)"

definition InternalRouteRegistrationCount :: "MessagesToEmit \<Rightarrow> uint64" where
  "InternalRouteRegistrationCount m = routeCount (InternalRegistrationMessages m)"

definition InternalRouteUnregistrationCount :: "MessagesToEmit \<Rightarrow> uint64" where
  "InternalRouteUnregistrationCount m = routeCount (InternalUnregistrationMessages m)"

record TCPRouteMappings =
  Registrations :: "TcpRouteMapping list"
  Unregistrations :: "TcpRouteMapping list"

definition no_mappings :: TCPRouteMappings where
  "no_mappings = \<lparr>Registrations = [], Unregistrations = []\<rparr>"

definition TCPRouteMappings_Merge :: "TCPRouteMappings \<Rightarrow> TCPRouteMappings \<Rightarrow> TCPRouteMappings" where
  "TCPRouteMappings_Merge mappings other =
     \<lparr>Registrations = Registrations mappings @ Registrations other,
      Unregistrations = Unregistrations mappings @ Unregistrations other\<rparr>"

section \<open>Merging\<close>

text \<open>
  Both \<open>Merge\<close> methods are the concatenation of a monoid: the loops of the routing table merge one
  part per key, and the parts of the final result are those of the single keys.
\<close>

locale merge_monoid =
  fixes unit :: "'m"
    and merge :: "'m \<Rightarrow> 'm \<Rightarrow> 'm"
    and part :: "'m \<Rightarrow> 'x list"
  assumes merge_assoc: "merge (merge a b) c = merge a (merge b c)"
    and merge_unit_left: "merge unit a = a"
    and merge_unit_right: "merge a unit = a"
    and part_unit: "part unit = []"
    and part_merge: "part (merge a b) = part a @ part b"
begin

lemma fold_merge_acc: "fold (\<lambda>x acc. merge acc (f x)) xs acc = merge acc (fold (\<lambda>x acc. merge acc (f x)) xs unit)"
proof (induction xs arbitrary: acc)
  case Nil
  then show ?case by (simp add: merge_unit_right)
next
  case (Cons x xs)
  have "fold (\<lambda>x acc. merge acc (f x)) (x # xs) acc
      = merge (merge acc (f x)) (fold (\<lambda>x acc. merge acc (f x)) xs unit)"
    by (simp add: Cons.IH [of "merge acc (f x)"])
  also have "\<dots> = merge acc (merge (f x) (fold (\<lambda>x acc. merge acc (f x)) xs unit))"
    by (rule merge_assoc)
  also have "merge (f x) (fold (\<lambda>x acc. merge acc (f x)) xs unit)
      = fold (\<lambda>x acc. merge acc (f x)) (x # xs) unit"
    by (simp add: merge_unit_left Cons.IH [of "f x"])
  finally show ?case .
qed

lemma part_fold_merge:
  "part (fold (\<lambda>x acc. merge acc (f x)) xs acc) = part acc @ concat (map (\<lambda>x. part (f x)) xs)"
  by (induction xs arbitrary: acc) (simp_all add: part_merge)

end

interpretation msg_reg: merge_monoid no_messages MessagesToEmit_Merge RegistrationMessages
  by unfold_locales (simp_all add: MessagesToEmit_Merge_def no_messages_def)

interpretation msg_unreg: merge_monoid no_messages MessagesToEmit_Merge UnregistrationMessages
  by unfold_locales (simp_all add: MessagesToEmit_Merge_def no_messages_def)

interpretation msg_ireg: merge_monoid no_messages MessagesToEmit_Merge InternalRegistrationMessages
  by unfold_locales (simp_all add: MessagesToEmit_Merge_def no_messages_def)

interpretation msg_iunreg: merge_monoid no_messages MessagesToEmit_Merge InternalUnregistrationMessages
  by unfold_locales (simp_all add: MessagesToEmit_Merge_def no_messages_def)

interpretation map_reg: merge_monoid no_mappings TCPRouteMappings_Merge Registrations
  by unfold_locales (simp_all add: TCPRouteMappings_Merge_def no_mappings_def)

interpretation map_unreg: merge_monoid no_mappings TCPRouteMappings_Merge Unregistrations
  by unfold_locales (simp_all add: TCPRouteMappings_Merge_def no_mappings_def)

lemmas merge_parts [simp] =
  msg_reg.part_merge msg_unreg.part_merge msg_ireg.part_merge msg_iunreg.part_merge
  map_reg.part_merge map_unreg.part_merge
  msg_reg.part_unit msg_unreg.part_unit msg_ireg.part_unit msg_iunreg.part_unit
  map_reg.part_unit map_unreg.part_unit

lemmas merge_units [simp] =
  msg_reg.merge_unit_left msg_reg.merge_unit_right map_reg.merge_unit_left map_reg.merge_unit_right

section \<open>Lemmas on counts and tags\<close>

lemma routeCount_from_eq:
  "routeCount_from c ms = c + of_nat (sum_list (map (\<lambda>m. length (rm_URIs m)) ms))"
  by (induction c ms rule: routeCount_from.induct) simp_all

lemma unat_routeCount:
  "unat (routeCount ms) = sum_list (map (\<lambda>m. length (rm_URIs m)) ms) mod 2 ^ 64"
  by (simp add: routeCount_def routeCount_from_eq unat_of_nat)

lemma populateMetricTags_get:
  assumes "go_wf input"
  shows "go_get (populateMetricTags input endpoint) k =
    (if k = ''component'' then Some ''route-emitter''
     else map_option (\<lambda>v. metric_tag_value v endpoint) (go_get input k))"
proof (cases "k = ''component''")
  case True
  then show ?thesis by (simp add: populateMetricTags_def)
next
  case False
  let ?m = "go_collect fst (\<lambda>(k, v). metric_tag_value v endpoint) input []"
  have "go_get ?m k = map_option (\<lambda>v. metric_tag_value v endpoint) (go_get input k)"
  proof (cases "go_get ?m k")
    case None
    then have "k \<notin> fst ` set input" by (simp add: go_collect_None)
    then have "go_get input k = None" using go_keys_dom [of input] by (auto simp: go_keys_def)
    with None show ?thesis by simp
  next
    case (Some s)
    then obtain v where "(k, v) \<in> set input" "metric_tag_value v endpoint = s"
      by (fastforce dest: go_collect_SomeD)
    with Some assms show ?thesis by (simp add: gm.items_get)
  qed
  with False show ?thesis by (simp add: populateMetricTags_def)
qed

end
