(* ===== verification/Table_Diff.thy ===== *)
theory Table_Diff
  imports Registry_Message
begin

text \<open>
  The diff engine of \<open>routingtable/routingtable.go\<close>: \<open>diffRoutes\<close>, \<open>diffEndpoints\<close>,
  \<open>messages\<close> and \<open>emitDiffMessages\<close>, which turn the change of one table entry into registrations
  and unregistrations. The lemmas show that what is emitted is exactly the difference between the
  route/endpoint pairs of the old and of the new entry.
\<close>

section \<open>The diff of one entry\<close>

record routesDiff =
  rd_before :: "routeMapping list"
  rd_after :: "routeMapping list"
  rd_removed :: "routeMapping list"
  rd_added :: "routeMapping list"

record endpointsDiff =
  ed_before :: "(EndpointKey, Endpoint) gomap"
  ed_after :: "(EndpointKey, Endpoint) gomap"
  ed_removed :: "(EndpointKey, Endpoint) gomap"
  ed_added :: "(EndpointKey, Endpoint) gomap"

text \<open>The values of \<open>these\<close> whose key is not in \<open>others\<close>, in iteration order.\<close>

definition routes_missing_in :: "(route_hash, routeMapping) gomap \<Rightarrow> (route_hash, routeMapping) gomap \<Rightarrow>
    routeMapping list" where
  "routes_missing_in these others =
     map snd (filter (\<lambda>(routeHash, route). go_get others routeHash = None) these)"

definition diffRoutes :: "routeMapping list \<Rightarrow> routeMapping list \<Rightarrow> routesDiff" where
  "diffRoutes before after =
     (let existingRoutes = go_collect Hash (\<lambda>route. route) before [];
          newRoutes = go_collect Hash (\<lambda>route. route) after [] in
      \<lparr>rd_before = before, rd_after = after,
       rd_removed = routes_missing_in existingRoutes newRoutes,
       rd_added = routes_missing_in newRoutes existingRoutes\<rparr>)"

definition endpointDifferent :: "Endpoint \<Rightarrow> Endpoint \<Rightarrow> bool" where
  "endpointDifferent before after =
     (before\<lparr>ep_ModificationTag := ep_ModificationTag after, ep_Presence := ep_Presence after,
             ep_Since := ep_Since after\<rparr> \<noteq> after)"

definition flip_evacuating :: "EndpointKey \<Rightarrow> EndpointKey" where
  "flip_evacuating key = key\<lparr>ek_Evacuating := \<not> ek_Evacuating key\<rparr>"

text \<open>
  One iteration of either loop of \<open>diffEndpoints\<close>: look the endpoint up in the other map under its
  key, then under the key with \<open>Evacuating\<close> flipped. The flipped key stays in the loop variable, so
  it is also the key of the write.
\<close>

definition diff_endpoint_step :: "(Endpoint \<Rightarrow> Endpoint \<Rightarrow> bool) \<Rightarrow> (EndpointKey, Endpoint) gomap \<Rightarrow>
    EndpointKey \<times> Endpoint \<Rightarrow> (EndpointKey, Endpoint) gomap \<Rightarrow> (EndpointKey, Endpoint) gomap" where
  "diff_endpoint_step differs others = (\<lambda>(key, endpoint) diff.
     (let key' = (if go_get others key = None then flip_evacuating key else key) in
      case go_get others key' of
        None \<Rightarrow> go_put diff key' endpoint
      | Some found \<Rightarrow> if differs found endpoint then go_put diff key' endpoint else diff))"

definition diffEndpoints :: "(EndpointKey, Endpoint) gomap \<Rightarrow> (EndpointKey, Endpoint) gomap \<Rightarrow> endpointsDiff" where
  "diffEndpoints before after =
     \<lparr>ed_before = before, ed_after = after,
      ed_removed = fold (diff_endpoint_step (\<lambda>newEndpoint endpoint. endpointDifferent newEndpoint endpoint) after)
        before [],
      ed_added = fold (diff_endpoint_step (\<lambda>oldEndpoint endpoint. endpointDifferent endpoint oldEndpoint) before)
        after []\<rparr>"

section \<open>Registrations without duplicates\<close>

record registrationMetadata =
  rmd_emitEndpointUpdatedAt :: bool
  rmd_route :: routeMapping

record unregistrationMetadata =
  umd_route :: routeMapping

text \<open>\<open>map[interface{}]map[Endpoint]*metadata\<close>, written only where there is nothing yet.\<close>

type_synonym 'm nested = "(route_hash, (Endpoint, 'm) gomap) gomap"

definition record_once :: "route_hash \<Rightarrow> Endpoint \<Rightarrow> 'm \<Rightarrow> 'm nested \<Rightarrow> 'm nested" where
  "record_once rh container metadata m =
     (case go_get m rh of
        None \<Rightarrow> go_put m rh (go_put [] container metadata)
      | Some es \<Rightarrow>
          (case go_get es container of
             Some _ \<Rightarrow> m
           | None \<Rightarrow> go_put m rh (go_put es container metadata)))"

definition unregistrations_for :: "routesDiff \<Rightarrow> endpointsDiff \<Rightarrow> unregistrationMetadata nested" where
  "unregistrations_for rd ed =
     fold (\<lambda>container m.
         fold (\<lambda>route m. record_once (Hash route) container \<lparr>umd_route = route\<rparr> m) (rd_before rd) m)
       (go_values (ed_removed ed))
       (fold (\<lambda>route m.
           fold (\<lambda>container m. record_once (Hash route) container \<lparr>umd_route = route\<rparr> m)
             (go_values (ed_before ed)) m)
         (rd_removed rd) [])"

definition registrations_for :: "routesDiff \<Rightarrow> endpointsDiff \<Rightarrow> registrationMetadata nested" where
  "registrations_for rd ed =
     fold (\<lambda>container m.
         fold (\<lambda>route m. record_once (Hash route) container
             \<lparr>rmd_emitEndpointUpdatedAt = True, rmd_route = route\<rparr> m) (rd_after rd) m)
       (go_values (ed_added ed))
       (fold (\<lambda>route m.
           fold (\<lambda>container m. record_once (Hash route) container
               \<lparr>rmd_emitEndpointUpdatedAt = False, rmd_route = route\<rparr> m)
             (go_values (ed_after ed)) m)
         (rd_added rd) [])"

text \<open>The order in which the two nested loops over such a map visit its entries.\<close>

definition nested_items :: "'m nested \<Rightarrow> (Endpoint \<times> 'm) list" where
  "nested_items m = concat (map snd m)"

section \<open>Messages\<close>

definition messages :: "bool \<Rightarrow> routesDiff \<Rightarrow> endpointsDiff \<Rightarrow> TCPRouteMappings \<times> MessagesToEmit" where
  "messages directInstanceRoute rd ed =
     (let regs = map (\<lambda>(e, metadata). MessageFor (rmd_route metadata) e directInstanceRoute
             (rmd_emitEndpointUpdatedAt metadata)) (nested_items (registrations_for rd ed));
          unregs = map (\<lambda>(e, metadata). MessageFor (umd_route metadata) e directInstanceRoute False)
             (nested_items (unregistrations_for rd ed)) in
      (\<lparr>Registrations = List.map_filter (\<lambda>(msg, mapping, internalMsg). mapping) regs,
        Unregistrations = List.map_filter (\<lambda>(msg, mapping, internalMsg). mapping) unregs\<rparr>,
       \<lparr>RegistrationMessages = List.map_filter (\<lambda>(msg, mapping, internalMsg). msg) regs,
        UnregistrationMessages = List.map_filter (\<lambda>(msg, mapping, internalMsg). msg) unregs,
        InternalRegistrationMessages = List.map_filter (\<lambda>(msg, mapping, internalMsg). internalMsg) regs,
        InternalUnregistrationMessages = List.map_filter (\<lambda>(msg, mapping, internalMsg). internalMsg) unregs\<rparr>))"

definition emitDiffMessages :: "bool \<Rightarrow> RoutableEndpoints \<Rightarrow> RoutableEndpoints \<Rightarrow>
    TCPRouteMappings \<times> MessagesToEmit \<times> bool" where
  "emitDiffMessages directInstanceRoute oldEntry newEntry =
     (let rd = diffRoutes (re_Routes oldEntry) (re_Routes newEntry);
          ed = diffEndpoints (re_Endpoints oldEntry) (re_Endpoints newEntry);
          changed = (length (rd_added rd) > 0 \<or> length (rd_removed rd) > 0 \<or>
                     length (ed_added ed) > 0 \<or> length (ed_removed ed) > 0);
          (mappings, msgs) = messages directInstanceRoute rd ed in
      (mappings, msgs, changed))"

section \<open>What an entry stands for\<close>

definition entry_endpoints :: "RoutableEndpoints \<Rightarrow> Endpoint set" where
  "entry_endpoints entry = set (go_values (re_Endpoints entry))"

definition entry_view :: "RoutableEndpoints \<Rightarrow> (route_hash \<times> Endpoint) set" where
  "entry_view entry = Hash ` set (re_Routes entry) \<times> endpoint_sig ` entry_endpoints entry"

text \<open>
  The ordinary and the evacuating record of one instance describe the same container, so they agree
  on every field but the tag, the presence and the time stamp.
\<close>

definition same_instance_agrees :: "Endpoint set \<Rightarrow> bool" where
  "same_instance_agrees es =
     (\<forall>e \<in> es. \<forall>e' \<in> es. ep_InstanceGUID e = ep_InstanceGUID e' \<longrightarrow> endpoint_sig e = endpoint_sig e')"

section \<open>What is emitted\<close>

text \<open>One thing the routing table asks its emitters to send.\<close>

datatype emitted =
    Register RegistryMessage
  | Unregister RegistryMessage
  | InternalRegister RegistryMessage
  | InternalUnregister RegistryMessage
  | UpsertTcp TcpRouteMapping
  | DeleteTcp TcpRouteMapping

definition emitted_set :: "TCPRouteMappings \<Rightarrow> MessagesToEmit \<Rightarrow> emitted set" where
  "emitted_set mappings msgs =
     Register ` set (RegistrationMessages msgs) \<union> Unregister ` set (UnregistrationMessages msgs) \<union>
     InternalRegister ` set (InternalRegistrationMessages msgs) \<union>
     InternalUnregister ` set (InternalUnregistrationMessages msgs) \<union>
     UpsertTcp ` set (Registrations mappings) \<union> DeleteTcp ` set (Unregistrations mappings)"

fun reg_item :: "bool \<Rightarrow> routeMapping \<Rightarrow> Endpoint \<Rightarrow> bool \<Rightarrow> emitted" where
  "reg_item d (TCPRouteM info) e f = UpsertTcp (ExternalEndpointInfo_MessageFor info e d)"
| "reg_item d (HTTPRouteM r) e f = Register (Route_MessageFor r e d f)"
| "reg_item d (InternalRouteM r) e f = InternalRegister (InternalEndpointRegistryMessageFor e r f)"

fun unreg_item :: "bool \<Rightarrow> routeMapping \<Rightarrow> Endpoint \<Rightarrow> emitted" where
  "unreg_item d (TCPRouteM info) e = DeleteTcp (ExternalEndpointInfo_MessageFor info e d)"
| "unreg_item d (HTTPRouteM r) e = Unregister (Route_MessageFor r e d False)"
| "unreg_item d (InternalRouteM r) e = InternalUnregister (InternalEndpointRegistryMessageFor e r False)"

text \<open>
  The emission of a change of one entry is exact: each item registers a pair of the new entry that
  the old one did not have (with its time stamp exactly when the route was there before) or
  unregisters a pair of the old entry that the new one no longer has, and no such pair is left out.
\<close>

definition entry_emission_exact :: "bool \<Rightarrow> RoutableEndpoints \<Rightarrow> RoutableEndpoints \<Rightarrow> emitted set \<Rightarrow> bool" where
  "entry_emission_exact d old new X =
     ((\<forall>x \<in> X.
         (\<exists>r \<in> set (re_Routes new). \<exists>e \<in> entry_endpoints new.
            (Hash r, endpoint_sig e) \<notin> entry_view old \<and>
            x = reg_item d r e (Hash r \<in> Hash ` set (re_Routes old))) \<or>
         (\<exists>r \<in> set (re_Routes old). \<exists>e \<in> entry_endpoints old.
            (Hash r, endpoint_sig e) \<notin> entry_view new \<and> x = unreg_item d r e)) \<and>
      (\<forall>p \<in> entry_view new - entry_view old. \<exists>r \<in> set (re_Routes new). \<exists>e \<in> entry_endpoints new.
         (Hash r, endpoint_sig e) = p \<and> reg_item d r e (Hash r \<in> Hash ` set (re_Routes old)) \<in> X) \<and>
      (\<forall>p \<in> entry_view old - entry_view new. \<exists>r \<in> set (re_Routes old). \<exists>e \<in> entry_endpoints old.
         (Hash r, endpoint_sig e) = p \<and> unreg_item d r e \<in> X))"

section \<open>Lemmas on the nested maps\<close>

definition nget :: "'m nested \<Rightarrow> route_hash \<Rightarrow> Endpoint \<Rightarrow> 'm option" where
  "nget m rh c = (case go_get m rh of None \<Rightarrow> None | Some es \<Rightarrow> go_get es c)"

definition nwf :: "'m nested \<Rightarrow> bool" where
  "nwf m = (go_wf m \<and> (\<forall>rh es. go_get m rh = Some es \<longrightarrow> go_wf es))"

lemma nwf_Nil [simp]: "nwf []"
  by (simp add: nwf_def)

lemma nget_Nil [simp]: "nget [] rh c = None"
  by (simp add: nget_def)

lemma nwf_record_once [simp]: "nwf m \<Longrightarrow> nwf (record_once rh c x m)"
  by (auto simp: nwf_def record_once_def split: option.splits)

lemma nget_record_once:
  "nget (record_once rh c x m) rh' c' =
     (if rh' = rh \<and> c' = c \<and> nget m rh c = None then Some x else nget m rh' c')"
  by (auto simp: nget_def record_once_def split: option.splits)

lemma nested_items_iff:
  assumes "nwf m"
  shows "(c, x) \<in> set (nested_items m) \<longleftrightarrow> (\<exists>rh. nget m rh c = Some x)"
proof -
  have "(c, x) \<in> set (nested_items m) \<longleftrightarrow> (\<exists>rh es. (rh, es) \<in> set m \<and> (c, x) \<in> set es)"
    by (force simp: nested_items_def)
  also have "\<dots> \<longleftrightarrow> (\<exists>rh es. go_get m rh = Some es \<and> go_get es c = Some x)"
    using assms by (metis gm.items_get nwf_def)
  also have "\<dots> \<longleftrightarrow> (\<exists>rh. nget m rh c = Some x)"
    by (auto simp: nget_def split: option.splits)
  finally show ?thesis .
qed

text \<open>All four loops record once per pair of a list; the flat loop has the same effect.\<close>

definition record_list :: "('x \<Rightarrow> 'm) \<Rightarrow> ('x \<Rightarrow> route_hash) \<Rightarrow> ('x \<Rightarrow> Endpoint) \<Rightarrow> 'x list \<Rightarrow> 'm nested \<Rightarrow> 'm nested" where
  "record_list meta rh cont xs m = fold (\<lambda>x m. record_once (rh x) (cont x) (meta x) m) xs m"

lemma nwf_record_list [simp]: "nwf m \<Longrightarrow> nwf (record_list meta rh cont xs m)"
  unfolding record_list_def by (induction xs arbitrary: m) auto

lemma nget_record_list_dom:
  "nget (record_list meta rh cont xs m) h c \<noteq> None \<longleftrightarrow>
     nget m h c \<noteq> None \<or> (\<exists>x \<in> set xs. rh x = h \<and> cont x = c)"
  unfolding record_list_def
  by (induction xs arbitrary: m) (auto simp: nget_record_once split: if_splits)

lemma nget_record_list_old:
  "nget m h c = Some y \<Longrightarrow> nget (record_list meta rh cont xs m) h c = Some y"
  unfolding record_list_def
proof (induction xs arbitrary: m)
  case Nil
  then show ?case by simp
next
  case (Cons x xs)
  from Cons.prems have "nget (record_once (rh x) (cont x) (meta x) m) h c = Some y"
    by (auto simp: nget_record_once)
  from Cons.IH [OF this] show ?case by simp
qed

lemma nget_record_list_Some:
  "nget (record_list meta rh cont xs m) h c = Some y \<Longrightarrow>
     nget m h c = Some y \<or> nget m h c = None \<and> (\<exists>x \<in> set xs. rh x = h \<and> cont x = c \<and> meta x = y)"
  unfolding record_list_def
proof (induction xs arbitrary: m)
  case Nil
  then show ?case by simp
next
  case (Cons x xs)
  from Cons.IH [of "record_once (rh x) (cont x) (meta x) m"] Cons.prems show ?case
    by (auto simp: nget_record_once split: if_splits)
qed

lemma fold_fold_product:
  "fold (\<lambda>a m. fold (\<lambda>b m. f a b m) ys m) xs m = fold (\<lambda>(a, b) m. f a b m) (List.product xs ys) m"
proof (induction xs arbitrary: m)
  case Nil
  then show ?case by simp
next
  case (Cons a xs)
  have "fold (\<lambda>(a, b) m. f a b m) (map (Pair a) ys) m = fold (\<lambda>b m. f a b m) ys m" for m
    by (induction ys arbitrary: m) auto
  with Cons.IH show ?case by simp
qed

lemma unregistrations_for_flat:
  "unregistrations_for rd ed =
     record_list (\<lambda>(c, r). \<lparr>umd_route = r\<rparr>) (\<lambda>(c, r). Hash r) fst
       (List.product (go_values (ed_removed ed)) (rd_before rd))
       (record_list (\<lambda>(r, c). \<lparr>umd_route = r\<rparr>) (\<lambda>(r, c). Hash r) snd
         (List.product (rd_removed rd) (go_values (ed_before ed))) [])"
  unfolding unregistrations_for_def record_list_def fold_fold_product
  by (intro arg_cong2 [where f = "\<lambda>f m. fold f _ m"] arg_cong2 [where f = "\<lambda>f m. fold f _ m"])
    (auto simp: fun_eq_iff)

lemma registrations_for_flat:
  "registrations_for rd ed =
     record_list (\<lambda>(c, r). \<lparr>rmd_emitEndpointUpdatedAt = True, rmd_route = r\<rparr>) (\<lambda>(c, r). Hash r) fst
       (List.product (go_values (ed_added ed)) (rd_after rd))
       (record_list (\<lambda>(r, c). \<lparr>rmd_emitEndpointUpdatedAt = False, rmd_route = r\<rparr>) (\<lambda>(r, c). Hash r) snd
         (List.product (rd_added rd) (go_values (ed_after ed))) [])"
  unfolding registrations_for_def record_list_def fold_fold_product
  by (intro arg_cong2 [where f = "\<lambda>f m. fold f _ m"] arg_cong2 [where f = "\<lambda>f m. fold f _ m"])
    (auto simp: fun_eq_iff)

section \<open>Lemmas on the route diff\<close>

lemma diffRoutes_sel [simp]:
  "rd_before (diffRoutes b a) = b" "rd_after (diffRoutes b a) = a"
  by (simp_all add: diffRoutes_def Let_def)

lemma routes_missing_in_collect:
  "set (routes_missing_in (go_collect Hash (\<lambda>r. r) xs []) (go_collect Hash (\<lambda>r. r) ys [])) \<subseteq> set xs"
  "Hash ` set (routes_missing_in (go_collect Hash (\<lambda>r. r) xs []) (go_collect Hash (\<lambda>r. r) ys []))
     = Hash ` set xs - Hash ` set ys"
proof -
  let ?m = "go_collect Hash (\<lambda>r. r) xs []" and ?o = "go_collect Hash (\<lambda>r. r) ys []"
  have item: "(h, r) \<in> set ?m \<longleftrightarrow> go_get ?m h = Some r" for h r
    by (simp add: gm.items_get)
  have missing: "r \<in> set (routes_missing_in ?m ?o) \<longleftrightarrow> (\<exists>h. go_get ?m h = Some r \<and> h \<notin> Hash ` set ys)" for r
    unfolding routes_missing_in_def by (force simp: item go_collect_None)
  have hash: "go_get ?m h = Some r \<Longrightarrow> r \<in> set xs \<and> Hash r = h" for h r
    using go_collect_SomeD by fastforce
  from missing hash show "set (routes_missing_in ?m ?o) \<subseteq> set xs" by blast
  have stored: "h \<in> Hash ` set xs \<Longrightarrow> \<exists>r. go_get ?m h = Some r" for h
    using go_collect_None [of Hash "\<lambda>r. r" xs "[]" h] by auto
  show "Hash ` set (routes_missing_in ?m ?o) = Hash ` set xs - Hash ` set ys"
  proof (intro equalityI subsetI)
    fix h
    assume "h \<in> Hash ` set (routes_missing_in ?m ?o)"
    then obtain r h' where "go_get ?m h' = Some r" "h' \<notin> Hash ` set ys" "h = Hash r"
      using missing by blast
    with hash [of h' r] show "h \<in> Hash ` set xs - Hash ` set ys" by auto
  next
    fix h
    assume h: "h \<in> Hash ` set xs - Hash ` set ys"
    then obtain r where r: "go_get ?m h = Some r" using stored by blast
    with h missing have "r \<in> set (routes_missing_in ?m ?o)" by blast
    with hash [OF r] show "h \<in> Hash ` set (routes_missing_in ?m ?o)" by auto
  qed
qed

lemma diffRoutes_removed:
  "set (rd_removed (diffRoutes b a)) \<subseteq> set b"
  "Hash ` set (rd_removed (diffRoutes b a)) = Hash ` set b - Hash ` set a"
  by (simp_all add: diffRoutes_def Let_def routes_missing_in_collect)

lemma diffRoutes_added:
  "set (rd_added (diffRoutes b a)) \<subseteq> set a"
  "Hash ` set (rd_added (diffRoutes b a)) = Hash ` set a - Hash ` set b"
  by (simp_all add: diffRoutes_def Let_def routes_missing_in_collect)

section \<open>Lemmas on the endpoint diff\<close>

lemma endpointDifferent_iff: "endpointDifferent a b \<longleftrightarrow> endpoint_sig a \<noteq> endpoint_sig b"
  by (cases a; cases b) (auto simp: endpointDifferent_def endpoint_sig_def)

lemma diffEndpoints_sel [simp]:
  "ed_before (diffEndpoints b a) = b" "ed_after (diffEndpoints b a) = a"
  by (simp_all add: diffEndpoints_def)

lemma flip_evacuating_guid [simp]: "ek_InstanceGUID (flip_evacuating k) = ek_InstanceGUID k"
  by (simp add: flip_evacuating_def)

lemma same_guid_key: "ek_InstanceGUID k = ek_InstanceGUID k' \<Longrightarrow> k' = k \<or> k' = flip_evacuating k"
  by (cases k; cases k') (auto simp: flip_evacuating_def)

text \<open>Whether the diff loop writes an endpoint, and under which key.\<close>

definition diff_key :: "(EndpointKey, Endpoint) gomap \<Rightarrow> EndpointKey \<Rightarrow> EndpointKey" where
  "diff_key others key = (if go_get others key = None then flip_evacuating key else key)"

definition diff_wanted :: "(EndpointKey, Endpoint) gomap \<Rightarrow> EndpointKey \<Rightarrow> Endpoint \<Rightarrow> bool" where
  "diff_wanted others key endpoint =
     (case go_get others (diff_key others key) of None \<Rightarrow> True | Some found \<Rightarrow> endpoint_sig found \<noteq> endpoint_sig endpoint)"

definition diff_loop :: "(EndpointKey, Endpoint) gomap \<Rightarrow> (EndpointKey, Endpoint) gomap \<Rightarrow>
    (EndpointKey, Endpoint) gomap \<Rightarrow> (EndpointKey, Endpoint) gomap" where
  "diff_loop others these acc =
     fold (\<lambda>(key, endpoint) acc. if diff_wanted others key endpoint
        then go_put acc (diff_key others key) endpoint else acc) these acc"

lemma diffEndpoints_loops:
  "ed_removed (diffEndpoints b a) = diff_loop a b []"
  "ed_added (diffEndpoints b a) = diff_loop b a []"
proof -
  have step: "diff_endpoint_step d others = (\<lambda>(key, endpoint) acc. if diff_wanted others key endpoint
        then go_put acc (diff_key others key) endpoint else acc)"
    if "\<And>found e. d found e \<longleftrightarrow> endpoint_sig found \<noteq> endpoint_sig e" for d others
    by (auto simp: fun_eq_iff diff_endpoint_step_def diff_wanted_def diff_key_def Let_def that
        split: option.splits)
  show "ed_removed (diffEndpoints b a) = diff_loop a b []"
    "ed_added (diffEndpoints b a) = diff_loop b a []"
    by (simp_all add: diffEndpoints_def diff_loop_def step endpointDifferent_iff eq_commute)
qed

lemma go_wf_diff_loop [simp]: "go_wf acc \<Longrightarrow> go_wf (diff_loop others these acc)"
  unfolding diff_loop_def by (induction these arbitrary: acc) auto

lemma diff_loop_sound:
  "go_get (diff_loop others these acc) k = Some e \<Longrightarrow>
     go_get acc k = Some e \<or> (\<exists>k0. (k0, e) \<in> set these \<and> diff_wanted others k0 e)"
  unfolding diff_loop_def
proof (induction these arbitrary: acc)
  case Nil
  then show ?case by simp
next
  case (Cons p these)
  obtain k0 e0 where p: "p = (k0, e0)" by (cases p)
  let ?acc = "if diff_wanted others k0 e0 then go_put acc (diff_key others k0) e0 else acc"
  from Cons.IH [of ?acc] Cons.prems show ?case
    by (auto simp: p split: if_splits)
qed

text \<open>A wanted endpoint can be overwritten, but only by one of the same instance.\<close>

lemma diff_loop_complete:
  assumes "(k0, e0) \<in> set these" "diff_wanted others k0 e0"
    and keyed: "\<And>k e. (k, e) \<in> set these \<Longrightarrow> endpoint_key e = k"
  shows "\<exists>k e. go_get (diff_loop others these acc) k = Some e \<and> ep_InstanceGUID e = ep_InstanceGUID e0"
proof -
  have kept: "\<exists>e. go_get (diff_loop others xs m) k = Some e \<and> ep_InstanceGUID e = g"
    if "\<And>k e. (k, e) \<in> set xs \<Longrightarrow> endpoint_key e = k" "go_get m k = Some e" "ep_InstanceGUID e = g"
      "ek_InstanceGUID k = g" for xs m k e g
    using that
  proof (induction xs arbitrary: m e)
    case Nil
    then show ?case by (simp add: diff_loop_def)
  next
    case (Cons p xs)
    obtain k1 e1 where p: "p = (k1, e1)" by (cases p)
    let ?m = "if diff_wanted others k1 e1 then go_put m (diff_key others k1) e1 else m"
    have g1: "ep_InstanceGUID e1 = ek_InstanceGUID (diff_key others k1)"
      using Cons.prems(1) [of k1 e1] by (auto simp: p endpoint_key_def diff_key_def)
    have "\<exists>e. go_get ?m k = Some e \<and> ep_InstanceGUID e = g"
      using Cons.prems(2-4) g1 by auto
    then obtain e2 where e2: "go_get ?m k = Some e2" "ep_InstanceGUID e2 = g" by blast
    have "\<exists>e. go_get (diff_loop others xs ?m) k = Some e \<and> ep_InstanceGUID e = g"
    proof (rule Cons.IH)
      show "go_get ?m k = Some e2" "ep_InstanceGUID e2 = g" "ek_InstanceGUID k = g"
        by (fact e2 Cons.prems(4))+
      show "endpoint_key e = k" if "(k, e) \<in> set xs" for k e
        using Cons.prems(1) that by simp
    qed
    then show ?case by (simp add: p diff_loop_def)
  qed
  obtain xs ys where these: "these = xs @ (k0, e0) # ys" using assms(1) by (meson split_list)
  let ?m = "go_put (diff_loop others xs acc) (diff_key others k0) e0"
  have "diff_loop others these acc = diff_loop others ys ?m"
    using assms(2) by (simp add: these diff_loop_def)
  moreover have "ek_InstanceGUID (diff_key others k0) = ep_InstanceGUID e0"
    using keyed [of k0 e0] by (auto simp: these diff_key_def endpoint_key_def)
  then have "\<exists>e. go_get (diff_loop others ys ?m) (diff_key others k0) = Some e \<and> ep_InstanceGUID e = ep_InstanceGUID e0"
    by (intro kept [where e = e0]) (auto simp: keyed these)
  ultimately show ?thesis by auto
qed

section \<open>The diff is exact\<close>

lemma same_instance_agreesD:
  "same_instance_agrees es \<Longrightarrow> e \<in> es \<Longrightarrow> e' \<in> es \<Longrightarrow> ep_InstanceGUID e = ep_InstanceGUID e' \<Longrightarrow>
     endpoint_sig e = endpoint_sig e'"
  unfolding same_instance_agrees_def by blast

lemma same_instance_agrees_mono: "same_instance_agrees es \<Longrightarrow> es' \<subseteq> es \<Longrightarrow> same_instance_agrees es'"
  unfolding same_instance_agrees_def by blast

lemma entry_endpoints_ran: "wf_entry en \<Longrightarrow> entry_endpoints en = ran (go_get (re_Endpoints en))"
  by (simp add: entry_endpoints_def go_values_ran wf_entryD)

lemma diff_wanted_iff:
  assumes "wf_entry en" "same_instance_agrees (entry_endpoints en)" "endpoint_key e = k"
  shows "diff_wanted (re_Endpoints en) k e \<longleftrightarrow> endpoint_sig e \<notin> endpoint_sig ` entry_endpoints en"
proof -
  let ?m = "re_Endpoints en"
  have ran: "go_get ?m k' = Some e' \<Longrightarrow> e' \<in> entry_endpoints en" for k' e'
    using assms(1) by (auto simp: entry_endpoints_ran ran_def)
  have found: "\<exists>e''. go_get ?m (diff_key ?m k) = Some e'' \<and> endpoint_sig e'' = endpoint_sig e"
    if e': "e' \<in> entry_endpoints en" "endpoint_sig e' = endpoint_sig e" for e'
  proof -
    obtain k' where k': "go_get ?m k' = Some e'"
      using e'(1) assms(1) by (auto simp: entry_endpoints_ran ran_def)
    then have "endpoint_key e' = k'" using assms(1) by (rule wf_entryD(2) [rotated])
    then have "ek_InstanceGUID k = ek_InstanceGUID k'"
      using assms(3) endpoint_sig_guid [OF e'(2)] by (auto simp: endpoint_key_def)
    then have "k' = k \<or> k' = flip_evacuating k" by (rule same_guid_key)
    then obtain e'' where e'': "go_get ?m (diff_key ?m k) = Some e''"
      using k' by (cases "go_get ?m k") (auto simp: diff_key_def)
    then have "ep_InstanceGUID e'' = ep_InstanceGUID e'"
      using assms(1,3) wf_entryD(2) [OF assms(1) e''] endpoint_sig_guid [OF e'(2)]
      by (auto simp: endpoint_key_def diff_key_def flip_evacuating_def split: if_splits)
    then have "endpoint_sig e'' = endpoint_sig e'"
      using assms(2) ran [OF e''] e'(1) by (blast intro: same_instance_agreesD)
    with e'' e'(2) show ?thesis by simp
  qed
  show ?thesis
  proof
    assume "diff_wanted ?m k e"
    then show "endpoint_sig e \<notin> endpoint_sig ` entry_endpoints en"
      using found by (fastforce simp: diff_wanted_def)
  next
    assume no: "endpoint_sig e \<notin> endpoint_sig ` entry_endpoints en"
    show "diff_wanted ?m k e"
    proof (cases "go_get ?m (diff_key ?m k)")
      case None
      then show ?thesis by (simp add: diff_wanted_def)
    next
      case (Some f)
      then have "endpoint_sig f \<noteq> endpoint_sig e" using no ran by (metis imageI)
      with Some show ?thesis by (simp add: diff_wanted_def)
    qed
  qed
qed

lemma diff_loop_exact:
  assumes these: "wf_entry a" "same_instance_agrees (entry_endpoints a)"
    and others: "wf_entry b" "same_instance_agrees (entry_endpoints b)"
  defines "D \<equiv> set (go_values (diff_loop (re_Endpoints b) (re_Endpoints a) []))"
  shows "D \<subseteq> entry_endpoints a"
    and "endpoint_sig ` D = endpoint_sig ` entry_endpoints a - endpoint_sig ` entry_endpoints b"
proof -
  let ?L = "diff_loop (re_Endpoints b) (re_Endpoints a) []"
  have D: "D = ran (go_get ?L)" by (simp add: D_def go_values_ran)
  have item: "(k, e) \<in> set (re_Endpoints a) \<Longrightarrow> e \<in> entry_endpoints a \<and> endpoint_key e = k" for k e
    using these(1) by (auto simp: entry_endpoints_def go_values_def wf_entry_def list_all_iff rev_image_eqI)
  have sound: "e \<in> entry_endpoints a \<and> endpoint_sig e \<notin> endpoint_sig ` entry_endpoints b" if "e \<in> D" for e
  proof -
    from that obtain k where "go_get ?L k = Some e" by (auto simp: D ran_def)
    from diff_loop_sound [OF this] obtain k0
      where "(k0, e) \<in> set (re_Endpoints a)" "diff_wanted (re_Endpoints b) k0 e" by auto
    with item diff_wanted_iff [OF others] show ?thesis by blast
  qed
  show "D \<subseteq> entry_endpoints a" using sound by blast
  show "endpoint_sig ` D = endpoint_sig ` entry_endpoints a - endpoint_sig ` entry_endpoints b"
  proof (intro equalityI subsetI)
    fix s
    assume "s \<in> endpoint_sig ` D"
    then obtain e where "e \<in> D" "s = endpoint_sig e" by blast
    with sound [of e] show "s \<in> endpoint_sig ` entry_endpoints a - endpoint_sig ` entry_endpoints b"
      by auto
  next
    fix s
    assume s: "s \<in> endpoint_sig ` entry_endpoints a - endpoint_sig ` entry_endpoints b"
    then obtain e where e: "e \<in> entry_endpoints a" "s = endpoint_sig e" by blast
    then obtain k where k: "(k, e) \<in> set (re_Endpoints a)"
      by (auto simp: entry_endpoints_def go_values_def)
    have "diff_wanted (re_Endpoints b) k e"
      using s e item [OF k] diff_wanted_iff [OF others, of e k] by simp
    from diff_loop_complete [OF k this, of "[]"] item
    obtain k' e' where "go_get ?L k' = Some e'" "ep_InstanceGUID e' = ep_InstanceGUID e"
      by blast
    then have "e' \<in> D" by (auto simp: D ran_def)
    with sound [of e'] e these(2) \<open>ep_InstanceGUID e' = ep_InstanceGUID e\<close> have "endpoint_sig e' = s"
      by (auto intro: same_instance_agreesD)
    with \<open>e' \<in> D\<close> show "s \<in> endpoint_sig ` D" by blast
  qed
qed

lemma registration_parts:
  fixes L :: "(Endpoint \<times> registrationMetadata) list" and d :: bool
  defines "ms \<equiv> map (\<lambda>(e, m). MessageFor (rmd_route m) e d (rmd_emitEndpointUpdatedAt m)) L"
  shows "Register ` set (List.map_filter (\<lambda>(msg, mapping, internalMsg). msg) ms) \<union>
    InternalRegister ` set (List.map_filter (\<lambda>(msg, mapping, internalMsg). internalMsg) ms) \<union>
    UpsertTcp ` set (List.map_filter (\<lambda>(msg, mapping, internalMsg). mapping) ms) =
    (\<lambda>(e, m). reg_item d (rmd_route m) e (rmd_emitEndpointUpdatedAt m)) ` set L"
  unfolding ms_def
proof (induction L)
  case Nil
  then show ?case by (simp add: List.map_filter_simps)
next
  case (Cons p L)
  obtain e m where p: "p = (e, m)" by (cases p)
  show ?case unfolding p using Cons.IH
    by (cases "rmd_route m") (auto simp: List.map_filter_simps)
qed

lemma unregistration_parts:
  fixes L :: "(Endpoint \<times> unregistrationMetadata) list" and d :: bool
  defines "ms \<equiv> map (\<lambda>(e, m). MessageFor (umd_route m) e d False) L"
  shows "Unregister ` set (List.map_filter (\<lambda>(msg, mapping, internalMsg). msg) ms) \<union>
    InternalUnregister ` set (List.map_filter (\<lambda>(msg, mapping, internalMsg). internalMsg) ms) \<union>
    DeleteTcp ` set (List.map_filter (\<lambda>(msg, mapping, internalMsg). mapping) ms) =
    (\<lambda>(e, m). unreg_item d (umd_route m) e) ` set L"
  unfolding ms_def
proof (induction L)
  case Nil
  then show ?case by (simp add: List.map_filter_simps)
next
  case (Cons p L)
  obtain e m where p: "p = (e, m)" by (cases p)
  show ?case unfolding p using Cons.IH
    by (cases "umd_route m") (auto simp: List.map_filter_simps)
qed

lemma emitted_set_messages:
  "messages d rd ed = (mappings, msgs) \<Longrightarrow> emitted_set mappings msgs =
     (\<lambda>(e, m). reg_item d (rmd_route m) e (rmd_emitEndpointUpdatedAt m)) ` set (nested_items (registrations_for rd ed)) \<union>
     (\<lambda>(e, m). unreg_item d (umd_route m) e) ` set (nested_items (unregistrations_for rd ed))"
  unfolding registration_parts [symmetric] unregistration_parts [symmetric]
  by (auto simp: messages_def Let_def emitted_set_def)

lemma registrations_for_items:
  fixes a b :: "routeMapping list"
  assumes D: "set (go_values (ed_added ed)) \<subseteq> set (go_values (ed_after ed))"
  defines "items \<equiv> set (nested_items (registrations_for (diffRoutes b a) ed))"
  shows "(e, m) \<in> items \<Longrightarrow> rmd_route m \<in> set a \<and> e \<in> set (go_values (ed_after ed)) \<and>
      rmd_emitEndpointUpdatedAt m = (Hash (rmd_route m) \<in> Hash ` set b) \<and>
      (Hash (rmd_route m) \<in> Hash ` set b \<longrightarrow> e \<in> set (go_values (ed_added ed)))"
    and "h \<in> Hash ` set a \<Longrightarrow> h \<notin> Hash ` set b \<and> e \<in> set (go_values (ed_after ed)) \<or> e \<in> set (go_values (ed_added ed)) \<Longrightarrow>
      \<exists>m. (e, m) \<in> items \<and> Hash (rmd_route m) = h"
proof -
  let ?first = "record_list (\<lambda>(r, c). \<lparr>rmd_emitEndpointUpdatedAt = False, rmd_route = r\<rparr>) (\<lambda>(r, c). Hash r) snd
         (List.product (rd_added (diffRoutes b a)) (go_values (ed_after ed))) []"
  let ?regs = "registrations_for (diffRoutes b a) ed"
  have items: "(e, m) \<in> items \<longleftrightarrow> (\<exists>rh. nget ?regs rh e = Some m)" for e m
    unfolding items_def by (rule nested_items_iff) (simp add: registrations_for_flat)
  have first: "nget ?first h e \<noteq> None \<longleftrightarrow> h \<in> Hash ` set a - Hash ` set b \<and> e \<in> set (go_values (ed_after ed))" for h e
    unfolding nget_record_list_dom diffRoutes_added(2) [symmetric] by auto
  have first_Some: "nget ?first h e = Some m \<Longrightarrow> \<not> rmd_emitEndpointUpdatedAt m \<and> rmd_route m \<in> set a \<and> Hash (rmd_route m) = h" for h e m
    using diffRoutes_added(1) by (force dest: nget_record_list_Some)
  have regs_Some: "rmd_route m \<in> set a \<and> Hash (rmd_route m) = h \<and> e \<in> set (go_values (ed_after ed)) \<and>
      rmd_emitEndpointUpdatedAt m = (h \<in> Hash ` set b) \<and> (h \<in> Hash ` set b \<longrightarrow> e \<in> set (go_values (ed_added ed)))"
    if "nget ?regs h e = Some m" for h e m
    using nget_record_list_Some [OF that [unfolded registrations_for_flat]]
  proof (elim disjE conjE)
    assume "nget ?first h e = Some m"
    with first [of h e] first_Some [of h e m] show ?thesis by auto
  next
    assume none: "nget ?first h e = None"
      and "\<exists>x\<in>set (List.product (go_values (ed_added ed)) (rd_after (diffRoutes b a))).
        (case x of (c, r) \<Rightarrow> Hash r) = h \<and> fst x = e \<and>
        (case x of (c, r) \<Rightarrow> \<lparr>rmd_emitEndpointUpdatedAt = True, rmd_route = r\<rparr>) = m"
    then show ?thesis using D none [unfolded not_None_eq [symmetric]] first [of h e] by auto
  qed
  show "(e, m) \<in> items \<Longrightarrow> rmd_route m \<in> set a \<and> e \<in> set (go_values (ed_after ed)) \<and>
      rmd_emitEndpointUpdatedAt m = (Hash (rmd_route m) \<in> Hash ` set b) \<and>
      (Hash (rmd_route m) \<in> Hash ` set b \<longrightarrow> e \<in> set (go_values (ed_added ed)))"
    using regs_Some unfolding items by blast
  assume "h \<in> Hash ` set a"
    and "h \<notin> Hash ` set b \<and> e \<in> set (go_values (ed_after ed)) \<or> e \<in> set (go_values (ed_added ed))"
  then have "nget ?regs h e \<noteq> None"
    unfolding registrations_for_flat nget_record_list_dom [of _ _ _ _ ?first] first by auto
  then obtain m where "nget ?regs h e = Some m" by auto
  with regs_Some show "\<exists>m. (e, m) \<in> items \<and> Hash (rmd_route m) = h"
    unfolding items by blast
qed

lemma unregistrations_for_items:
  fixes a b :: "routeMapping list"
  assumes D: "set (go_values (ed_removed ed)) \<subseteq> set (go_values (ed_before ed))"
  defines "items \<equiv> set (nested_items (unregistrations_for (diffRoutes b a) ed))"
  shows "(e, m) \<in> items \<Longrightarrow> umd_route m \<in> set b \<and> e \<in> set (go_values (ed_before ed)) \<and>
      (Hash (umd_route m) \<in> Hash ` set a \<longrightarrow> e \<in> set (go_values (ed_removed ed)))"
    and "h \<in> Hash ` set b \<Longrightarrow> h \<notin> Hash ` set a \<and> e \<in> set (go_values (ed_before ed)) \<or> e \<in> set (go_values (ed_removed ed)) \<Longrightarrow>
      \<exists>m. (e, m) \<in> items \<and> Hash (umd_route m) = h"
proof -
  let ?first = "record_list (\<lambda>(r, c). \<lparr>umd_route = r\<rparr>) (\<lambda>(r, c). Hash r) snd
         (List.product (rd_removed (diffRoutes b a)) (go_values (ed_before ed))) []"
  let ?regs = "unregistrations_for (diffRoutes b a) ed"
  have items: "(e, m) \<in> items \<longleftrightarrow> (\<exists>rh. nget ?regs rh e = Some m)" for e m
    unfolding items_def by (rule nested_items_iff) (simp add: unregistrations_for_flat)
  have first: "nget ?first h e \<noteq> None \<longleftrightarrow> h \<in> Hash ` set b - Hash ` set a \<and> e \<in> set (go_values (ed_before ed))" for h e
    unfolding nget_record_list_dom diffRoutes_removed(2) [symmetric] by auto
  have first_Some: "nget ?first h e = Some m \<Longrightarrow> umd_route m \<in> set b \<and> Hash (umd_route m) = h" for h e m
    using diffRoutes_removed(1) by (force dest: nget_record_list_Some)
  have regs_Some: "umd_route m \<in> set b \<and> Hash (umd_route m) = h \<and> e \<in> set (go_values (ed_before ed)) \<and>
      (h \<in> Hash ` set a \<longrightarrow> e \<in> set (go_values (ed_removed ed)))"
    if "nget ?regs h e = Some m" for h e m
    using nget_record_list_Some [OF that [unfolded unregistrations_for_flat]]
  proof (elim disjE conjE)
    assume "nget ?first h e = Some m"
    with first [of h e] first_Some [of h e m] show ?thesis by auto
  next
    assume "\<exists>x\<in>set (List.product (go_values (ed_removed ed)) (rd_before (diffRoutes b a))).
        (case x of (c, r) \<Rightarrow> Hash r) = h \<and> fst x = e \<and> (case x of (c, r) \<Rightarrow> \<lparr>umd_route = r\<rparr>) = m"
    then show ?thesis using D by auto
  qed
  show "(e, m) \<in> items \<Longrightarrow> umd_route m \<in> set b \<and> e \<in> set (go_values (ed_before ed)) \<and>
      (Hash (umd_route m) \<in> Hash ` set a \<longrightarrow> e \<in> set (go_values (ed_removed ed)))"
    using regs_Some unfolding items by blast
  assume "h \<in> Hash ` set b"
    and "h \<notin> Hash ` set a \<and> e \<in> set (go_values (ed_before ed)) \<or> e \<in> set (go_values (ed_removed ed))"
  then have "nget ?regs h e \<noteq> None"
    unfolding unregistrations_for_flat nget_record_list_dom [of _ _ _ _ ?first] first by auto
  then obtain m where "nget ?regs h e = Some m" by auto
  with regs_Some show "\<exists>m. (e, m) \<in> items \<and> Hash (umd_route m) = h"
    unfolding items by blast
qed

lemma emitDiffMessages_parts:
  "emitDiffMessages d old new = (mappings, msgs, changed) \<Longrightarrow>
     messages d (diffRoutes (re_Routes old) (re_Routes new)) (diffEndpoints (re_Endpoints old) (re_Endpoints new))
       = (mappings, msgs)"
  by (auto simp: emitDiffMessages_def Let_def split: prod.splits)

text \<open>The pairs registered and the pairs unregistered when an entry changes.\<close>

definition registered :: "RoutableEndpoints \<Rightarrow> RoutableEndpoints \<Rightarrow> (Endpoint \<times> registrationMetadata) set" where
  "registered old new = set (nested_items (registrations_for
     (diffRoutes (re_Routes old) (re_Routes new)) (diffEndpoints (re_Endpoints old) (re_Endpoints new))))"

definition unregistered :: "RoutableEndpoints \<Rightarrow> RoutableEndpoints \<Rightarrow> (Endpoint \<times> unregistrationMetadata) set" where
  "unregistered old new = set (nested_items (unregistrations_for
     (diffRoutes (re_Routes old) (re_Routes new)) (diffEndpoints (re_Endpoints old) (re_Endpoints new))))"

lemma registered_exact:
  assumes wf: "wf_entry old" "wf_entry new"
    and agree: "same_instance_agrees (entry_endpoints old)" "same_instance_agrees (entry_endpoints new)"
  shows "(e, m) \<in> registered old new \<Longrightarrow>
      rmd_route m \<in> set (re_Routes new) \<and> e \<in> entry_endpoints new \<and>
      (Hash (rmd_route m), endpoint_sig e) \<notin> entry_view old \<and>
      rmd_emitEndpointUpdatedAt m = (Hash (rmd_route m) \<in> Hash ` set (re_Routes old))"
    and "p \<in> entry_view new - entry_view old \<Longrightarrow>
      \<exists>e m. (e, m) \<in> registered old new \<and> (Hash (rmd_route m), endpoint_sig e) = p"
proof -
  let ?ed = "diffEndpoints (re_Endpoints old) (re_Endpoints new)"
  have added: "set (go_values (ed_added ?ed)) \<subseteq> entry_endpoints new"
    "endpoint_sig ` set (go_values (ed_added ?ed)) = endpoint_sig ` entry_endpoints new - endpoint_sig ` entry_endpoints old"
    using diff_loop_exact [OF wf(2) agree(2) wf(1) agree(1)] by (simp_all add: diffEndpoints_loops)
  note regs = registrations_for_items [where ed = ?ed and b = "re_Routes old" and a = "re_Routes new",
      unfolded diffEndpoints_sel, folded entry_endpoints_def registered_def, OF added(1)]
  show "(e, m) \<in> registered old new \<Longrightarrow>
      rmd_route m \<in> set (re_Routes new) \<and> e \<in> entry_endpoints new \<and>
      (Hash (rmd_route m), endpoint_sig e) \<notin> entry_view old \<and>
      rmd_emitEndpointUpdatedAt m = (Hash (rmd_route m) \<in> Hash ` set (re_Routes old))"
    using regs(1) [of e m] added(2) by (auto simp: entry_view_def)
  assume p: "p \<in> entry_view new - entry_view old"
  obtain h s where hs: "p = (h, s)" by (cases p)
  with p have "h \<in> Hash ` set (re_Routes new)"
    and "h \<notin> Hash ` set (re_Routes old) \<and> s \<in> endpoint_sig ` entry_endpoints new \<or>
      s \<in> endpoint_sig ` set (go_values (ed_added ?ed))"
    by (auto simp: entry_view_def added(2))
  then show "\<exists>e m. (e, m) \<in> registered old new \<and> (Hash (rmd_route m), endpoint_sig e) = p"
    using regs(2) [of h] unfolding hs by blast
qed

lemma unregistered_exact:
  assumes wf: "wf_entry old" "wf_entry new"
    and agree: "same_instance_agrees (entry_endpoints old)" "same_instance_agrees (entry_endpoints new)"
  shows "(e, m) \<in> unregistered old new \<Longrightarrow>
      umd_route m \<in> set (re_Routes old) \<and> e \<in> entry_endpoints old \<and>
      (Hash (umd_route m), endpoint_sig e) \<notin> entry_view new"
    and "p \<in> entry_view old - entry_view new \<Longrightarrow>
      \<exists>e m. (e, m) \<in> unregistered old new \<and> (Hash (umd_route m), endpoint_sig e) = p"
proof -
  let ?ed = "diffEndpoints (re_Endpoints old) (re_Endpoints new)"
  have removed: "set (go_values (ed_removed ?ed)) \<subseteq> entry_endpoints old"
    "endpoint_sig ` set (go_values (ed_removed ?ed)) = endpoint_sig ` entry_endpoints old - endpoint_sig ` entry_endpoints new"
    using diff_loop_exact [OF wf(1) agree(1) wf(2) agree(2)] by (simp_all add: diffEndpoints_loops)
  note unregs = unregistrations_for_items [where ed = ?ed and b = "re_Routes old" and a = "re_Routes new",
      unfolded diffEndpoints_sel, folded entry_endpoints_def unregistered_def, OF removed(1)]
  show "(e, m) \<in> unregistered old new \<Longrightarrow>
      umd_route m \<in> set (re_Routes old) \<and> e \<in> entry_endpoints old \<and>
      (Hash (umd_route m), endpoint_sig e) \<notin> entry_view new"
    using unregs(1) [of e m] removed(2) by (auto simp: entry_view_def)
  assume p: "p \<in> entry_view old - entry_view new"
  obtain h s where hs: "p = (h, s)" by (cases p)
  with p have "h \<in> Hash ` set (re_Routes old)"
    and "h \<notin> Hash ` set (re_Routes new) \<and> s \<in> endpoint_sig ` entry_endpoints old \<or>
      s \<in> endpoint_sig ` set (go_values (ed_removed ?ed))"
    by (auto simp: entry_view_def removed(2))
  then show "\<exists>e m. (e, m) \<in> unregistered old new \<and> (Hash (umd_route m), endpoint_sig e) = p"
    using unregs(2) [of h] unfolding hs by blast
qed

lemma emitDiffMessages_exact:
  assumes wf: "wf_entry old" "wf_entry new"
    and agree: "same_instance_agrees (entry_endpoints old)" "same_instance_agrees (entry_endpoints new)"
    and emit: "emitDiffMessages d old new = (mappings, msgs, changed)"
  shows "entry_emission_exact d old new (emitted_set mappings msgs)"
proof -
  note X = emitted_set_messages [OF emitDiffMessages_parts [OF emit],
      folded registered_def unregistered_def]
  note reg = registered_exact [OF wf agree] and unreg = unregistered_exact [OF wf agree]
  show ?thesis
    unfolding entry_emission_exact_def
  proof (intro conjI ballI)
    fix x
    assume "x \<in> emitted_set mappings msgs"
    then show "(\<exists>r \<in> set (re_Routes new). \<exists>e \<in> entry_endpoints new.
            (Hash r, endpoint_sig e) \<notin> entry_view old \<and>
            x = reg_item d r e (Hash r \<in> Hash ` set (re_Routes old))) \<or>
         (\<exists>r \<in> set (re_Routes old). \<exists>e \<in> entry_endpoints old.
            (Hash r, endpoint_sig e) \<notin> entry_view new \<and> x = unreg_item d r e)"
      unfolding X using reg(1) unreg(1) by fastforce
  next
    fix p
    assume "p \<in> entry_view new - entry_view old"
    from reg(2) [OF this] obtain e m where em: "(e, m) \<in> registered old new" "(Hash (rmd_route m), endpoint_sig e) = p"
      by blast
    then have "reg_item d (rmd_route m) e (Hash (rmd_route m) \<in> Hash ` set (re_Routes old)) \<in> emitted_set mappings msgs"
      unfolding X using reg(1) [OF em(1)] by force
    then show "\<exists>r \<in> set (re_Routes new). \<exists>e \<in> entry_endpoints new.
         (Hash r, endpoint_sig e) = p \<and> reg_item d r e (Hash r \<in> Hash ` set (re_Routes old)) \<in> emitted_set mappings msgs"
      using reg(1) [OF em(1)] em(2) by blast
  next
    fix p
    assume "p \<in> entry_view old - entry_view new"
    from unreg(2) [OF this] obtain e m where em: "(e, m) \<in> unregistered old new" "(Hash (umd_route m), endpoint_sig e) = p"
      by blast
    then have "unreg_item d (umd_route m) e \<in> emitted_set mappings msgs"
      unfolding X by force
    then show "\<exists>r \<in> set (re_Routes old). \<exists>e \<in> entry_endpoints old.
         (Hash r, endpoint_sig e) = p \<and> unreg_item d r e \<in> emitted_set mappings msgs"
      using unreg(1) [OF em(1)] em(2) by blast
  qed
qed

end
