(* ===== verification/Internal_Table.thy ===== *)
theory Internal_Table
  imports Table_Diff
begin

text \<open>
  \<open>internalRoutingTable\<close> of \<open>routingtable/routingtable.go\<close>: one table of routes and endpoints with
  the operations that change it. Each operation holds the table's mutex for its whole body, so it is
  one atomic step; it returns the new table, the TCP mappings and the messages to emit, whether a
  change was detected, and for \<open>AddEndpoint\<close> the metric counters it increments. Log lines are not
  modelled.
\<close>

section \<open>State\<close>

record internalRoutingTable =
  it_endpointGenerator :: "ActualLRP \<Rightarrow> Endpoint list"
  it_routesGenerator :: "DesiredLRP option \<Rightarrow> (RoutingKey, routeMapping list) gomap"
  it_entries :: "(RoutingKey, RoutableEndpoints) gomap"
  it_addressEntries :: "(Address, EndpointKey) gomap"
  it_addressGenerator :: "Endpoint \<Rightarrow> Address"
  it_directInstanceRoute :: bool
  it_suppressAddressCollision :: bool

text \<open>\<open>table.entries[key]\<close>: the zero value for a missing key.\<close>

definition entry_at :: "internalRoutingTable \<Rightarrow> RoutingKey \<Rightarrow> RoutableEndpoints" where
  "entry_at table key = (case go_get (it_entries table) key of None \<Rightarrow> zero_entry | Some e \<Rightarrow> e)"

definition put_entry :: "internalRoutingTable \<Rightarrow> RoutingKey \<Rightarrow> RoutableEndpoints \<Rightarrow> internalRoutingTable" where
  "put_entry table key entry = table\<lparr>it_entries := go_put (it_entries table) key entry\<rparr>"

type_synonym emission = "TCPRouteMappings \<times> MessagesToEmit \<times> bool"
type_synonym 't loop_state = "'t \<times> emission"

text \<open>Merging what one key emits into the results of the loop so far.\<close>

definition merge_emission :: "emission \<Rightarrow> emission \<Rightarrow> emission" where
  "merge_emission = (\<lambda>(mappings, messagesToEmit, changeDetected) (mapping, message, changed).
     (TCPRouteMappings_Merge mappings mapping, MessagesToEmit_Merge messagesToEmit message,
      changeDetected \<or> changed))"

definition no_emission :: emission where
  "no_emission = (no_mappings, no_messages, False)"

definition deleteEntryIfEmpty :: "internalRoutingTable \<Rightarrow> RoutingKey \<Rightarrow> internalRoutingTable" where
  "deleteEntryIfEmpty table key =
     (let entry = entry_at table key in
      if length (re_Endpoints entry) = 0 \<and> length (re_Routes entry) = 0
      then table\<lparr>it_entries := go_del (it_entries table) key\<rparr> else table)"

section \<open>AddEndpoint\<close>

definition addressCollisionsCounter :: string where
  "addressCollisionsCounter = ''AddressCollisions''"

definition collision_step :: "internalRoutingTable \<Rightarrow> Endpoint \<Rightarrow>
    (Address, EndpointKey) gomap \<times> string list \<Rightarrow> (Address, EndpointKey) gomap \<times> string list" where
  "collision_step table endpoint = (\<lambda>(addressEntries, counters).
     (let address = it_addressGenerator table endpoint;
          collision = (case go_get addressEntries address of
             None \<Rightarrow> False
           | Some existingEndpointKey \<Rightarrow> ek_InstanceGUID existingEndpointKey \<noteq> ep_InstanceGUID endpoint) in
      (go_put addressEntries address (endpoint_key endpoint),
       if collision then counters @ [addressCollisionsCounter] else counters)))"

definition detect_collisions :: "internalRoutingTable \<Rightarrow> Endpoint list \<Rightarrow>
    (Address, EndpointKey) gomap \<times> string list" where
  "detect_collisions table endpoints =
     (if \<not> it_suppressAddressCollision table
      then fold (collision_step table) endpoints (it_addressEntries table, [])
      else (it_addressEntries table, []))"

definition add_endpoint_step :: "bbs_env \<Rightarrow> ActualLRP \<Rightarrow> Endpoint \<Rightarrow>
    internalRoutingTable loop_state \<Rightarrow> internalRoutingTable loop_state" where
  "add_endpoint_step E actualLRP routingEndpoint = (\<lambda>(table, results).
     (let key = \<lparr>rk_ProcessGUID = al_ProcessGuid actualLRP,
                 rk_ContainerPort = ep_ContainerPort routingEndpoint\<rparr>;
          currentEntry = entry_at table key in
      if sint (re_DesiredInstances currentEntry) > 0 \<and>
         sint (ep_Index routingEndpoint) \<ge> sint (re_DesiredInstances currentEntry)
      then (table, results)
      else if (case go_get (re_Endpoints currentEntry) (endpoint_key routingEndpoint) of
           None \<Rightarrow> False
         | Some currentEndpoint \<Rightarrow>
             \<not> SucceededBy E (ep_ModificationTag currentEndpoint) (ep_ModificationTag routingEndpoint))
      then (table, results)
      else (let newEntry = copy_entry currentEntry;
                newEntry = newEntry\<lparr>re_Endpoints :=
                  go_put (re_Endpoints newEntry) (endpoint_key routingEndpoint) routingEndpoint\<rparr> in
            (put_entry table key newEntry,
             merge_emission results
               (emitDiffMessages (it_directInstanceRoute table) currentEntry newEntry)))))"

definition Internal_AddEndpoint :: "bbs_env \<Rightarrow> internalRoutingTable \<Rightarrow> ActualLRP \<Rightarrow>
    internalRoutingTable loop_state \<times> string list" where
  "Internal_AddEndpoint E table actualLRP =
     (let endpoints = it_endpointGenerator table actualLRP;
          (addressEntries, counters) = detect_collisions table endpoints in
      (fold (add_endpoint_step E actualLRP) endpoints
         (table\<lparr>it_addressEntries := addressEntries\<rparr>, no_emission), counters))"

section \<open>RemoveEndpoint\<close>

definition remove_address_step :: "internalRoutingTable \<Rightarrow> Endpoint \<Rightarrow>
    (Address, EndpointKey) gomap \<Rightarrow> (Address, EndpointKey) gomap" where
  "remove_address_step table endpoint addressEntries =
     (let address = it_addressGenerator table endpoint in
      case go_get addressEntries address of
        Some currentEntry \<Rightarrow>
          if ek_InstanceGUID currentEntry \<noteq> ep_InstanceGUID endpoint then addressEntries
          else go_del addressEntries address
      | None \<Rightarrow> go_del addressEntries address)"

definition remove_addresses :: "internalRoutingTable \<Rightarrow> Endpoint list \<Rightarrow> (Address, EndpointKey) gomap" where
  "remove_addresses table endpoints =
     (if \<not> it_suppressAddressCollision table
      then fold (remove_address_step table) endpoints (it_addressEntries table)
      else it_addressEntries table)"

definition remove_endpoint_step :: "bbs_env \<Rightarrow> ActualLRP \<Rightarrow> Endpoint \<Rightarrow>
    internalRoutingTable loop_state \<Rightarrow> internalRoutingTable loop_state" where
  "remove_endpoint_step E actualLRP routingEndpoint = (\<lambda>(table, results).
     (let key = \<lparr>rk_ProcessGUID = al_ProcessGuid actualLRP,
                 rk_ContainerPort = ep_ContainerPort routingEndpoint\<rparr>;
          currentEntry = entry_at table key;
          endpointKey = endpoint_key routingEndpoint in
      if (case go_get (re_Endpoints currentEntry) endpointKey of
           None \<Rightarrow> True
         | Some currentEndpoint \<Rightarrow>
             \<not> TagEqual E (ep_ModificationTag currentEndpoint) (ep_ModificationTag routingEndpoint) \<and>
             \<not> SucceededBy E (ep_ModificationTag currentEndpoint) (ep_ModificationTag routingEndpoint))
      then (table, results)
      else (let newEntry = copy_entry currentEntry;
                newEntry = newEntry\<lparr>re_Endpoints := go_del (re_Endpoints newEntry) endpointKey\<rparr> in
            (deleteEntryIfEmpty (put_entry table key newEntry) key,
             merge_emission results
               (emitDiffMessages (it_directInstanceRoute table) currentEntry newEntry)))))"

definition Internal_RemoveEndpoint :: "bbs_env \<Rightarrow> internalRoutingTable \<Rightarrow> ActualLRP \<Rightarrow>
    internalRoutingTable loop_state" where
  "Internal_RemoveEndpoint E table actualLRP =
     (let endpoints = it_endpointGenerator table actualLRP in
      fold (remove_endpoint_step E actualLRP) endpoints
        (table\<lparr>it_addressEntries := remove_addresses table endpoints\<rparr>, no_emission))"

section \<open>SetRoutes and RemoveRoutes\<close>

text \<open>The test for scaling down: \<open>before != nil \<and> before.Instances > after.Instances\<close>.\<close>

definition scaling_down :: "DesiredLRP option \<Rightarrow> DesiredLRP \<Rightarrow> bool" where
  "scaling_down before after =
     (case before of None \<Rightarrow> False | Some b \<Rightarrow> sint (dl_Instances b) > sint (dl_Instances after))"

definition keep_desired :: "DesiredLRP \<Rightarrow> (EndpointKey, Endpoint) gomap \<Rightarrow> (EndpointKey, Endpoint) gomap" where
  "keep_desired after endpoints =
     go_collect fst snd (filter (\<lambda>(endpointKey, endpoint). sint (ep_Index endpoint) < sint (dl_Instances after))
       endpoints) []"

definition set_routes_step :: "bbs_env \<Rightarrow> DesiredLRP option \<Rightarrow> DesiredLRP \<Rightarrow> RoutingKey \<times> routeMapping list \<Rightarrow>
    internalRoutingTable loop_state \<Rightarrow> internalRoutingTable loop_state" where
  "set_routes_step E before after = (\<lambda>(key, routes) (table, results).
     (let currentEntry = entry_at table key in
      if \<not> SucceededBy E (re_ModificationTag currentEntry) (dl_ModificationTag after)
      then (table, results)
      else (let newEntry = (copy_entry currentEntry)\<lparr>re_Domain := dl_Domain after, re_Routes := routes,
                  re_ModificationTag := dl_ModificationTag after,
                  re_DesiredInstances := dl_Instances after\<rparr>;
                newEntry = (if scaling_down before after
                  then newEntry\<lparr>re_Endpoints := keep_desired after (re_Endpoints newEntry)\<rparr>
                  else newEntry) in
            (put_entry table key newEntry,
             merge_emission results
               (emitDiffMessages (it_directInstanceRoute table) currentEntry newEntry)))))"

definition stale_removal :: "bbs_env \<Rightarrow> DesiredLRP option \<Rightarrow> DesiredLRP option \<Rightarrow> RoutableEndpoints \<Rightarrow> bool" where
  "stale_removal E before after currentEntry =
     (case after of
        None \<Rightarrow> (let beforeTag = (case before of None \<Rightarrow> None | Some b \<Rightarrow> dl_ModificationTag b) in
           \<not> TagEqual E (re_ModificationTag currentEntry) beforeTag \<and>
           \<not> SucceededBy E (re_ModificationTag currentEntry) beforeTag)
      | Some a \<Rightarrow> \<not> SucceededBy E (re_ModificationTag currentEntry) (dl_ModificationTag a))"

definition remove_routes_step :: "bbs_env \<Rightarrow> DesiredLRP option \<Rightarrow> DesiredLRP option \<Rightarrow>
    (RoutingKey, routeMapping list) gomap \<Rightarrow> RoutingKey \<Rightarrow>
    internalRoutingTable loop_state \<Rightarrow> internalRoutingTable loop_state" where
  "remove_routes_step E before after routeEntries key = (\<lambda>(table, results).
     (if go_get routeEntries key \<noteq> None then (table, results)
      else (let currentEntry = entry_at table key in
        if stale_removal E before after currentEntry then (table, results)
        else (let newEntry = (copy_entry currentEntry)\<lparr>re_Routes := []\<rparr>;
                  newEntry = (case after of None \<Rightarrow> newEntry | Some a \<Rightarrow>
                    newEntry\<lparr>re_Domain := dl_Domain a, re_ModificationTag := dl_ModificationTag a,
                      re_DesiredInstances := dl_Instances a\<rparr>) in
              (deleteEntryIfEmpty (put_entry table key newEntry) key,
               merge_emission results
                 (emitDiffMessages (it_directInstanceRoute table) currentEntry newEntry))))))"

definition Internal_SetRoutes :: "bbs_env \<Rightarrow> internalRoutingTable \<Rightarrow> DesiredLRP option \<Rightarrow> DesiredLRP option \<Rightarrow>
    internalRoutingTable loop_state" where
  "Internal_SetRoutes E table before after =
     (let removedRouteEntries = it_routesGenerator table before;
          routeEntries = it_routesGenerator table after;
          updated = (case after of None \<Rightarrow> (table, no_emission)
            | Some a \<Rightarrow> fold (set_routes_step E before a) routeEntries (table, no_emission)) in
      fold (remove_routes_step E before after routeEntries) (go_keys removedRouteEntries) updated)"

definition Internal_RemoveRoutes :: "bbs_env \<Rightarrow> internalRoutingTable \<Rightarrow> DesiredLRP option \<Rightarrow>
    internalRoutingTable loop_state" where
  "Internal_RemoveRoutes E table desiredLRP = Internal_SetRoutes E table desiredLRP None"

section \<open>Swap\<close>

definition routeExistInNewLRP :: "routeMapping \<Rightarrow> RoutableEndpoints \<Rightarrow> bool" where
  "routeExistInNewLRP oldRoute after = list_ex (\<lambda>newRoute. Hash newRoute = Hash oldRoute) (re_Routes after)"

definition mergeUnfreshRoutes :: "RoutableEndpoints \<Rightarrow> RoutableEndpoints \<Rightarrow> DomainSet \<Rightarrow> RoutableEndpoints" where
  "mergeUnfreshRoutes before after domains =
     (let merged = (copy_entry after)\<lparr>re_Domain := re_Domain before\<rparr> in
      if \<not> domains (re_Domain before)
      then merged\<lparr>re_Routes := re_Routes merged @
             filter (\<lambda>oldRoute. \<not> routeExistInNewLRP oldRoute after) (re_Routes before)\<rparr>
      else merged)"

definition merged_routing_keys :: "internalRoutingTable \<Rightarrow> internalRoutingTable \<Rightarrow> RoutingKey list" where
  "merged_routing_keys t otherTable =
     go_keys (go_collect (\<lambda>key. key) (\<lambda>_. ()) (go_keys (it_entries t))
       (go_collect (\<lambda>key. key) (\<lambda>_. ()) (go_keys (it_entries otherTable)) []))"

definition swap_step :: "internalRoutingTable \<Rightarrow> DomainSet \<Rightarrow> RoutingKey \<Rightarrow>
    internalRoutingTable loop_state \<Rightarrow> internalRoutingTable loop_state" where
  "swap_step t domains key = (\<lambda>(otherTable, results).
     (let newEntry = entry_at otherTable key in
      case go_get (it_entries t) key of
        None \<Rightarrow> (otherTable, merge_emission results
            (emitDiffMessages (it_directInstanceRoute t) zero_entry newEntry))
      | Some existingEntry \<Rightarrow>
          (let merged = mergeUnfreshRoutes existingEntry newEntry domains in
           (deleteEntryIfEmpty (put_entry otherTable key merged) key,
            merge_emission results
              (emitDiffMessages (it_directInstanceRoute t) existingEntry merged)))))"

text \<open>
  After the loop the receiver takes over both maps of the other table, which the two tables then
  share; the caller drops the other one. The flag of the loop state is not returned.
\<close>

definition Internal_Swap :: "internalRoutingTable \<Rightarrow> internalRoutingTable \<Rightarrow> DomainSet \<Rightarrow>
    internalRoutingTable \<times> TCPRouteMappings \<times> MessagesToEmit" where
  "Internal_Swap t otherTable domains =
     (let (otherTable', mappings, messagesToEmit, _) =
        fold (swap_step t domains) (merged_routing_keys t otherTable) (otherTable, no_emission) in
      (t\<lparr>it_addressEntries := it_addressEntries otherTable, it_entries := it_entries otherTable'\<rparr>,
       mappings, messagesToEmit))"

section \<open>Reading the table\<close>

definition get_events_step :: "internalRoutingTable \<Rightarrow> RoutingKey \<times> RoutableEndpoints \<Rightarrow> emission \<Rightarrow> emission" where
  "get_events_step t = (\<lambda>(key, route) results.
     merge_emission results (emitDiffMessages (it_directInstanceRoute t) zero_entry route))"

definition Internal_GetRoutingEvents :: "internalRoutingTable \<Rightarrow> TCPRouteMappings \<times> MessagesToEmit" where
  "Internal_GetRoutingEvents t =
     (case fold (get_events_step t) (it_entries t) no_emission of
        (mappings, messagesToEmit, _) \<Rightarrow> (mappings, messagesToEmit))"

definition Internal_AssociationsCount :: "internalRoutingTable \<Rightarrow> nat" where
  "Internal_AssociationsCount t =
     fold (\<lambda>(_, entry) count. count + length (re_Routes entry) * length (re_Endpoints entry)) (it_entries t) 0"

definition Internal_TableSize :: "internalRoutingTable \<Rightarrow> nat" where
  "Internal_TableSize t = length (it_entries t)"

text \<open>\<open>None\<close> is the panic on a nil port mapping.\<close>

definition Internal_HasExternalRoutes :: "internalRoutingTable \<Rightarrow> ActualLRP \<Rightarrow> bool option" where
  "Internal_HasExternalRoutes t actualLRP =
     (case NewRoutingKeysFromActual actualLRP of
        None \<Rightarrow> None
      | Some keys \<Rightarrow> Some (list_ex (\<lambda>key. length (re_Routes (entry_at t key)) > 0) keys))"

section \<open>Invariant and specification\<close>

definition wf_table :: "internalRoutingTable \<Rightarrow> bool" where
  "wf_table t = (go_wf (it_entries t) \<and> list_all (\<lambda>(key, entry). wf_entry entry) (it_entries t))"

definition routes_wf :: "internalRoutingTable \<Rightarrow> bool" where
  "routes_wf t = ((\<forall>lrp. go_wf (it_routesGenerator t lrp)) \<and> it_routesGenerator t None = [])"

definition agrees_at :: "internalRoutingTable \<Rightarrow> RoutingKey \<Rightarrow> bool" where
  "agrees_at t key = same_instance_agrees (entry_endpoints (entry_at t key))"

text \<open>
  The emission of an operation that turns the entries \<open>old\<close> into \<open>new\<close> is exact: every item
  registers a pair that is new at some key or unregisters one that is gone, and none is missed.
\<close>

definition table_emission_exact :: "bool \<Rightarrow> internalRoutingTable \<Rightarrow> internalRoutingTable \<Rightarrow> emitted set \<Rightarrow> bool" where
  "table_emission_exact d t t' X =
     (\<exists>F. X = (\<Union>key. F key) \<and> (\<forall>key. entry_emission_exact d (entry_at t key) (entry_at t' key) (F key)))"

end
