(* ===== verification/Table_Loops.thy ===== *)
theory Table_Loops
  imports Internal_Table
begin

text \<open>
  Every operation of \<open>internalRoutingTable\<close> is a loop that visits routing keys, replaces the entry at
  each and emits the diff of the old and the new entry. The locale \<open>entry_loop\<close> states that contract;
  inside it the result of the whole loop is derived once: which entries it leaves, and that what it
  emits is exact. The loops of \<open>AddEndpoint\<close>, \<open>RemoveEndpoint\<close>, \<open>SetRoutes\<close> and \<open>Swap\<close> interpret it.
\<close>

section \<open>Entries of a table\<close>

lemma entry_at_put [simp, gomap_simps]:
  "entry_at (put_entry t k e) k' = (if k' = k then e else entry_at t k')"
  by (simp add: entry_at_def put_entry_def)

lemma entry_at_delete_if_empty:
  "entry_at (deleteEntryIfEmpty t k) k' =
     (if k' = k \<and> re_Endpoints (entry_at t k) = [] \<and> re_Routes (entry_at t k) = [] then zero_entry
      else entry_at t k')"
  by (auto simp: deleteEntryIfEmpty_def Let_def entry_at_def)

lemma table_fields [simp]:
  "it_directInstanceRoute (put_entry t k e) = it_directInstanceRoute t"
  "it_directInstanceRoute (deleteEntryIfEmpty t k) = it_directInstanceRoute t"
  "entry_at (t\<lparr>it_addressEntries := a\<rparr>) k = entry_at t k"
  "wf_table (t\<lparr>it_addressEntries := a\<rparr>) = wf_table t"
  by (simp_all add: put_entry_def deleteEntryIfEmpty_def Let_def entry_at_def wf_table_def)

lemma wf_table_get: "wf_table t \<Longrightarrow> go_get (it_entries t) k = Some e \<Longrightarrow> wf_entry e"
  by (auto simp: wf_table_def list_all_iff gm.items_get [symmetric])

lemma wf_table_entry [simp]: "wf_table t \<Longrightarrow> wf_entry (entry_at t k)"
  by (auto simp: entry_at_def dest: wf_table_get split: option.splits)

lemma wf_tableI:
  assumes "go_wf (it_entries t)" and "\<And>k e. go_get (it_entries t) k = Some e \<Longrightarrow> wf_entry e"
  shows "wf_table t"
  using assms by (auto simp: wf_table_def list_all_iff gm.items_get)

lemma wf_table_wf: "wf_table t \<Longrightarrow> go_wf (it_entries t)"
  by (simp add: wf_table_def)

lemma wf_table_put [simp]: "wf_table t \<Longrightarrow> wf_entry e \<Longrightarrow> wf_table (put_entry t k e)"
  by (rule wf_tableI) (auto simp: put_entry_def wf_table_wf dest: wf_table_get split: if_splits)

lemma wf_table_delete_if_empty [simp]: "wf_table t \<Longrightarrow> wf_table (deleteEntryIfEmpty t k)"
  by (auto simp: deleteEntryIfEmpty_def Let_def wf_table_wf intro!: wf_tableI dest: wf_table_get
      split: if_splits)

section \<open>Emissions\<close>

definition emitted_of :: "emission \<Rightarrow> emitted set" where
  "emitted_of = (\<lambda>(mappings, msgs, changed). emitted_set mappings msgs)"

lemma emitted_of_merge [simp]: "emitted_of (merge_emission a b) = emitted_of a \<union> emitted_of b"
  by (cases a; cases b) (auto simp: emitted_of_def merge_emission_def emitted_set_def)

lemma emitted_of_none [simp]: "emitted_of no_emission = {}"
  by (simp add: emitted_of_def no_emission_def emitted_set_def)

text \<open>Diff and view look at the routes and the endpoints of an entry only.\<close>

definition same_content :: "RoutableEndpoints \<Rightarrow> RoutableEndpoints \<Rightarrow> bool" where
  "same_content a b = (re_Routes a = re_Routes b \<and> re_Endpoints a = re_Endpoints b)"

lemma emitDiffMessages_content:
  "same_content a a' \<Longrightarrow> same_content b b' \<Longrightarrow> emitDiffMessages d a b = emitDiffMessages d a' b'"
  by (simp add: emitDiffMessages_def same_content_def)

lemma entry_emission_exact_content:
  "same_content a a' \<Longrightarrow> same_content b b' \<Longrightarrow> entry_emission_exact d a b X = entry_emission_exact d a' b' X"
  by (simp add: entry_emission_exact_def same_content_def entry_view_def entry_endpoints_def)

lemma same_content_delete_if_empty:
  "same_content (entry_at (deleteEntryIfEmpty t k) k) (entry_at t k)"
  by (auto simp: same_content_def entry_at_delete_if_empty)

lemma entry_emission_exact_refl: "same_content a b \<Longrightarrow> entry_emission_exact d a b {}"
  by (simp add: entry_emission_exact_def same_content_def entry_view_def entry_endpoints_def)

lemma emitDiffMessages_emitted_exact:
  assumes "wf_entry old" "wf_entry new"
    and "same_instance_agrees (entry_endpoints old)" "same_instance_agrees (entry_endpoints new)"
  shows "entry_emission_exact d old new (emitted_of (emitDiffMessages d old new))"
  using emitDiffMessages_exact [OF assms]
  by (cases "emitDiffMessages d old new") (simp add: emitted_of_def)

lemma fold_skip:
  assumes "\<And>x s. \<not> P x \<Longrightarrow> step x s = s"
  shows "fold step xs s = fold step (filter P xs) s"
  by (induction xs arbitrary: s) (auto simp: assms)

section \<open>The contract of a loop over entries\<close>

locale entry_loop =
  fixes step :: "'x \<Rightarrow> internalRoutingTable loop_state \<Rightarrow> internalRoutingTable loop_state"
    and key :: "'x \<Rightarrow> RoutingKey"
    and old :: "'x \<Rightarrow> internalRoutingTable \<Rightarrow> RoutableEndpoints"
    and succ :: "'x \<Rightarrow> internalRoutingTable \<Rightarrow> internalRoutingTable option"
    and d :: bool
    and ok :: "internalRoutingTable \<Rightarrow> bool"
  assumes step_skip: "ok t \<Longrightarrow> succ x t = None \<Longrightarrow> step x (t, res) = (t, res)"
    and skip_same: "ok t \<Longrightarrow> succ x t = None \<Longrightarrow> same_content (old x t) (entry_at t (key x))"
    and step_emit: "ok t \<Longrightarrow> succ x t = Some t' \<Longrightarrow>
          step x (t, res) = (t', merge_emission res (emitDiffMessages d (old x t) (entry_at t' (key x))))"
    and succ_ok: "ok t \<Longrightarrow> succ x t = Some t' \<Longrightarrow> ok t'"
    and succ_other: "ok t \<Longrightarrow> succ x t = Some t' \<Longrightarrow> k \<noteq> key x \<Longrightarrow> entry_at t' k = entry_at t k"
    and old_local: "entry_at t (key x) = entry_at s (key x) \<Longrightarrow> old x t = old x s"
    and succ_local: "ok t \<Longrightarrow> ok s \<Longrightarrow> entry_at t (key x) = entry_at s (key x) \<Longrightarrow>
          rel_option (\<lambda>a b. entry_at a (key x) = entry_at b (key x)) (succ x t) (succ x s)"
    and ok_wf: "ok t \<Longrightarrow> wf_entry (entry_at t k)"
    and old_wf: "ok t \<Longrightarrow> wf_entry (old x t)"
begin

text \<open>The entry and the emission one visit leaves, seen from the table before the loop.\<close>

definition outcome :: "'x \<Rightarrow> internalRoutingTable \<Rightarrow> RoutableEndpoints" where
  "outcome x t = (case succ x t of None \<Rightarrow> entry_at t (key x) | Some s \<Rightarrow> entry_at s (key x))"

definition visit_emission :: "'x \<Rightarrow> internalRoutingTable \<Rightarrow> emitted set" where
  "visit_emission x t = (case succ x t of None \<Rightarrow> {}
     | Some s \<Rightarrow> emitted_of (emitDiffMessages d (old x t) (entry_at s (key x))))"

lemma step_cases:
  assumes "ok t"
  obtains t' res' where "step x (t, res) = (t', res')" "ok t'"
    "\<And>k. k \<noteq> key x \<Longrightarrow> entry_at t' k = entry_at t k" "entry_at t' (key x) = outcome x t"
    "emitted_of res' = emitted_of res \<union> visit_emission x t"
proof (cases "succ x t")
  case None
  with assms show ?thesis
    by (intro that [of t res]) (auto simp: step_skip outcome_def visit_emission_def)
next
  case (Some s)
  with assms show ?thesis
    by (intro that [of s]) (auto simp: step_emit succ_ok succ_other outcome_def visit_emission_def)
qed

lemma visit_local:
  assumes "ok t" "ok s" "entry_at t (key x) = entry_at s (key x)"
  shows "outcome x t = outcome x s" "visit_emission x t = visit_emission x s"
  using succ_local [OF assms] old_local [OF assms(3)] assms(3)
  by (auto simp: outcome_def visit_emission_def split: option.splits)

lemma loop_ok: "ok t \<Longrightarrow> fold step xs (t, res) = (t', res') \<Longrightarrow> ok t'"
proof (induction xs arbitrary: t res)
  case Nil
  then show ?case by simp
next
  case (Cons x xs)
  from step_cases [OF Cons.prems(1), of x res] obtain s res1 where "step x (t, res) = (s, res1)" "ok s"
    by metis
  with Cons show ?case by auto
qed

theorem loop_result:
  assumes "ok t" "distinct (map key xs)" "fold step xs (t, res) = (t', res')"
  shows "ok t'" "\<And>k. k \<notin> key ` set xs \<Longrightarrow> entry_at t' k = entry_at t k"
    "\<And>x. x \<in> set xs \<Longrightarrow> entry_at t' (key x) = outcome x t"
    "emitted_of res' = emitted_of res \<union> (\<Union>x \<in> set xs. visit_emission x t)"
proof -
  have "ok t' \<and> (\<forall>k. k \<notin> key ` set xs \<longrightarrow> entry_at t' k = entry_at t k) \<and>
      (\<forall>x \<in> set xs. entry_at t' (key x) = outcome x t) \<and>
      emitted_of res' = emitted_of res \<union> (\<Union>x \<in> set xs. visit_emission x t)"
    using assms
  proof (induction xs arbitrary: t res)
    case Nil
    then show ?case by simp
  next
    case (Cons x xs)
    obtain s res1 where s: "step x (t, res) = (s, res1)" "ok s"
      "\<And>k. k \<noteq> key x \<Longrightarrow> entry_at s k = entry_at t k" "entry_at s (key x) = outcome x t"
      "emitted_of res1 = emitted_of res \<union> visit_emission x t"
      using step_cases [OF Cons.prems(1), of x res] by metis
    have other: "key y \<noteq> key x" if "y \<in> set xs" for y
      using Cons.prems(2) that by (auto simp: rev_image_eqI)
    have local: "outcome y s = outcome y t" "visit_emission y s = visit_emission y t" if "y \<in> set xs" for y
      using visit_local [OF s(2) Cons.prems(1), of y] s(3) other [OF that] by auto
    have rec: "ok t' \<and> (\<forall>k. k \<notin> key ` set xs \<longrightarrow> entry_at t' k = entry_at s k) \<and>
      (\<forall>x \<in> set xs. entry_at t' (key x) = outcome x s) \<and>
      emitted_of res' = emitted_of res1 \<union> (\<Union>x \<in> set xs. visit_emission x s)"
      using Cons.prems s(1,2) by (intro Cons.IH) auto
    have fresh: "key x \<notin> key ` set xs" using Cons.prems(2) by simp
    from rec local s(3-5) fresh show ?case by (auto simp: Un_assoc)
  qed
  then show "ok t'" "\<And>k. k \<notin> key ` set xs \<Longrightarrow> entry_at t' k = entry_at t k"
    "\<And>x. x \<in> set xs \<Longrightarrow> entry_at t' (key x) = outcome x t"
    "emitted_of res' = emitted_of res \<union> (\<Union>x \<in> set xs. visit_emission x t)"
    by blast+
qed

lemma outcome_wf: "ok t \<Longrightarrow> wf_entry (outcome x t)"
  by (auto simp: outcome_def ok_wf succ_ok split: option.splits)

lemma visit_exact:
  assumes "ok t" "same_instance_agrees (entry_endpoints (old x t))"
    and "same_instance_agrees (entry_endpoints (outcome x t))"
  shows "entry_emission_exact d (old x t) (outcome x t) (visit_emission x t)"
proof (cases "succ x t")
  case None
  then show ?thesis
    using skip_same [OF assms(1)] by (simp add: outcome_def visit_emission_def entry_emission_exact_refl)
next
  case (Some s)
  then have "outcome x t = entry_at s (key x)"
    "visit_emission x t = emitted_of (emitDiffMessages d (old x t) (outcome x t))"
    by (simp_all add: outcome_def visit_emission_def)
  then show ?thesis
    using emitDiffMessages_emitted_exact [OF old_wf [OF assms(1)] outcome_wf [OF assms(1)] assms(2,3)]
    by simp
qed

text \<open>The loop emits exactly the difference between a table \<open>t0\<close> and the table it leaves.\<close>

theorem loop_exact:
  assumes "ok t" "distinct (map key xs)" "fold step xs (t, no_emission) = (t', res')"
    and old: "\<And>x. x \<in> set xs \<Longrightarrow> old x t = entry_at t0 (key x)"
    and frame: "\<And>k. k \<notin> key ` set xs \<Longrightarrow> same_content (entry_at t0 k) (entry_at t k)"
    and agree: "\<And>k. agrees_at t0 k" "\<And>k. agrees_at t' k"
  shows "table_emission_exact d t0 t' (emitted_of res')"
proof -
  note result = loop_result [OF assms(1-3)]
  define F where "F k = (\<Union>x \<in> {x \<in> set xs. key x = k}. visit_emission x t)" for k
  have "entry_emission_exact d (entry_at t0 k) (entry_at t' k) (F k)" for k
  proof (cases "k \<in> key ` set xs")
    case True
    then obtain x where x: "x \<in> set xs" "key x = k" by blast
    with assms(2) have "{y \<in> set xs. key y = k} = {x}"
      by (auto simp: distinct_map inj_on_def)
    moreover have "entry_emission_exact d (old x t) (outcome x t) (visit_emission x t)"
      using visit_exact [OF assms(1), of x] agree [of k] old [OF x(1)] result(3) [OF x(1)] x(2)
      by (simp add: agrees_at_def)
    ultimately show ?thesis using old [OF x(1)] result(3) [OF x(1)] x(2) by (simp add: F_def)
  next
    case False
    then have "F k = {}" by (auto simp: F_def)
    with frame [OF False] result(2) [OF False] show ?thesis by (simp add: entry_emission_exact_refl)
  qed
  moreover have "emitted_of res' = (\<Union>k. F k)" by (auto simp: result(4) F_def)
  ultimately show ?thesis unfolding table_emission_exact_def by blast
qed

end

section \<open>The loops of the table\<close>

text \<open>What one visit of each loop does to the entry, as a function of the entry alone.\<close>

definition lrp_key :: "ActualLRP \<Rightarrow> Endpoint \<Rightarrow> RoutingKey" where
  "lrp_key a e = \<lparr>rk_ProcessGUID = al_ProcessGuid a, rk_ContainerPort = ep_ContainerPort e\<rparr>"

definition add_entry :: "bbs_env \<Rightarrow> Endpoint \<Rightarrow> RoutableEndpoints \<Rightarrow> RoutableEndpoints option" where
  "add_entry E e entry =
     (if sint (re_DesiredInstances entry) > 0 \<and> sint (ep_Index e) \<ge> sint (re_DesiredInstances entry) then None
      else if (case go_get (re_Endpoints entry) (endpoint_key e) of None \<Rightarrow> False
          | Some cur \<Rightarrow> \<not> SucceededBy E (ep_ModificationTag cur) (ep_ModificationTag e)) then None
      else Some (entry\<lparr>re_Endpoints := go_put (re_Endpoints entry) (endpoint_key e) e\<rparr>))"

definition remove_entry :: "bbs_env \<Rightarrow> Endpoint \<Rightarrow> RoutableEndpoints \<Rightarrow> RoutableEndpoints option" where
  "remove_entry E e entry =
     (case go_get (re_Endpoints entry) (endpoint_key e) of
        None \<Rightarrow> None
      | Some cur \<Rightarrow>
          if TagEqual E (ep_ModificationTag cur) (ep_ModificationTag e) \<or>
             SucceededBy E (ep_ModificationTag cur) (ep_ModificationTag e)
          then Some (entry\<lparr>re_Endpoints := go_del (re_Endpoints entry) (endpoint_key e)\<rparr>) else None)"

definition set_entry :: "bbs_env \<Rightarrow> DesiredLRP option \<Rightarrow> DesiredLRP \<Rightarrow> routeMapping list \<Rightarrow>
    RoutableEndpoints \<Rightarrow> RoutableEndpoints option" where
  "set_entry E before after routes entry =
     (if SucceededBy E (re_ModificationTag entry) (dl_ModificationTag after)
      then Some (entry\<lparr>re_Domain := dl_Domain after, re_Routes := routes,
             re_ModificationTag := dl_ModificationTag after, re_DesiredInstances := dl_Instances after,
             re_Endpoints := (if scaling_down before after then keep_desired after (re_Endpoints entry)
               else re_Endpoints entry)\<rparr>)
      else None)"

definition clear_entry :: "bbs_env \<Rightarrow> DesiredLRP option \<Rightarrow> DesiredLRP option \<Rightarrow>
    RoutableEndpoints \<Rightarrow> RoutableEndpoints option" where
  "clear_entry E before after entry =
     (if stale_removal E before after entry then None
      else Some (case after of None \<Rightarrow> entry\<lparr>re_Routes := []\<rparr>
        | Some a \<Rightarrow> entry\<lparr>re_Routes := [], re_Domain := dl_Domain a,
            re_ModificationTag := dl_ModificationTag a, re_DesiredInstances := dl_Instances a\<rparr>))"

text \<open>An entry without endpoints and routes is dropped: a later lookup sees the zero value.\<close>

definition drop_empty :: "RoutableEndpoints \<Rightarrow> RoutableEndpoints" where
  "drop_empty entry = (if re_Endpoints entry = [] \<and> re_Routes entry = [] then zero_entry else entry)"

text \<open>The fields no operation writes: the table with both maps emptied.\<close>

definition config :: "internalRoutingTable \<Rightarrow> internalRoutingTable" where
  "config t = t\<lparr>it_entries := [], it_addressEntries := []\<rparr>"

definition table_ok :: "internalRoutingTable \<Rightarrow> internalRoutingTable \<Rightarrow> bool" where
  "table_ok c t = (wf_table t \<and> config t = c)"

lemma config_fields [simp]:
  "config (put_entry t k en) = config t"
  "config (deleteEntryIfEmpty t k) = config t"
  "config (t\<lparr>it_addressEntries := addrs\<rparr>) = config t"
  "it_directInstanceRoute (config t) = it_directInstanceRoute t"
  by (simp_all add: config_def put_entry_def deleteEntryIfEmpty_def Let_def)

lemma config_eqD:
  "config t = config t' \<Longrightarrow> it_endpointGenerator t = it_endpointGenerator t' \<and>
     it_routesGenerator t = it_routesGenerator t' \<and> it_addressGenerator t = it_addressGenerator t' \<and>
     it_directInstanceRoute t = it_directInstanceRoute t' \<and>
     it_suppressAddressCollision t = it_suppressAddressCollision t'"
  by (cases t; cases t') (simp add: config_def)

lemma wf_add_entry: "wf_entry en \<Longrightarrow> add_entry E e en = Some en' \<Longrightarrow> wf_entry en'"
  by (auto simp: add_entry_def wf_entry_put split: if_splits)

lemma wf_remove_entry: "wf_entry en \<Longrightarrow> remove_entry E e en = Some en' \<Longrightarrow> wf_entry en'"
  by (auto simp: remove_entry_def wf_entry_del split: if_splits option.splits)

lemma keep_desired_filter:
  "go_wf eps \<Longrightarrow> keep_desired a eps = filter (\<lambda>(k, e). sint (ep_Index e) < sint (dl_Instances a)) eps"
  unfolding keep_desired_def go_copy_def [symmetric] by (simp add: go_wf_filter)

lemma wf_set_entry:
  assumes "wf_entry en" "set_entry E before after rs en = Some en'"
  shows "wf_entry en'"
proof -
  have "go_wf (re_Endpoints en)" using assms(1) by (rule wf_entryD)
  with assms show ?thesis
    by (auto simp: set_entry_def wf_entry_def keep_desired_filter list_all_iff go_wf_filter split: if_splits)
qed

lemma wf_clear_entry: "wf_entry en \<Longrightarrow> clear_entry E before after en = Some en' \<Longrightarrow> wf_entry en'"
  by (auto simp: clear_entry_def wf_entry_def split: if_splits option.splits)

lemma wf_drop_empty [simp]: "wf_entry en \<Longrightarrow> wf_entry (drop_empty en)"
  by (simp add: drop_empty_def)

lemma same_content_drop_empty [simp]: "same_content (drop_empty en) en"
  by (auto simp: drop_empty_def same_content_def)

lemma emitDiff_drop_empty: "emitDiffMessages d old (drop_empty en) = emitDiffMessages d old en"
  by (rule emitDiffMessages_content) (auto simp: same_content_def drop_empty_def)

lemma entry_at_put_delete:
  "entry_at (deleteEntryIfEmpty (put_entry t k en) k) k' = (if k' = k then drop_empty en else entry_at t k')"
  by (simp add: entry_at_delete_if_empty drop_empty_def)

text \<open>The two shapes of a visit: replace the entry, or replace it and drop it when it is empty.\<close>

definition put_visit :: "('x \<Rightarrow> RoutingKey) \<Rightarrow> ('x \<Rightarrow> RoutableEndpoints \<Rightarrow> RoutableEndpoints option) \<Rightarrow>
    'x \<Rightarrow> internalRoutingTable \<Rightarrow> internalRoutingTable option" where
  "put_visit key f x t = map_option (put_entry t (key x)) (f x (entry_at t (key x)))"

definition drop_visit :: "('x \<Rightarrow> RoutingKey) \<Rightarrow> ('x \<Rightarrow> RoutableEndpoints \<Rightarrow> RoutableEndpoints option) \<Rightarrow>
    'x \<Rightarrow> internalRoutingTable \<Rightarrow> internalRoutingTable option" where
  "drop_visit key f x t =
     map_option (\<lambda>en. deleteEntryIfEmpty (put_entry t (key x) en) (key x)) (f x (entry_at t (key x)))"

lemma same_content_refl [simp]: "same_content a a"
  by (simp add: same_content_def)

lemma add_endpoint_step_eq:
  assumes "wf_table t"
  shows "add_endpoint_step E a e (t, res) =
    (case add_entry E e (entry_at t (lrp_key a e)) of None \<Rightarrow> (t, res)
     | Some en \<Rightarrow> (put_entry t (lrp_key a e) en,
         merge_emission res (emitDiffMessages (it_directInstanceRoute t) (entry_at t (lrp_key a e)) en)))"
  using assms by (simp add: add_endpoint_step_def add_entry_def lrp_key_def Let_def split: option.splits)

lemma remove_endpoint_step_eq:
  assumes "wf_table t"
  shows "remove_endpoint_step E a e (t, res) =
    (case remove_entry E e (entry_at t (lrp_key a e)) of None \<Rightarrow> (t, res)
     | Some en \<Rightarrow> (deleteEntryIfEmpty (put_entry t (lrp_key a e) en) (lrp_key a e),
         merge_emission res (emitDiffMessages (it_directInstanceRoute t) (entry_at t (lrp_key a e)) en)))"
  using assms by (auto simp: remove_endpoint_step_def remove_entry_def lrp_key_def Let_def split: option.splits)

lemma set_routes_step_eq:
  assumes "wf_table t"
  shows "set_routes_step E before after (k, rs) (t, res) =
    (case set_entry E before after rs (entry_at t k) of None \<Rightarrow> (t, res)
     | Some en \<Rightarrow> (put_entry t k en,
         merge_emission res (emitDiffMessages (it_directInstanceRoute t) (entry_at t k) en)))"
  using assms by (simp add: set_routes_step_def set_entry_def Let_def split: option.splits)

lemma remove_routes_step_eq:
  assumes "wf_table t"
  shows "remove_routes_step E before after routeEntries k (t, res) =
    (case (if go_get routeEntries k \<noteq> None then None else clear_entry E before after (entry_at t k)) of
       None \<Rightarrow> (t, res)
     | Some en \<Rightarrow> (deleteEntryIfEmpty (put_entry t k en) k,
         merge_emission res (emitDiffMessages (it_directInstanceRoute t) (entry_at t k) en)))"
  using assms by (auto simp: remove_routes_step_def clear_entry_def Let_def split: option.splits)

lemma wf_mergeUnfreshRoutes: "wf_entry en \<Longrightarrow> wf_entry (mergeUnfreshRoutes b en doms)"
  by (auto simp: mergeUnfreshRoutes_def Let_def)

text \<open>The visits of the two loops of \<open>SetRoutes\<close>, and of the loop of \<open>Swap\<close>.\<close>

definition set_step :: "bbs_env \<Rightarrow> DesiredLRP option \<Rightarrow> DesiredLRP option \<Rightarrow> (RoutingKey, routeMapping list) gomap \<Rightarrow>
    (RoutingKey \<times> routeMapping list) + RoutingKey \<Rightarrow>
    internalRoutingTable loop_state \<Rightarrow> internalRoutingTable loop_state" where
  "set_step E before after routeEntries x =
     (case x of
        Inl p \<Rightarrow> (case after of None \<Rightarrow> (\<lambda>s. s) | Some a \<Rightarrow> set_routes_step E before a p)
      | Inr k \<Rightarrow> remove_routes_step E before after routeEntries k)"

definition set_visit_key :: "(RoutingKey \<times> routeMapping list) + RoutingKey \<Rightarrow> RoutingKey" where
  "set_visit_key x = (case x of Inl (k, rs) \<Rightarrow> k | Inr k \<Rightarrow> k)"

definition set_visit :: "bbs_env \<Rightarrow> DesiredLRP option \<Rightarrow> DesiredLRP option \<Rightarrow> (RoutingKey, routeMapping list) gomap \<Rightarrow>
    (RoutingKey \<times> routeMapping list) + RoutingKey \<Rightarrow> internalRoutingTable \<Rightarrow> internalRoutingTable option" where
  "set_visit E before after routeEntries x t =
     (case x of
        Inl (k, rs) \<Rightarrow> (case after of None \<Rightarrow> None
          | Some a \<Rightarrow> map_option (put_entry t k) (set_entry E before a rs (entry_at t k)))
      | Inr k \<Rightarrow> map_option (\<lambda>en. deleteEntryIfEmpty (put_entry t k en) k)
          (if go_get routeEntries k \<noteq> None then None else clear_entry E before after (entry_at t k)))"

definition swap_visit :: "internalRoutingTable \<Rightarrow> DomainSet \<Rightarrow> RoutingKey \<Rightarrow> internalRoutingTable \<Rightarrow>
    internalRoutingTable option" where
  "swap_visit t0 domains k other =
     (case go_get (it_entries t0) k of None \<Rightarrow> Some other
      | Some ex \<Rightarrow> Some (deleteEntryIfEmpty (put_entry other k (mergeUnfreshRoutes ex (entry_at other k) domains)) k))"

lemmas visit_defs = put_visit_def drop_visit_def table_ok_def
lemmas step_eqs = add_endpoint_step_eq remove_endpoint_step_eq set_routes_step_eq remove_routes_step_eq
lemmas visit_intros = option.rel_refl wf_table_put wf_table_delete_if_empty
lemmas visit_dests = wf_add_entry [OF wf_table_entry, rotated] wf_remove_entry [OF wf_table_entry, rotated]
  wf_set_entry [OF wf_table_entry, rotated] wf_clear_entry [OF wf_table_entry, rotated]

interpretation add_loop: entry_loop "add_endpoint_step E a" "lrp_key a" "\<lambda>e t. entry_at t (lrp_key a e)"
  "put_visit (lrp_key a) (add_entry E)" "it_directInstanceRoute c" "table_ok c" for E a c
  by unfold_locales
    (auto simp: visit_defs step_eqs option.rel_map intro!: visit_intros dest: visit_dests split: option.splits)

interpretation remove_loop: entry_loop "remove_endpoint_step E a" "lrp_key a" "\<lambda>e t. entry_at t (lrp_key a e)"
  "drop_visit (lrp_key a) (remove_entry E)" "it_directInstanceRoute c" "table_ok c" for E a c
  by unfold_locales
    (auto simp: visit_defs step_eqs option.rel_map entry_at_put_delete emitDiff_drop_empty
      intro!: visit_intros dest: visit_dests split: option.splits)

interpretation set_loop: entry_loop "set_step E before after routeEntries" set_visit_key
  "\<lambda>x t. entry_at t (set_visit_key x)" "set_visit E before after routeEntries"
  "it_directInstanceRoute c" "table_ok c"
  for E before after routeEntries c
  by unfold_locales
    (auto simp: set_step_def set_visit_def set_visit_key_def table_ok_def step_eqs option.rel_map
      entry_at_put_delete emitDiff_drop_empty
      intro!: visit_intros dest: visit_dests split: option.splits sum.splits if_splits)

interpretation swap_loop: entry_loop "swap_step t0 domains" "\<lambda>k. k" "\<lambda>k _. entry_at t0 k"
  "swap_visit t0 domains" "it_directInstanceRoute t0" "\<lambda>t. wf_table t \<and> wf_table t0" for t0 domains
proof unfold_locales
  fix t x res t'
  assume "wf_table t \<and> wf_table t0" "swap_visit t0 domains x t = Some t'"
  then show "swap_step t0 domains x (t, res) =
      (t', merge_emission res (emitDiffMessages (it_directInstanceRoute t0) (entry_at t0 x) (entry_at t' x)))"
    by (cases "go_get (it_entries t0) x")
      (auto simp: swap_step_def swap_visit_def Let_def entry_at_put_delete emitDiff_drop_empty
        entry_at_def [of t0])
qed (auto simp: swap_visit_def entry_at_put_delete wf_mergeUnfreshRoutes split: option.splits)

end
