(* ===== verification/Table_Properties.thy ===== *)
theory Table_Properties
  imports Table_Loops
begin

text \<open>
  The properties of the operations of \<open>internalRoutingTable\<close>: each keeps the invariant, changes the
  entries as specified, and emits exactly the difference it makes. They follow from the facts the
  loops get from \<open>entry_loop\<close>.
\<close>

section \<open>Agreement of the records of one instance\<close>

definition new_endpoint_agrees :: "internalRoutingTable \<Rightarrow> ActualLRP \<Rightarrow> Endpoint \<Rightarrow> bool" where
  "new_endpoint_agrees t a e =
     (case go_get (re_Endpoints (entry_at t (lrp_key a e))) (flip_evacuating (endpoint_key e)) of
        None \<Rightarrow> True | Some e' \<Rightarrow> endpoint_sig e' = endpoint_sig e)"

definition ports_distinct :: "internalRoutingTable \<Rightarrow> ActualLRP \<Rightarrow> bool" where
  "ports_distinct t a = distinct (map ep_ContainerPort (it_endpointGenerator t a))"

lemma ports_distinct_keys: "ports_distinct t a \<Longrightarrow> distinct (map (lrp_key a) (it_endpointGenerator t a))"
  unfolding ports_distinct_def
  by (induction "it_endpointGenerator t a" arbitrary: t) (auto simp: distinct_map inj_on_def lrp_key_def)

lemma agrees_at_subset:
  "agrees_at t k \<Longrightarrow> entry_endpoints (entry_at t' k) \<subseteq> entry_endpoints (entry_at t k) \<Longrightarrow> agrees_at t' k"
  unfolding agrees_at_def by (rule same_instance_agrees_mono)

lemma entry_endpoints_put:
  assumes "wf_entry en"
  shows "entry_endpoints (en\<lparr>re_Endpoints := go_put (re_Endpoints en) k e\<rparr>) =
    insert e {e'. \<exists>k'. k' \<noteq> k \<and> go_get (re_Endpoints en) k' = Some e'}"
  using wf_entryD(1) [OF assms] by (auto simp: entry_endpoints_def go_values_ran ran_def)

lemma entry_endpoints_del:
  assumes "wf_entry en"
  shows "entry_endpoints (en\<lparr>re_Endpoints := go_del (re_Endpoints en) k\<rparr>) \<subseteq> entry_endpoints en"
  using wf_entryD(1) [OF assms] by (auto simp: entry_endpoints_def go_values_ran ran_def split: if_splits)

lemma same_instance_agrees_put:
  assumes "wf_entry en" "same_instance_agrees (entry_endpoints en)"
    and "\<And>e'. go_get (re_Endpoints en) (flip_evacuating (endpoint_key e)) = Some e' \<Longrightarrow> endpoint_sig e' = endpoint_sig e"
  shows "same_instance_agrees (entry_endpoints (en\<lparr>re_Endpoints := go_put (re_Endpoints en) (endpoint_key e) e\<rparr>))"
proof -
  have other: "endpoint_sig e' = endpoint_sig e"
    if "go_get (re_Endpoints en) k' = Some e'" "k' \<noteq> endpoint_key e" "ep_InstanceGUID e' = ep_InstanceGUID e" for k' e'
  proof -
    have "endpoint_key e' = k'" using wf_entryD(2) [OF assms(1) that(1)] .
    then have "ek_InstanceGUID (endpoint_key e) = ek_InstanceGUID k'"
      using that(3) by (auto simp: endpoint_key_def)
    then have "k' = flip_evacuating (endpoint_key e)" using same_guid_key that(2) by blast
    with that(1) assms(3) show ?thesis by blast
  qed
  have old: "go_get (re_Endpoints en) k' = Some e' \<Longrightarrow> e' \<in> entry_endpoints en" for k' e'
    using assms(1) by (auto simp: entry_endpoints_ran ran_def)
  show ?thesis
    unfolding same_instance_agrees_def entry_endpoints_put [OF assms(1)]
    using other old same_instance_agreesD [OF assms(2)] by (auto; metis)
qed

section \<open>The operations as loops\<close>

lemma Internal_AddEndpoint_loop:
  assumes "wf_table t" "ports_distinct t a" "Internal_AddEndpoint E t a = ((t', res), counters)"
  shows "table_ok (config t) t'"
    and "\<And>k. k \<notin> lrp_key a ` set (it_endpointGenerator t a) \<Longrightarrow> entry_at t' k = entry_at t k"
    and "\<And>e. e \<in> set (it_endpointGenerator t a) \<Longrightarrow> entry_at t' (lrp_key a e) =
      (case add_entry E e (entry_at t (lrp_key a e)) of None \<Rightarrow> entry_at t (lrp_key a e) | Some en \<Rightarrow> en)"
    and "(\<And>k. agrees_at t k) \<Longrightarrow> (\<And>k. agrees_at t' k) \<Longrightarrow>
      table_emission_exact (it_directInstanceRoute t) t t' (emitted_of res)"
proof -
  obtain addrs where fold: "fold (add_endpoint_step E a) (it_endpointGenerator t a)
      (t\<lparr>it_addressEntries := addrs\<rparr>, no_emission) = (t', res)"
    using assms(3) by (auto simp: Internal_AddEndpoint_def Let_def split: prod.splits)
  let ?t = "t\<lparr>it_addressEntries := addrs\<rparr>"
  have ok: "table_ok (config t) ?t" using assms(1) by (simp add: table_ok_def)
  note result = add_loop.loop_result [OF ok ports_distinct_keys [OF assms(2)] fold]
  show "table_ok (config t) t'" by (rule result(1))
  show "\<And>k. k \<notin> lrp_key a ` set (it_endpointGenerator t a) \<Longrightarrow> entry_at t' k = entry_at t k"
    using result(2) by simp
  show "\<And>e. e \<in> set (it_endpointGenerator t a) \<Longrightarrow> entry_at t' (lrp_key a e) =
      (case add_entry E e (entry_at t (lrp_key a e)) of None \<Rightarrow> entry_at t (lrp_key a e) | Some en \<Rightarrow> en)"
    using result(3) by (simp add: add_loop.outcome_def put_visit_def split: option.splits)
  show "(\<And>k. agrees_at t k) \<Longrightarrow> (\<And>k. agrees_at t' k) \<Longrightarrow>
      table_emission_exact (it_directInstanceRoute t) t t' (emitted_of res)"
    using add_loop.loop_exact [OF ok ports_distinct_keys [OF assms(2)] fold, of t] by simp
qed

lemma Internal_RemoveEndpoint_loop:
  assumes "wf_table t" "ports_distinct t a" "Internal_RemoveEndpoint E t a = (t', res)"
  shows "table_ok (config t) t'"
    and "\<And>k. k \<notin> lrp_key a ` set (it_endpointGenerator t a) \<Longrightarrow> entry_at t' k = entry_at t k"
    and "\<And>e. e \<in> set (it_endpointGenerator t a) \<Longrightarrow> entry_at t' (lrp_key a e) =
      (case remove_entry E e (entry_at t (lrp_key a e)) of None \<Rightarrow> entry_at t (lrp_key a e) | Some en \<Rightarrow> drop_empty en)"
    and "(\<And>k. agrees_at t k) \<Longrightarrow> (\<And>k. agrees_at t' k) \<Longrightarrow>
      table_emission_exact (it_directInstanceRoute t) t t' (emitted_of res)"
proof -
  let ?t = "t\<lparr>it_addressEntries := remove_addresses t (it_endpointGenerator t a)\<rparr>"
  have fold: "fold (remove_endpoint_step E a) (it_endpointGenerator t a) (?t, no_emission) = (t', res)"
    using assms(3) by (simp add: Internal_RemoveEndpoint_def Let_def)
  have ok: "table_ok (config t) ?t" using assms(1) by (simp add: table_ok_def)
  note result = remove_loop.loop_result [OF ok ports_distinct_keys [OF assms(2)] fold]
  show "table_ok (config t) t'" by (rule result(1))
  show "\<And>k. k \<notin> lrp_key a ` set (it_endpointGenerator t a) \<Longrightarrow> entry_at t' k = entry_at t k"
    using result(2) by simp
  show "\<And>e. e \<in> set (it_endpointGenerator t a) \<Longrightarrow> entry_at t' (lrp_key a e) =
      (case remove_entry E e (entry_at t (lrp_key a e)) of None \<Rightarrow> entry_at t (lrp_key a e) | Some en \<Rightarrow> drop_empty en)"
    using result(3) by (simp add: remove_loop.outcome_def drop_visit_def entry_at_put_delete split: option.splits)
  show "(\<And>k. agrees_at t k) \<Longrightarrow> (\<And>k. agrees_at t' k) \<Longrightarrow>
      table_emission_exact (it_directInstanceRoute t) t t' (emitted_of res)"
    using remove_loop.loop_exact [OF ok ports_distinct_keys [OF assms(2)] fold, of t] by simp
qed

text \<open>The keys \<open>SetRoutes\<close> visits: those of the new routes, then those of the old routes alone.\<close>

definition set_visits :: "internalRoutingTable \<Rightarrow> DesiredLRP option \<Rightarrow> DesiredLRP option \<Rightarrow>
    ((RoutingKey \<times> routeMapping list) + RoutingKey) list" where
  "set_visits t before after =
     map Inl (it_routesGenerator t after) @
     map Inr (filter (\<lambda>k. go_get (it_routesGenerator t after) k = None) (go_keys (it_routesGenerator t before)))"

lemma set_visits_keys:
  "map set_visit_key (set_visits t before after) =
     go_keys (it_routesGenerator t after) @
     filter (\<lambda>k. go_get (it_routesGenerator t after) k = None) (go_keys (it_routesGenerator t before))"
  by (auto simp: set_visits_def set_visit_key_def go_keys_def comp_def split: prod.splits)

lemma set_visits_distinct:
  assumes "routes_wf t"
  shows "distinct (map set_visit_key (set_visits t before after))"
proof -
  let ?new = "it_routesGenerator t after" and ?old = "it_routesGenerator t before"
  note set_visits_keys [of t before after]
  moreover have "distinct (go_keys ?new)" "distinct (go_keys ?old)"
    using assms by (auto simp: routes_wf_def go_wf_def go_keys_def)
  moreover have "set (go_keys ?new) = dom (go_get ?new)" by (rule go_keys_dom)
  ultimately show ?thesis by auto
qed

lemma Internal_SetRoutes_fold:
  assumes "routes_wf t"
  shows "Internal_SetRoutes E t before after =
    fold (set_step E before after (it_routesGenerator t after)) (set_visits t before after) (t, no_emission)"
proof -
  let ?new = "it_routesGenerator t after"
  let ?s = "set_step E before after ?new"
  have first: "(case after of None \<Rightarrow> (t, no_emission)
      | Some a \<Rightarrow> fold (set_routes_step E before a) ?new (t, no_emission)) = fold ?s (map Inl ?new) (t, no_emission)"
    using assms by (cases after) (auto simp: routes_wf_def fold_map comp_def set_step_def)
  have second: "fold (remove_routes_step E before after ?new) ks st =
      fold ?s (map Inr (filter (\<lambda>k. go_get ?new k = None) ks)) st" for ks st
  proof -
    have "fold (remove_routes_step E before after ?new) ks st =
        fold (remove_routes_step E before after ?new) (filter (\<lambda>k. go_get ?new k = None) ks) st"
      by (rule fold_skip) (auto simp: remove_routes_step_def)
    then show ?thesis by (simp add: fold_map comp_def set_step_def)
  qed
  show ?thesis
    by (simp add: Internal_SetRoutes_def Let_def first second set_visits_def)
qed

lemma Internal_SetRoutes_loop:
  assumes "wf_table t" "routes_wf t" "Internal_SetRoutes E t before after = (t', res)"
  shows "table_ok (config t) t'"
    and "\<And>k. go_get (it_routesGenerator t after) k = None \<Longrightarrow> go_get (it_routesGenerator t before) k = None \<Longrightarrow>
      entry_at t' k = entry_at t k"
    and "\<And>a k rs. after = Some a \<Longrightarrow> go_get (it_routesGenerator t after) k = Some rs \<Longrightarrow> entry_at t' k =
      (case set_entry E before a rs (entry_at t k) of None \<Rightarrow> entry_at t k | Some en \<Rightarrow> en)"
    and "\<And>k rs. go_get (it_routesGenerator t after) k = None \<Longrightarrow> go_get (it_routesGenerator t before) k = Some rs \<Longrightarrow>
      entry_at t' k = (case clear_entry E before after (entry_at t k) of None \<Rightarrow> entry_at t k | Some en \<Rightarrow> drop_empty en)"
    and "(\<And>k. agrees_at t k) \<Longrightarrow> (\<And>k. agrees_at t' k) \<Longrightarrow>
      table_emission_exact (it_directInstanceRoute t) t t' (emitted_of res)"
proof -
  let ?new = "it_routesGenerator t after" and ?old = "it_routesGenerator t before"
  note fold = assms(3) [unfolded Internal_SetRoutes_fold [OF assms(2)]]
  have ok: "table_ok (config t) t" using assms(1) by (simp add: table_ok_def)
  note result = set_loop.loop_result [OF ok set_visits_distinct [OF assms(2)] fold]
  have new: "(k, rs) \<in> set ?new \<longleftrightarrow> go_get ?new k = Some rs" for k rs
    using assms(2) by (simp add: routes_wf_def gm.items_get)
  have keys: "set_visit_key ` set (set_visits t before after) = dom (go_get ?new) \<union> dom (go_get ?old)"
    unfolding set_map [symmetric] set_visits_keys by (auto simp: go_keys_dom)
  show "table_ok (config t) t'" by (rule result(1))
  show "go_get ?new k = None \<Longrightarrow> go_get ?old k = None \<Longrightarrow> entry_at t' k = entry_at t k" for k
    by (rule result(2)) (auto simp: keys)
  show "after = Some a \<Longrightarrow> go_get ?new k = Some rs \<Longrightarrow> entry_at t' k =
      (case set_entry E before a rs (entry_at t k) of None \<Rightarrow> entry_at t k | Some en \<Rightarrow> en)" for a k rs
    using result(3) [of "Inl (k, rs)"] new [of k rs]
    by (auto simp: set_visits_def set_visit_key_def set_loop.outcome_def set_visit_def split: option.splits)
  have old: "go_get ?new k = None \<Longrightarrow> go_get ?old k = Some rs \<Longrightarrow> Inr k \<in> set (set_visits t before after)" for k rs
    by (auto simp: set_visits_def go_keys_dom)
  show "go_get ?new k = None \<Longrightarrow> go_get ?old k = Some rs \<Longrightarrow>
      entry_at t' k = (case clear_entry E before after (entry_at t k) of None \<Rightarrow> entry_at t k | Some en \<Rightarrow> drop_empty en)" for k rs
    using result(3) [OF old, of k rs]
    by (auto simp: set_visit_key_def set_loop.outcome_def set_visit_def entry_at_put_delete split: option.splits)
  show "(\<And>k. agrees_at t k) \<Longrightarrow> (\<And>k. agrees_at t' k) \<Longrightarrow>
      table_emission_exact (it_directInstanceRoute t) t t' (emitted_of res)"
    using set_loop.loop_exact [OF ok set_visits_distinct [OF assms(2)] fold, of t] by simp
qed

lemma merged_routing_keys:
  "distinct (merged_routing_keys t otherTable)"
  "set (merged_routing_keys t otherTable) = dom (go_get (it_entries t)) \<union> dom (go_get (it_entries otherTable))"
proof -
  let ?m = "go_collect (\<lambda>key. key) (\<lambda>_. ()) (go_keys (it_entries t))
       (go_collect (\<lambda>key. key) (\<lambda>_. ()) (go_keys (it_entries otherTable)) [])"
  have "go_wf ?m" by simp
  then show "distinct (merged_routing_keys t otherTable)"
    unfolding merged_routing_keys_def go_wf_def go_keys_def .
  have "go_get ?m k = None \<longleftrightarrow> k \<notin> dom (go_get (it_entries t)) \<union> dom (go_get (it_entries otherTable))" for k
    by (auto simp: go_collect_None go_keys_dom)
  then show "set (merged_routing_keys t otherTable) = dom (go_get (it_entries t)) \<union> dom (go_get (it_entries otherTable))"
    unfolding merged_routing_keys_def go_keys_dom by (auto simp: dom_def)
qed

text \<open>The entry \<open>Swap\<close> leaves at a key.\<close>

definition swap_entry :: "internalRoutingTable \<Rightarrow> internalRoutingTable \<Rightarrow> DomainSet \<Rightarrow> RoutingKey \<Rightarrow> RoutableEndpoints" where
  "swap_entry t otherTable domains k =
     (case go_get (it_entries t) k of None \<Rightarrow> entry_at otherTable k
      | Some existing \<Rightarrow> drop_empty (mergeUnfreshRoutes existing (entry_at otherTable k) domains))"

lemma Internal_Swap_loop:
  assumes "wf_table t" "wf_table otherTable" "Internal_Swap t otherTable domains = (t', mappings, msgs)"
  shows "table_ok (config t) t'"
    and "\<And>k. entry_at t' k = swap_entry t otherTable domains k"
    and "(\<And>k. agrees_at t k) \<Longrightarrow> (\<And>k. agrees_at t' k) \<Longrightarrow>
      table_emission_exact (it_directInstanceRoute t) t t' (emitted_set mappings msgs)"
proof -
  let ?ks = "merged_routing_keys t otherTable"
  obtain o' c where fold: "fold (swap_step t domains) ?ks (otherTable, no_emission) = (o', mappings, msgs, c)"
    and t': "t' = t\<lparr>it_addressEntries := it_addressEntries otherTable, it_entries := it_entries o'\<rparr>"
    using assms(3) by (auto simp: Internal_Swap_def split: prod.splits)
  have ok: "wf_table otherTable \<and> wf_table t" using assms(1,2) by simp
  have dist: "distinct (map (\<lambda>k. k) ?ks)" by (simp add: merged_routing_keys(1))
  note result = swap_loop.loop_result [OF ok dist fold]
  have at: "entry_at t' k = entry_at o' k" for k by (simp add: t' entry_at_def)
  show "table_ok (config t) t'"
    using result(1) by (simp add: t' wf_table_def table_ok_def config_def)
  show "entry_at t' k = swap_entry t otherTable domains k" for k
  proof (cases "k \<in> set ?ks")
    case True
    then show ?thesis
      using result(3) [of k] unfolding at
      by (auto simp: swap_loop.outcome_def swap_visit_def swap_entry_def entry_at_put_delete split: option.splits)
  next
    case False
    then have "go_get (it_entries t) k = None" by (auto simp: merged_routing_keys(2))
    with False result(2) [of k] show ?thesis unfolding at by (simp add: swap_entry_def)
  qed
  assume agree: "\<And>k. agrees_at t k" "\<And>k. agrees_at t' k"
  have "table_emission_exact (it_directInstanceRoute t) t o' (emitted_of (mappings, msgs, c))"
  proof (rule swap_loop.loop_exact [OF ok dist fold])
    show "agrees_at t k" "agrees_at o' k" for k using agree by (simp_all add: agrees_at_def at)
    show "same_content (entry_at t k) (entry_at otherTable k)" if "k \<notin> (\<lambda>k. k) ` set ?ks" for k
      using that by (auto simp: merged_routing_keys(2) entry_at_def domIff)
  qed simp
  then show "table_emission_exact (it_directInstanceRoute t) t t' (emitted_set mappings msgs)"
    by (simp add: table_emission_exact_def at emitted_of_def)
qed

section \<open>Agreement is kept\<close>

lemma add_entry_agrees:
  assumes "wf_entry en" "same_instance_agrees (entry_endpoints en)" "add_entry E e en = Some en'"
    and "\<And>e'. go_get (re_Endpoints en) (flip_evacuating (endpoint_key e)) = Some e' \<Longrightarrow> endpoint_sig e' = endpoint_sig e"
  shows "same_instance_agrees (entry_endpoints en')"
proof -
  have "en' = en\<lparr>re_Endpoints := go_put (re_Endpoints en) (endpoint_key e) e\<rparr>"
    using assms(3) by (simp add: add_entry_def split: if_splits)
  with same_instance_agrees_put [OF assms(1,2,4)] show ?thesis by simp
qed

lemma AddEndpoint_agrees:
  assumes "wf_table t" "ports_distinct t a" "Internal_AddEndpoint E t a = ((t', res), counters)"
    and "\<And>k. agrees_at t k" "\<And>e. e \<in> set (it_endpointGenerator t a) \<Longrightarrow> new_endpoint_agrees t a e"
  shows "agrees_at t' k"
proof (cases "k \<in> lrp_key a ` set (it_endpointGenerator t a)")
  case True
  then obtain e where e: "e \<in> set (it_endpointGenerator t a)" "k = lrp_key a e" by blast
  have "same_instance_agrees (entry_endpoints en)" if "add_entry E e (entry_at t k) = Some en" for en
  proof (rule add_entry_agrees [OF _ _ that])
    show "wf_entry (entry_at t k)" "same_instance_agrees (entry_endpoints (entry_at t k))"
      using assms(1,4) by (simp_all add: agrees_at_def)
    show "endpoint_sig e' = endpoint_sig e"
      if "go_get (re_Endpoints (entry_at t k)) (flip_evacuating (endpoint_key e)) = Some e'" for e'
      using that assms(5) [OF e(1)] e(2) by (simp add: new_endpoint_agrees_def)
  qed
  then show ?thesis
    using Internal_AddEndpoint_loop(3) [OF assms(1-3) e(1)] e(2) assms(4) [of k]
    by (simp add: agrees_at_def split: option.splits)
next
  case False
  with Internal_AddEndpoint_loop(2) [OF assms(1-3)] assms(4) show ?thesis by (simp add: agrees_at_def)
qed

lemma entry_endpoints_drop [simp]: "entry_endpoints (drop_empty en) = entry_endpoints en"
  using same_content_drop_empty [of en] by (simp add: entry_endpoints_def same_content_def)

lemma RemoveEndpoint_agrees:
  assumes "wf_table t" "ports_distinct t a" "Internal_RemoveEndpoint E t a = (t', res)" "agrees_at t k"
  shows "agrees_at t' k"
proof (cases "k \<in> lrp_key a ` set (it_endpointGenerator t a)")
  case True
  then obtain e where e: "e \<in> set (it_endpointGenerator t a)" "k = lrp_key a e" by blast
  have "entry_endpoints (entry_at t' k) \<subseteq> entry_endpoints (entry_at t k)"
    using Internal_RemoveEndpoint_loop(3) [OF assms(1-3) e(1)] e(2) assms(1)
    by (auto simp: remove_entry_def split: option.splits if_splits dest: entry_endpoints_del [THEN subsetD, rotated])
  with assms(4) show ?thesis by (rule agrees_at_subset)
next
  case False
  with Internal_RemoveEndpoint_loop(2) [OF assms(1-3)] assms(4) show ?thesis by (simp add: agrees_at_def)
qed

lemma set_entry_endpoints:
  assumes "wf_entry en" "set_entry E before a rs en = Some en'"
  shows "entry_endpoints en' \<subseteq> entry_endpoints en"
  using assms wf_entryD(1) [OF assms(1)]
  by (auto simp: set_entry_def entry_endpoints_def go_values_def keep_desired_filter split: if_splits)

lemma clear_entry_endpoints:
  "clear_entry E before after en = Some en' \<Longrightarrow> entry_endpoints en' = entry_endpoints en"
  by (auto simp: clear_entry_def entry_endpoints_def split: if_splits option.splits)

lemma SetRoutes_agrees:
  assumes "wf_table t" "routes_wf t" "Internal_SetRoutes E t before after = (t', res)" "agrees_at t k"
  shows "agrees_at t' k"
proof -
  note result = Internal_SetRoutes_loop [OF assms(1-3)]
  have none: "go_get (it_routesGenerator t None) k = None" using assms(2) by (simp add: routes_wf_def)
  have "entry_endpoints (entry_at t' k) \<subseteq> entry_endpoints (entry_at t k)"
  proof (cases "go_get (it_routesGenerator t after) k")
    case (Some rs)
    then obtain a where "after = Some a" using none by (cases after) auto
    with result(3) [OF this Some] assms(1) show ?thesis
      by (auto dest: set_entry_endpoints [rotated, THEN subsetD] split: option.splits)
  next
    case None
    with result(2) [of k] result(4) [of k] show ?thesis
      by (cases "go_get (it_routesGenerator t before) k")
        (auto dest: clear_entry_endpoints split: option.splits)
  qed
  with assms(4) show ?thesis by (rule agrees_at_subset)
qed

lemma swap_entry_endpoints:
  "wf_table otherTable \<Longrightarrow> entry_endpoints (swap_entry t otherTable domains k) = entry_endpoints (entry_at otherTable k)"
  by (auto simp: swap_entry_def mergeUnfreshRoutes_def Let_def entry_endpoints_def [of "_\<lparr>re_Routes := _\<rparr>"]
      entry_endpoints_def [of "_\<lparr>re_Domain := _\<rparr>"] entry_endpoints_def [of "entry_at _ _"] split: option.splits)

end
