(* ===== verification/Routing_Table.thy ===== *)
theory Routing_Table
  imports Table_Properties
begin

text \<open>
  The three route generators and the composite \<open>routingTable\<close> of \<open>routingtable/routingtable.go\<close>:
  one internal table each for TCP, HTTP and internal routes, with every operation forwarded to the
  three and their results merged in the order HTTP, TCP, internal.
\<close>

section \<open>Routes and endpoints of an LRP\<close>

text \<open>\<open>routeEntries[key] = append(routeEntries[key], routes...)\<close>\<close>

definition append_routes :: "RoutingKey \<Rightarrow> routeMapping list \<Rightarrow> (RoutingKey, routeMapping list) gomap \<Rightarrow>
    (RoutingKey, routeMapping list) gomap" where
  "append_routes key routes routeEntries =
     go_put routeEntries key ((case go_get routeEntries key of None \<Rightarrow> [] | Some rs \<Rightarrow> rs) @ routes)"

definition http_route_for :: "DesiredLRP \<Rightarrow> CFRoute \<Rightarrow> string \<Rightarrow> routeMapping" where
  "http_route_for lrp route hostname = HTTPRouteM
     \<lparr>rt_Hostname = hostname, rt_RouteServiceUrl = cf_RouteServiceUrl route,
      rt_IsolationSegment = cf_IsolationSegment route, rt_LogGUID = dl_LogGuid lrp,
      rt_Protocol = cf_Protocol route, rt_MetricTags = dl_MetricTags lrp, rt_Options = cf_Options route\<rparr>"

definition httpRoutesFrom :: "bbs_env \<Rightarrow> DesiredLRP option \<Rightarrow> (RoutingKey, routeMapping list) gomap" where
  "httpRoutesFrom E lrp =
     (case lrp of None \<Rightarrow> [] | Some l \<Rightarrow>
        (case dl_Routes l of None \<Rightarrow> [] | Some info \<Rightarrow>
           fold (\<lambda>route. append_routes
               \<lparr>rk_ProcessGUID = dl_ProcessGuid l, rk_ContainerPort = cf_Port route\<rparr>
               (map (http_route_for l route) (cf_Hostnames route)))
             (fst (CFRoutesFromRoutingInfo E info)) []))"

definition tcpRoutesFrom :: "bbs_env \<Rightarrow> bool \<Rightarrow> DesiredLRP option \<Rightarrow> (RoutingKey, routeMapping list) gomap" where
  "tcpRoutesFrom E tlsEnabled lrp =
     (case lrp of None \<Rightarrow> [] | Some l \<Rightarrow>
        fold (\<lambda>route. append_routes
            \<lparr>rk_ProcessGUID = dl_ProcessGuid l, rk_ContainerPort = tcp_ContainerPort route\<rparr>
            [TCPRouteM \<lparr>eei_RouterGroupGUID = tcp_RouterGroupGuid route,
               eei_Port = tcp_ExternalPort route, eei_TLSEnabled = tlsEnabled\<rparr>])
          (fst (TCPRoutesFromRoutingInfo E (dl_Routes l))) [])"

definition internalRoutesFrom :: "bbs_env \<Rightarrow> DesiredLRP option \<Rightarrow> (RoutingKey, routeMapping list) gomap" where
  "internalRoutesFrom E lrp =
     (case lrp of None \<Rightarrow> [] | Some l \<Rightarrow>
        (case dl_Routes l of None \<Rightarrow> [] | Some info \<Rightarrow>
           fold (\<lambda>route. append_routes \<lparr>rk_ProcessGUID = dl_ProcessGuid l, rk_ContainerPort = 0\<rparr>
               [InternalRouteM \<lparr>ir_Hostname = iri_Hostname route, ir_ContainerIP = '''',
                  ir_LogGUID = dl_LogGuid l\<rparr>])
             (fst (InternalRoutesFromRoutingInfo E info)) []))"

definition internalEndpointsFromActualLRP :: "ActualLRP \<Rightarrow> Endpoint list" where
  "internalEndpointsFromActualLRP actualLRP =
     [\<lparr>ep_InstanceGUID = al_InstanceGuid actualLRP, ep_Index = al_Index actualLRP,
       ep_Host = al_Address actualLRP, ep_ContainerIP = al_InstanceAddress actualLRP,
       ep_Port = 0, ep_ContainerPort = 0, ep_TlsProxyPort = 0, ep_ContainerTlsProxyPort = 0,
       ep_Presence = al_Presence actualLRP, ep_IsolationSegment = '''',
       ep_Since = al_Since actualLRP, ep_ModificationTag = Some (al_ModificationTag actualLRP),
       ep_PreferredAddress = PreferredAddressUnknown, ep_AvailabilityZone = ''''\<rparr>]"

definition address_for :: "bool \<Rightarrow> Endpoint \<Rightarrow> Address" where
  "address_for directInstanceRoute endpoint =
     (if IsDirectInstanceRoute endpoint directInstanceRoute
      then \<lparr>addr_Host = ep_ContainerIP endpoint, addr_Port = ep_ContainerPort endpoint\<rparr>
      else \<lparr>addr_Host = ep_Host endpoint, addr_Port = ep_Port endpoint\<rparr>)"

section \<open>The composite table\<close>

record routingTable =
  tcpRoutesRoutingTable :: internalRoutingTable
  httpRoutesRoutingTable :: internalRoutingTable
  internalRoutesRoutingTable :: internalRoutingTable

definition NewRoutingTable :: "bbs_env \<Rightarrow> bool \<Rightarrow> bool \<Rightarrow> routingTable" where
  "NewRoutingTable E directInstanceRoute tcpTLSEnabled =
     \<lparr>tcpRoutesRoutingTable =
        \<lparr>it_endpointGenerator = NewEndpointsFromActual,
         it_routesGenerator = tcpRoutesFrom E tcpTLSEnabled, it_entries = [], it_addressEntries = [],
         it_addressGenerator = address_for directInstanceRoute,
         it_directInstanceRoute = directInstanceRoute, it_suppressAddressCollision = True\<rparr>,
      httpRoutesRoutingTable =
        \<lparr>it_endpointGenerator = NewEndpointsFromActual,
         it_routesGenerator = httpRoutesFrom E, it_entries = [], it_addressEntries = [],
         it_addressGenerator = address_for directInstanceRoute,
         it_directInstanceRoute = directInstanceRoute, it_suppressAddressCollision = False\<rparr>,
      internalRoutesRoutingTable =
        \<lparr>it_endpointGenerator = internalEndpointsFromActualLRP,
         it_routesGenerator = internalRoutesFrom E, it_entries = [], it_addressEntries = [],
         it_addressGenerator = address_for directInstanceRoute,
         it_directInstanceRoute = directInstanceRoute, it_suppressAddressCollision = True\<rparr>\<rparr>"

text \<open>\<open>httpMappings.Merge(tcpMappings).Merge(internalMappings)\<close>, and the same for the messages.\<close>

definition merge3 :: "TCPRouteMappings \<times> MessagesToEmit \<Rightarrow> TCPRouteMappings \<times> MessagesToEmit \<Rightarrow>
    TCPRouteMappings \<times> MessagesToEmit \<Rightarrow> TCPRouteMappings \<times> MessagesToEmit" where
  "merge3 http tcp internal =
     (TCPRouteMappings_Merge (TCPRouteMappings_Merge (fst http) (fst tcp)) (fst internal),
      MessagesToEmit_Merge (MessagesToEmit_Merge (snd http) (snd tcp)) (snd internal))"

definition AddEndpoint :: "bbs_env \<Rightarrow> routingTable \<Rightarrow> ActualLRP \<Rightarrow>
    routingTable \<times> (TCPRouteMappings \<times> MessagesToEmit) \<times> string list" where
  "AddEndpoint E table actualLRP =
     (let ((http, httpMappings, httpMessages, _), c1) =
            Internal_AddEndpoint E (httpRoutesRoutingTable table) actualLRP;
          ((tcp, tcpMappings, tcpMessages, _), c2) =
            Internal_AddEndpoint E (tcpRoutesRoutingTable table) actualLRP;
          ((internal, internalMappings, internalMessages, _), c3) =
            Internal_AddEndpoint E (internalRoutesRoutingTable table) actualLRP in
      (\<lparr>tcpRoutesRoutingTable = tcp, httpRoutesRoutingTable = http, internalRoutesRoutingTable = internal\<rparr>,
       merge3 (httpMappings, httpMessages) (tcpMappings, tcpMessages) (internalMappings, internalMessages),
       c1 @ c2 @ c3))"

definition RemoveEndpoint :: "bbs_env \<Rightarrow> routingTable \<Rightarrow> ActualLRP \<Rightarrow>
    routingTable \<times> (TCPRouteMappings \<times> MessagesToEmit)" where
  "RemoveEndpoint E table actualLRP =
     (let (http, httpMappings, httpMessages, _) =
            Internal_RemoveEndpoint E (httpRoutesRoutingTable table) actualLRP;
          (tcp, tcpMappings, tcpMessages, _) =
            Internal_RemoveEndpoint E (tcpRoutesRoutingTable table) actualLRP;
          (internal, internalMappings, internalMessages, _) =
            Internal_RemoveEndpoint E (internalRoutesRoutingTable table) actualLRP in
      (\<lparr>tcpRoutesRoutingTable = tcp, httpRoutesRoutingTable = http, internalRoutesRoutingTable = internal\<rparr>,
       merge3 (httpMappings, httpMessages) (tcpMappings, tcpMessages) (internalMappings, internalMessages)))"

text \<open>\<open>None\<close> stands for another implementation of the interface, which \<open>Swap\<close> refuses.\<close>

definition Swap :: "routingTable \<Rightarrow> routingTable option \<Rightarrow> DomainSet \<Rightarrow>
    routingTable \<times> (TCPRouteMappings \<times> MessagesToEmit)" where
  "Swap t other domains =
     (case other of
        None \<Rightarrow> (t, no_mappings, no_messages)
      | Some table \<Rightarrow>
          (let (http, httpMappings, httpMessages) =
                 Internal_Swap (httpRoutesRoutingTable t) (httpRoutesRoutingTable table) domains;
               (tcp, tcpMappings, tcpMessages) =
                 Internal_Swap (tcpRoutesRoutingTable t) (tcpRoutesRoutingTable table) domains;
               (internal, internalMappings, internalMessages) =
                 Internal_Swap (internalRoutesRoutingTable t) (internalRoutesRoutingTable table) domains in
           (\<lparr>tcpRoutesRoutingTable = tcp, httpRoutesRoutingTable = http, internalRoutesRoutingTable = internal\<rparr>,
            merge3 (httpMappings, httpMessages) (tcpMappings, tcpMessages) (internalMappings, internalMessages))))"

definition GetExternalRoutingEvents :: "routingTable \<Rightarrow> TCPRouteMappings \<times> MessagesToEmit" where
  "GetExternalRoutingEvents t =
     (let (httpMappings, httpMessages) = Internal_GetRoutingEvents (httpRoutesRoutingTable t);
          (tcpMappings, tcpMessages) = Internal_GetRoutingEvents (tcpRoutesRoutingTable t) in
      (TCPRouteMappings_Merge httpMappings tcpMappings, MessagesToEmit_Merge httpMessages tcpMessages))"

definition GetInternalRoutingEvents :: "routingTable \<Rightarrow> TCPRouteMappings \<times> MessagesToEmit" where
  "GetInternalRoutingEvents t = Internal_GetRoutingEvents (internalRoutesRoutingTable t)"

definition SetRoutes :: "bbs_env \<Rightarrow> routingTable \<Rightarrow> DesiredLRP option \<Rightarrow> DesiredLRP option \<Rightarrow>
    routingTable \<times> (TCPRouteMappings \<times> MessagesToEmit)" where
  "SetRoutes E t before after =
     (let (http, httpMappings, httpMessages, _) = Internal_SetRoutes E (httpRoutesRoutingTable t) before after;
          (tcp, tcpMappings, tcpMessages, _) = Internal_SetRoutes E (tcpRoutesRoutingTable t) before after;
          (internal, internalMappings, internalMessages, _) =
            Internal_SetRoutes E (internalRoutesRoutingTable t) before after in
      (\<lparr>tcpRoutesRoutingTable = tcp, httpRoutesRoutingTable = http, internalRoutesRoutingTable = internal\<rparr>,
       merge3 (httpMappings, httpMessages) (tcpMappings, tcpMessages) (internalMappings, internalMessages)))"

definition RemoveRoutes :: "bbs_env \<Rightarrow> routingTable \<Rightarrow> DesiredLRP option \<Rightarrow>
    routingTable \<times> (TCPRouteMappings \<times> MessagesToEmit)" where
  "RemoveRoutes E t desiredLRP =
     (let (http, httpMappings, httpMessages, _) = Internal_RemoveRoutes E (httpRoutesRoutingTable t) desiredLRP;
          (tcp, tcpMappings, tcpMessages, _) = Internal_RemoveRoutes E (tcpRoutesRoutingTable t) desiredLRP;
          (internal, internalMappings, internalMessages, _) =
            Internal_RemoveRoutes E (internalRoutesRoutingTable t) desiredLRP in
      (\<lparr>tcpRoutesRoutingTable = tcp, httpRoutesRoutingTable = http, internalRoutesRoutingTable = internal\<rparr>,
       merge3 (httpMappings, httpMessages) (tcpMappings, tcpMessages) (internalMappings, internalMessages)))"

definition HTTPAssociationsCount :: "routingTable \<Rightarrow> nat" where
  "HTTPAssociationsCount t = Internal_AssociationsCount (httpRoutesRoutingTable t)"

definition TCPAssociationsCount :: "routingTable \<Rightarrow> nat" where
  "TCPAssociationsCount t = Internal_AssociationsCount (tcpRoutesRoutingTable t)"

definition InternalAssociationsCount :: "routingTable \<Rightarrow> nat" where
  "InternalAssociationsCount t = 2 * Internal_AssociationsCount (internalRoutesRoutingTable t)"

definition TableSize :: "routingTable \<Rightarrow> nat" where
  "TableSize t = Internal_TableSize (httpRoutesRoutingTable t) + Internal_TableSize (tcpRoutesRoutingTable t) +
     Internal_TableSize (internalRoutesRoutingTable t)"

text \<open>\<open>None\<close> is a panic; the second operand of \<open>||\<close> is evaluated only when the first is false.\<close>

definition HasExternalRoutes :: "routingTable \<Rightarrow> ActualLRP \<Rightarrow> bool option" where
  "HasExternalRoutes t actualLRP =
     (case Internal_HasExternalRoutes (httpRoutesRoutingTable t) actualLRP of
        None \<Rightarrow> None
      | Some True \<Rightarrow> Some True
      | Some False \<Rightarrow> Internal_HasExternalRoutes (tcpRoutesRoutingTable t) actualLRP)"

section \<open>Lemmas on the generators\<close>

lemma go_wf_append_routes [simp]: "go_wf m \<Longrightarrow> go_wf (append_routes k rs m)"
  by (simp add: append_routes_def)

lemma go_wf_fold_append: "go_wf m \<Longrightarrow> go_wf (fold (\<lambda>x. append_routes (key x) (rs x)) xs m)"
  by (induction xs arbitrary: m) auto

lemma go_get_fold_append:
  "go_get (fold (\<lambda>x. append_routes (key x) (rs x)) xs m) k =
     (if (\<exists>x \<in> set xs. key x = k) \<or> go_get m k \<noteq> None
      then Some ((case go_get m k of None \<Rightarrow> [] | Some r \<Rightarrow> r) @ concat (map rs (filter (\<lambda>x. key x = k) xs)))
      else None)"
  by (induction xs arbitrary: m) (auto simp: append_routes_def split: option.splits)

lemma http_routes_wf: "go_wf (httpRoutesFrom E lrp)"
  by (auto simp: httpRoutesFrom_def go_wf_fold_append split: option.splits)

lemma tcp_routes_wf: "go_wf (tcpRoutesFrom E tls lrp)"
  by (auto simp: tcpRoutesFrom_def go_wf_fold_append split: option.splits)

lemma internal_routes_wf: "go_wf (internalRoutesFrom E lrp)"
  by (auto simp: internalRoutesFrom_def go_wf_fold_append split: option.splits)

definition wf_routing_table :: "bbs_env \<Rightarrow> bool \<Rightarrow> routingTable \<Rightarrow> bool" where
  "wf_routing_table E tls t =
     (wf_table (httpRoutesRoutingTable t) \<and> wf_table (tcpRoutesRoutingTable t) \<and>
      wf_table (internalRoutesRoutingTable t) \<and>
      it_endpointGenerator (httpRoutesRoutingTable t) = NewEndpointsFromActual \<and>
      it_endpointGenerator (tcpRoutesRoutingTable t) = NewEndpointsFromActual \<and>
      it_endpointGenerator (internalRoutesRoutingTable t) = internalEndpointsFromActualLRP \<and>
      it_routesGenerator (httpRoutesRoutingTable t) = httpRoutesFrom E \<and>
      it_routesGenerator (tcpRoutesRoutingTable t) = tcpRoutesFrom E tls \<and>
      it_routesGenerator (internalRoutesRoutingTable t) = internalRoutesFrom E)"

lemma wf_NewRoutingTable: "wf_routing_table E tls (NewRoutingTable E direct tls)"
  by (simp add: wf_routing_table_def NewRoutingTable_def wf_table_def)

lemma wf_routing_table_routes:
  assumes "wf_routing_table E tls t"
  shows "routes_wf (httpRoutesRoutingTable t)" "routes_wf (tcpRoutesRoutingTable t)"
    "routes_wf (internalRoutesRoutingTable t)"
  using assms
  by (auto simp: wf_routing_table_def routes_wf_def http_routes_wf tcp_routes_wf internal_routes_wf
      httpRoutesFrom_def [of E None] tcpRoutesFrom_def [of E tls None] internalRoutesFrom_def [of E None])

end
