(* ===== verification/Routing_Table_Correct.thy ===== *)
theory Routing_Table_Correct
  imports Routing_Table
begin

text \<open>
  Correctness of the composite \<open>routingTable\<close>. The invariant \<open>wf_routing_table\<close> holds in every table
  the operations reach; every operation emits exactly the difference between the table it finds and
  the table it leaves; and the entries it leaves are those of the specification.
\<close>

section \<open>The records of one instance agree\<close>

definition agreeing :: "internalRoutingTable \<Rightarrow> bool" where
  "agreeing t = list_all (\<lambda>(k, en). same_instance_agrees (entry_endpoints en)) (it_entries t)"

definition agreeing_table :: "routingTable \<Rightarrow> bool" where
  "agreeing_table t = (agreeing (httpRoutesRoutingTable t) \<and> agreeing (tcpRoutesRoutingTable t) \<and>
     agreeing (internalRoutesRoutingTable t))"

text \<open>
  What an instance event promises: container ports are listed once, and the event describes the same
  container as the record of the instance with the other presence, when the table has one.
\<close>

definition consistent_at :: "internalRoutingTable \<Rightarrow> ActualLRP \<Rightarrow> bool" where
  "consistent_at t a = (ports_distinct t a \<and> list_all (new_endpoint_agrees t a) (it_endpointGenerator t a))"

definition consistent_instance :: "routingTable \<Rightarrow> ActualLRP \<Rightarrow> bool" where
  "consistent_instance t a = (consistent_at (httpRoutesRoutingTable t) a \<and>
     consistent_at (tcpRoutesRoutingTable t) a \<and> consistent_at (internalRoutesRoutingTable t) a)"

definition distinct_ports :: "routingTable \<Rightarrow> ActualLRP \<Rightarrow> bool" where
  "distinct_ports t a = (ports_distinct (httpRoutesRoutingTable t) a \<and>
     ports_distinct (tcpRoutesRoutingTable t) a \<and> ports_distinct (internalRoutesRoutingTable t) a)"

definition routing_emission_exact :: "routingTable \<Rightarrow> routingTable \<Rightarrow> TCPRouteMappings \<times> MessagesToEmit \<Rightarrow> bool" where
  "routing_emission_exact t t' out =
     (\<exists>H T I. emitted_set (fst out) (snd out) = H \<union> T \<union> I \<and>
        table_emission_exact (it_directInstanceRoute (httpRoutesRoutingTable t))
          (httpRoutesRoutingTable t) (httpRoutesRoutingTable t') H \<and>
        table_emission_exact (it_directInstanceRoute (tcpRoutesRoutingTable t))
          (tcpRoutesRoutingTable t) (tcpRoutesRoutingTable t') T \<and>
        table_emission_exact (it_directInstanceRoute (internalRoutesRoutingTable t))
          (internalRoutesRoutingTable t) (internalRoutesRoutingTable t') I)"

lemma agreeing_iff: "wf_table t \<Longrightarrow> agreeing t \<longleftrightarrow> (\<forall>k. agrees_at t k)"
proof -
  assume "wf_table t"
  then have items: "(k, en) \<in> set (it_entries t) \<longleftrightarrow> go_get (it_entries t) k = Some en" for k en
    by (simp add: wf_table_wf gm.items_get)
  have zero: "same_instance_agrees (entry_endpoints zero_entry)"
    by (simp add: same_instance_agrees_def entry_endpoints_def go_values_def)
  show ?thesis
    unfolding agreeing_def agrees_at_def list_all_iff entry_at_def
    using zero by (auto simp: items split: option.splits)
qed

lemma emitted_set_merge3:
  "emitted_set (fst (merge3 (a, m) (b, n) (c, l))) (snd (merge3 (a, m) (b, n) (c, l))) =
     emitted_set a m \<union> emitted_set b n \<union> emitted_set c l"
  by (auto simp: merge3_def emitted_set_def MessagesToEmit_Merge_def TCPRouteMappings_Merge_def)

lemma emitted_of_triple: "emitted_of (m, msgs, c) = emitted_set m msgs"
  by (simp add: emitted_of_def)

text \<open>What one operation promises of each of the three tables.\<close>

definition part_correct :: "internalRoutingTable \<Rightarrow> internalRoutingTable \<Rightarrow> TCPRouteMappings \<Rightarrow> MessagesToEmit \<Rightarrow> bool" where
  "part_correct t t' m msgs = (wf_table t' \<and> config t' = config t \<and> agreeing t' \<and>
     table_emission_exact (it_directInstanceRoute t) t t' (emitted_set m msgs))"

lemma Internal_AddEndpoint_correct:
  assumes "wf_table t" "agreeing t" "consistent_at t a"
    "Internal_AddEndpoint E t a = ((t', m, msgs, c), counters)"
  shows "part_correct t t' m msgs"
proof -
  have ports: "ports_distinct t a" "\<And>e. e \<in> set (it_endpointGenerator t a) \<Longrightarrow> new_endpoint_agrees t a e"
    using assms(3) by (auto simp: consistent_at_def list_all_iff)
  note loop = Internal_AddEndpoint_loop [OF assms(1) ports(1) assms(4)]
  have old: "agrees_at t k" for k using assms(1,2) by (simp add: agreeing_iff)
  have new: "agrees_at t' k" for k by (rule AddEndpoint_agrees [OF assms(1) ports(1) assms(4) old ports(2)])
  from loop(1) have "wf_table t' \<and> config t' = config t" by (simp add: table_ok_def)
  with loop(4) [OF old new] new show ?thesis by (simp add: part_correct_def agreeing_iff emitted_of_triple)
qed

lemma Internal_RemoveEndpoint_correct:
  assumes "wf_table t" "agreeing t" "ports_distinct t a"
    "Internal_RemoveEndpoint E t a = (t', m, msgs, c)"
  shows "part_correct t t' m msgs"
proof -
  note loop = Internal_RemoveEndpoint_loop [OF assms(1,3,4)]
  have old: "agrees_at t k" for k using assms(1,2) by (simp add: agreeing_iff)
  have new: "agrees_at t' k" for k by (rule RemoveEndpoint_agrees [OF assms(1,3,4) old])
  from loop(1) have "wf_table t' \<and> config t' = config t" by (simp add: table_ok_def)
  with loop(4) [OF old new] new show ?thesis by (simp add: part_correct_def agreeing_iff emitted_of_triple)
qed

lemma Internal_SetRoutes_correct:
  assumes "wf_table t" "agreeing t" "routes_wf t"
    "Internal_SetRoutes E t before after = (t', m, msgs, c)"
  shows "part_correct t t' m msgs"
proof -
  note loop = Internal_SetRoutes_loop [OF assms(1,3,4)]
  have old: "agrees_at t k" for k using assms(1,2) by (simp add: agreeing_iff)
  have new: "agrees_at t' k" for k by (rule SetRoutes_agrees [OF assms(1,3,4) old])
  from loop(1) have "wf_table t' \<and> config t' = config t" by (simp add: table_ok_def)
  with loop(5) [OF old new] new show ?thesis by (simp add: part_correct_def agreeing_iff emitted_of_triple)
qed

lemma Internal_Swap_correct:
  assumes "wf_table t" "agreeing t" "wf_table other" "agreeing other"
    "Internal_Swap t other domains = (t', m, msgs)"
  shows "part_correct t t' m msgs"
proof -
  note loop = Internal_Swap_loop [OF assms(1,3,5)]
  have old: "agrees_at t k" for k using assms(1,2) by (simp add: agreeing_iff)
  have new: "agrees_at t' k" for k
    using assms(3,4) by (simp add: agrees_at_def loop(2) swap_entry_endpoints agreeing_iff)
  from loop(1) have "wf_table t' \<and> config t' = config t" by (simp add: table_ok_def)
  with loop(3) [OF old new] new show ?thesis by (simp add: part_correct_def agreeing_iff)
qed

lemma wf_routing_table_tables:
  "wf_routing_table E tls t \<Longrightarrow> wf_table (httpRoutesRoutingTable t) \<and> wf_table (tcpRoutesRoutingTable t) \<and>
     wf_table (internalRoutesRoutingTable t)"
  by (simp add: wf_routing_table_def)

lemma wf_routing_tableI:
  assumes "wf_routing_table E tls t" "wf_table h" "wf_table tc" "wf_table i"
    "config h = config (httpRoutesRoutingTable t)" "config tc = config (tcpRoutesRoutingTable t)"
    "config i = config (internalRoutesRoutingTable t)"
  shows "wf_routing_table E tls
    \<lparr>tcpRoutesRoutingTable = tc, httpRoutesRoutingTable = h, internalRoutesRoutingTable = i\<rparr>"
  using assms(1-4) config_eqD [OF assms(5)] config_eqD [OF assms(6)] config_eqD [OF assms(7)]
  by (simp add: wf_routing_table_def)

definition routing_correct :: "bbs_env \<Rightarrow> bool \<Rightarrow> routingTable \<Rightarrow> routingTable \<Rightarrow>
    TCPRouteMappings \<times> MessagesToEmit \<Rightarrow> bool" where
  "routing_correct E tls t t' out =
     (wf_routing_table E tls t' \<and> agreeing_table t' \<and> routing_emission_exact t t' out)"

lemma routing_correctI:
  assumes "wf_routing_table E tls t"
    and "part_correct (httpRoutesRoutingTable t) h hm hs" "part_correct (tcpRoutesRoutingTable t) tc tm ts"
    and "part_correct (internalRoutesRoutingTable t) i im il"
  shows "routing_correct E tls t
    \<lparr>tcpRoutesRoutingTable = tc, httpRoutesRoutingTable = h, internalRoutesRoutingTable = i\<rparr>
    (merge3 (hm, hs) (tm, ts) (im, il))"
proof -
  note parts = assms(2-4) [unfolded part_correct_def]
  have "routing_emission_exact t
      \<lparr>tcpRoutesRoutingTable = tc, httpRoutesRoutingTable = h, internalRoutesRoutingTable = i\<rparr>
      (merge3 (hm, hs) (tm, ts) (im, il))"
    unfolding routing_emission_exact_def emitted_set_merge3
    using parts by (intro exI conjI refl) auto
  with parts wf_routing_tableI [OF assms(1), of h tc i] show ?thesis
    by (simp add: routing_correct_def agreeing_table_def)
qed

section \<open>The invariant\<close>

lemma Internal_AddEndpoint_ok:
  assumes "wf_table t" "Internal_AddEndpoint E t a = ((t', res), counters)"
  shows "table_ok (config t) t'"
proof -
  obtain addrs where fold: "fold (add_endpoint_step E a) (it_endpointGenerator t a)
      (t\<lparr>it_addressEntries := addrs\<rparr>, no_emission) = (t', res)"
    using assms(2) by (auto simp: Internal_AddEndpoint_def Let_def split: prod.splits)
  show ?thesis
    by (rule add_loop.loop_ok [OF _ fold]) (use assms(1) in \<open>simp add: table_ok_def\<close>)
qed

lemma Internal_RemoveEndpoint_ok:
  assumes "wf_table t" "Internal_RemoveEndpoint E t a = (t', res)"
  shows "table_ok (config t) t'"
proof -
  have fold: "fold (remove_endpoint_step E a) (it_endpointGenerator t a)
      (t\<lparr>it_addressEntries := remove_addresses t (it_endpointGenerator t a)\<rparr>, no_emission) = (t', res)"
    using assms(2) by (simp add: Internal_RemoveEndpoint_def Let_def)
  show ?thesis
    by (rule remove_loop.loop_ok [OF _ fold]) (use assms(1) in \<open>simp add: table_ok_def\<close>)
qed

lemma wf_routing_table_okI:
  assumes "wf_routing_table E tls t" "table_ok (config (httpRoutesRoutingTable t)) h"
    "table_ok (config (tcpRoutesRoutingTable t)) tc" "table_ok (config (internalRoutesRoutingTable t)) i"
  shows "wf_routing_table E tls
    \<lparr>tcpRoutesRoutingTable = tc, httpRoutesRoutingTable = h, internalRoutesRoutingTable = i\<rparr>"
  using assms by (auto simp: table_ok_def intro: wf_routing_tableI)

lemma wf_AddEndpoint: "wf_routing_table E tls t \<Longrightarrow> wf_routing_table E tls (fst (AddEndpoint E t a))"
  by (auto simp: AddEndpoint_def Let_def split: prod.splits
      intro!: wf_routing_table_okI Internal_AddEndpoint_ok dest: wf_routing_table_tables)

lemma wf_RemoveEndpoint: "wf_routing_table E tls t \<Longrightarrow> wf_routing_table E tls (fst (RemoveEndpoint E t a))"
  by (auto simp: RemoveEndpoint_def Let_def split: prod.splits
      intro!: wf_routing_table_okI Internal_RemoveEndpoint_ok dest: wf_routing_table_tables)

lemma wf_SetRoutes: "wf_routing_table E tls t \<Longrightarrow> wf_routing_table E tls (fst (SetRoutes E t before after))"
  by (auto simp: SetRoutes_def Let_def split: prod.splits
      intro!: wf_routing_table_okI Internal_SetRoutes_loop(1) dest: wf_routing_table_tables
      intro: wf_routing_table_routes)

lemma RemoveRoutes_SetRoutes: "RemoveRoutes E t before = SetRoutes E t before None"
  by (simp add: RemoveRoutes_def SetRoutes_def Internal_RemoveRoutes_def)

lemma Internal_Swap_ok:
  "Internal_Swap t u domains = (t', m, msgs) \<Longrightarrow> wf_table t \<Longrightarrow> wf_table u \<Longrightarrow> table_ok (config t) t'"
  by (rule Internal_Swap_loop(1))

lemma wf_Swap:
  "wf_routing_table E tls t \<Longrightarrow> wf_routing_table E tls u \<Longrightarrow> wf_routing_table E tls (fst (Swap t (Some u) domains))"
  using wf_routing_table_tables [of E tls t] wf_routing_table_tables [of E tls u]
  by (auto simp: Swap_def Let_def split: prod.splits intro!: wf_routing_table_okI elim!: Internal_Swap_ok)

text \<open>
  A history of a table: the calls the handler makes, in order. The table given to \<open>Swap\<close> is one the
  handler has filled by calls of its own from \<open>NewRoutingTable(false, ...)\<close>, as \<open>Handler.Sync\<close> does.
\<close>

datatype table_op =
    OpAddEndpoint ActualLRP
  | OpRemoveEndpoint ActualLRP
  | OpSetRoutes "DesiredLRP option" "DesiredLRP option"
  | OpRemoveRoutes "DesiredLRP option"
  | OpSwap "table_op list" DomainSet
  | OpSwapForeign DomainSet

fun apply_op :: "bbs_env \<Rightarrow> bool \<Rightarrow> table_op \<Rightarrow> routingTable \<Rightarrow> routingTable \<times> (TCPRouteMappings \<times> MessagesToEmit)"
  and run_ops :: "bbs_env \<Rightarrow> bool \<Rightarrow> table_op list \<Rightarrow> routingTable \<Rightarrow> routingTable" where
  "apply_op E tls (OpAddEndpoint a) t = (case AddEndpoint E t a of (t', out, counters) \<Rightarrow> (t', out))"
| "apply_op E tls (OpRemoveEndpoint a) t = RemoveEndpoint E t a"
| "apply_op E tls (OpSetRoutes before after) t = SetRoutes E t before after"
| "apply_op E tls (OpRemoveRoutes lrp) t = RemoveRoutes E t lrp"
| "apply_op E tls (OpSwap ops domains) t =
     Swap t (Some (run_ops E tls ops (NewRoutingTable E False tls))) domains"
| "apply_op E tls (OpSwapForeign domains) t = Swap t None domains"
| "run_ops E tls [] t = t"
| "run_ops E tls (x # ops) t = run_ops E tls ops (fst (apply_op E tls x t))"

lemma apply_op_run_ops_wf:
  "wf_routing_table E tls t \<Longrightarrow> wf_routing_table E tls (fst (apply_op E tls x t))"
  "wf_routing_table E tls t \<Longrightarrow> wf_routing_table E tls (run_ops E tls ops t)"
proof (induction E tls x t and E tls ops t rule: apply_op_run_ops.induct)
  case (1 E tls a t)
  then show ?case using wf_AddEndpoint [of E tls t a] by (auto split: prod.splits)
qed (auto simp: wf_RemoveEndpoint wf_SetRoutes RemoveRoutes_SetRoutes wf_Swap wf_NewRoutingTable
    Swap_def [of _ None])

lemma run_ops_append: "run_ops E tls (xs @ ys) t = run_ops E tls ys (run_ops E tls xs t)"
  by (induction xs arbitrary: t) auto

text \<open>A history whose instance events are consistent with the table they meet.\<close>

fun consistent_op :: "bbs_env \<Rightarrow> bool \<Rightarrow> table_op \<Rightarrow> routingTable \<Rightarrow> bool"
  and consistent_history :: "bbs_env \<Rightarrow> bool \<Rightarrow> table_op list \<Rightarrow> routingTable \<Rightarrow> bool" where
  "consistent_op E tls (OpAddEndpoint a) t = consistent_instance t a"
| "consistent_op E tls (OpRemoveEndpoint a) t = distinct_ports t a"
| "consistent_op E tls (OpSetRoutes before after) t = True"
| "consistent_op E tls (OpRemoveRoutes lrp) t = True"
| "consistent_op E tls (OpSwap ops domains) t =
     consistent_history E tls ops (NewRoutingTable E False tls)"
| "consistent_op E tls (OpSwapForeign domains) t = True"
| "consistent_history E tls [] t = True"
| "consistent_history E tls (x # ops) t =
     (consistent_op E tls x t \<and> consistent_history E tls ops (fst (apply_op E tls x t)))"

text \<open>A table for the witnesses: one instance and its HTTP route.\<close>

definition example_ops :: "table_op list" where
  "example_ops = [OpAddEndpoint (example_actual ''ig1'' 0 ActualLRP_Ordinary 1),
     OpSetRoutes None (Some (example_desired ''h1'' 2 1))]"

definition example_table :: routingTable where
  "example_table = run_ops example_env False example_ops (NewRoutingTable example_env False False)"

lemma wf_example_table: "wf_routing_table example_env False example_table"
  unfolding example_table_def by (rule apply_op_run_ops_wf(2) [OF wf_NewRoutingTable])

lemma agreeing_example_table: "agreeing_table example_table"
  by code_simp

section \<open>Emission is exact\<close>

lemma AddEndpoint_correct:
  assumes "wf_routing_table E tls t" "agreeing_table t" "consistent_instance t a"
  shows "routing_correct E tls t (fst (AddEndpoint E t a)) (fst (snd (AddEndpoint E t a)))"
proof -
  obtain h hm hs hc c1 where h: "Internal_AddEndpoint E (httpRoutesRoutingTable t) a = ((h, hm, hs, hc), c1)"
    by (metis surj_pair)
  obtain tc tm ts tcc c2 where tc: "Internal_AddEndpoint E (tcpRoutesRoutingTable t) a = ((tc, tm, ts, tcc), c2)"
    by (metis surj_pair)
  obtain i im il ic c3 where i: "Internal_AddEndpoint E (internalRoutesRoutingTable t) a = ((i, im, il, ic), c3)"
    by (metis surj_pair)
  note wf = wf_routing_table_tables [OF assms(1)]
  show ?thesis
    unfolding AddEndpoint_def h tc i Let_def prod.case fst_conv snd_conv
    by (intro routing_correctI assms(1) Internal_AddEndpoint_correct [OF _ _ _ h]
        Internal_AddEndpoint_correct [OF _ _ _ tc] Internal_AddEndpoint_correct [OF _ _ _ i])
      (use wf assms(2,3) in \<open>simp_all add: agreeing_table_def consistent_instance_def\<close>)
qed

lemma RemoveEndpoint_correct:
  assumes "wf_routing_table E tls t" "agreeing_table t" "distinct_ports t a"
  shows "routing_correct E tls t (fst (RemoveEndpoint E t a)) (snd (RemoveEndpoint E t a))"
proof -
  obtain h hm hs hc where h: "Internal_RemoveEndpoint E (httpRoutesRoutingTable t) a = (h, hm, hs, hc)"
    by (metis surj_pair)
  obtain tc tm ts tcc where tc: "Internal_RemoveEndpoint E (tcpRoutesRoutingTable t) a = (tc, tm, ts, tcc)"
    by (metis surj_pair)
  obtain i im il ic where i: "Internal_RemoveEndpoint E (internalRoutesRoutingTable t) a = (i, im, il, ic)"
    by (metis surj_pair)
  note wf = wf_routing_table_tables [OF assms(1)]
  show ?thesis
    unfolding RemoveEndpoint_def h tc i Let_def prod.case fst_conv snd_conv
    by (intro routing_correctI assms(1) Internal_RemoveEndpoint_correct [OF _ _ _ h]
        Internal_RemoveEndpoint_correct [OF _ _ _ tc] Internal_RemoveEndpoint_correct [OF _ _ _ i])
      (use wf assms(2,3) in \<open>simp_all add: agreeing_table_def distinct_ports_def\<close>)
qed

lemma SetRoutes_correct:
  assumes "wf_routing_table E tls t" "agreeing_table t"
  shows "routing_correct E tls t (fst (SetRoutes E t before after)) (snd (SetRoutes E t before after))"
proof -
  obtain h hm hs hc where h: "Internal_SetRoutes E (httpRoutesRoutingTable t) before after = (h, hm, hs, hc)"
    by (metis surj_pair)
  obtain tc tm ts tcc where tc: "Internal_SetRoutes E (tcpRoutesRoutingTable t) before after = (tc, tm, ts, tcc)"
    by (metis surj_pair)
  obtain i im il ic where i: "Internal_SetRoutes E (internalRoutesRoutingTable t) before after = (i, im, il, ic)"
    by (metis surj_pair)
  note wf = wf_routing_table_tables [OF assms(1)]
  note rwf = wf_routing_table_routes [OF assms(1)]
  show ?thesis
    unfolding SetRoutes_def h tc i Let_def prod.case fst_conv snd_conv
    by (intro routing_correctI assms(1) Internal_SetRoutes_correct [OF _ _ _ h]
        Internal_SetRoutes_correct [OF _ _ _ tc] Internal_SetRoutes_correct [OF _ _ _ i])
      (use wf rwf assms(2) in \<open>simp_all add: agreeing_table_def\<close>)
qed

lemma Swap_correct:
  assumes "wf_routing_table E tls t" "agreeing_table t" "wf_routing_table E tls u" "agreeing_table u"
  shows "routing_correct E tls t (fst (Swap t (Some u) domains)) (snd (Swap t (Some u) domains))"
proof -
  obtain h hm hs where h: "Internal_Swap (httpRoutesRoutingTable t) (httpRoutesRoutingTable u) domains = (h, hm, hs)"
    by (metis surj_pair)
  obtain tc tm ts where tc: "Internal_Swap (tcpRoutesRoutingTable t) (tcpRoutesRoutingTable u) domains = (tc, tm, ts)"
    by (metis surj_pair)
  obtain i im il where
    i: "Internal_Swap (internalRoutesRoutingTable t) (internalRoutesRoutingTable u) domains = (i, im, il)"
    by (metis surj_pair)
  note wf = wf_routing_table_tables [OF assms(1)] wf_routing_table_tables [OF assms(3)]
  show ?thesis
    unfolding Swap_def option.case h tc i Let_def prod.case fst_conv snd_conv
    by (intro routing_correctI assms(1) Internal_Swap_correct [OF _ _ _ _ h]
        Internal_Swap_correct [OF _ _ _ _ tc] Internal_Swap_correct [OF _ _ _ _ i])
      (use wf assms(2,4) in \<open>simp_all add: agreeing_table_def\<close>)
qed

lemma Swap_foreign_correct:
  assumes "wf_routing_table E tls t" "agreeing_table t"
  shows "routing_correct E tls t (fst (Swap t None domains)) (snd (Swap t None domains))"
proof -
  have none: "emitted_set no_mappings no_messages = {}"
    by (simp add: emitted_set_def no_mappings_def no_messages_def)
  have same: "table_emission_exact d u u {}" for d u
    unfolding table_emission_exact_def by (rule exI [of _ "\<lambda>_. {}"]) (simp add: entry_emission_exact_refl)
  have "routing_emission_exact t t (no_mappings, no_messages)"
    unfolding routing_emission_exact_def fst_conv snd_conv none
    by (rule exI [of _ "{}"])+ (simp add: same)
  with assms show ?thesis by (simp add: routing_correct_def Swap_def)
qed

lemma history_correct:
  "wf_routing_table E tls t \<Longrightarrow> agreeing_table t \<Longrightarrow> consistent_op E tls x t \<Longrightarrow>
     routing_correct E tls t (fst (apply_op E tls x t)) (snd (apply_op E tls x t))"
  "wf_routing_table E tls t \<Longrightarrow> agreeing_table t \<Longrightarrow> consistent_history E tls ops t \<Longrightarrow>
     agreeing_table (run_ops E tls ops t)"
proof (induction E tls x t and E tls ops t rule: apply_op_run_ops.induct)
  case (1 E tls a t)
  then show ?case using AddEndpoint_correct [of E tls t a] by (auto split: prod.splits)
next
  case (5 E tls ops domains t)
  have new: "agreeing_table (NewRoutingTable E False tls)"
    by (simp add: agreeing_table_def NewRoutingTable_def agreeing_def)
  from 5 show ?case
    by (auto intro!: Swap_correct apply_op_run_ops_wf(2) simp: wf_NewRoutingTable new)
next
  case (8 E tls x ops t)
  then show ?case by (auto simp: routing_correct_def)
qed (auto simp: RemoveRoutes_SetRoutes intro: RemoveEndpoint_correct SetRoutes_correct Swap_foreign_correct)

lemma consistent_history_append:
  "consistent_history E tls (xs @ ys) t \<longleftrightarrow>
     consistent_history E tls xs t \<and> consistent_history E tls ys (run_ops E tls xs t)"
  by (induction xs arbitrary: t) auto

text \<open>
  C1: when an instance event is added to a well formed table, the registrations and unregistrations
  returned for HTTP, TCP and internal routes are exactly the difference between the route/endpoint
  pairs of the table before and after: nothing is missed, nothing is sent without a change.
\<close>

theorem AddEndpoint_exact:
  assumes "wf_routing_table E tls t" "agreeing_table t" "consistent_instance t a"
  shows "routing_correct E tls t (fst (AddEndpoint E t a)) (fst (snd (AddEndpoint E t a)))"
  using assms by (rule AddEndpoint_correct)

theorem AddEndpoint_exact_witness:
  "routing_correct example_env False example_table
     (fst (AddEndpoint example_env example_table (example_actual ''ig2'' 1 ActualLRP_Ordinary 1)))
     (fst (snd (AddEndpoint example_env example_table (example_actual ''ig2'' 1 ActualLRP_Ordinary 1))))"
proof (rule AddEndpoint_exact [OF wf_example_table agreeing_example_table])
  show "consistent_instance example_table (example_actual ''ig2'' 1 ActualLRP_Ordinary 1)" by code_simp
qed

text \<open>
  C2: removing an instance emits exactly the difference it makes.
\<close>

theorem RemoveEndpoint_exact:
  assumes "wf_routing_table E tls t" "agreeing_table t" "distinct_ports t a"
  shows "routing_correct E tls t (fst (RemoveEndpoint E t a)) (snd (RemoveEndpoint E t a))"
  using assms by (rule RemoveEndpoint_correct)

theorem RemoveEndpoint_exact_witness:
  "routing_correct example_env False example_table
     (fst (RemoveEndpoint example_env example_table (example_actual ''ig1'' 0 ActualLRP_Ordinary 1)))
     (snd (RemoveEndpoint example_env example_table (example_actual ''ig1'' 0 ActualLRP_Ordinary 1)))"
proof (rule RemoveEndpoint_exact [OF wf_example_table agreeing_example_table])
  show "distinct_ports example_table (example_actual ''ig1'' 0 ActualLRP_Ordinary 1)" by code_simp
qed

text \<open>
  C3: setting the routes of a desired LRP, which also covers scaling down and removed routes, emits
  exactly the difference it makes.
\<close>

theorem SetRoutes_exact:
  assumes "wf_routing_table E tls t" "agreeing_table t"
  shows "routing_correct E tls t (fst (SetRoutes E t before after)) (snd (SetRoutes E t before after))"
  using assms by (rule SetRoutes_correct)

theorem SetRoutes_exact_witness:
  "routing_correct example_env False example_table
     (fst (SetRoutes example_env example_table (Some (example_desired ''h1'' 2 1)) (Some (example_desired ''h2'' 1 2))))
     (snd (SetRoutes example_env example_table (Some (example_desired ''h1'' 2 1)) (Some (example_desired ''h2'' 1 2))))"
  by (rule SetRoutes_exact [OF wf_example_table agreeing_example_table])

text \<open>
  C4: exchanging the table for one filled from a full synchronisation emits exactly the difference
  between the old table and the merged one.
\<close>

theorem Swap_exact:
  assumes "wf_routing_table E tls t" "agreeing_table t" "wf_routing_table E tls u" "agreeing_table u"
  shows "routing_correct E tls t (fst (Swap t (Some u) domains)) (snd (Swap t (Some u) domains))"
  using assms by (rule Swap_correct)

theorem Swap_exact_witness:
  "routing_correct example_env False example_table
     (fst (Swap example_table (Some (NewRoutingTable example_env False False)) (\<lambda>d. d = ''tests'')))
     (snd (Swap example_table (Some (NewRoutingTable example_env False False)) (\<lambda>d. d = ''tests'')))"
proof (rule Swap_exact [OF wf_example_table agreeing_example_table wf_NewRoutingTable])
  show "agreeing_table (NewRoutingTable example_env False False)" by code_simp
qed

text \<open>
  C6: along every history of calls on a table that starts empty, with instance events consistent with
  the table they meet, every call emits exactly the difference it makes; no assumption is made about
  the order of desired and actual events, about modification tags or about stale and repeated events.
\<close>

theorem history_exact:
  assumes "consistent_history E tls (ops @ [x]) (NewRoutingTable E direct tls)"
  shows "routing_correct E tls (run_ops E tls ops (NewRoutingTable E direct tls))
    (fst (apply_op E tls x (run_ops E tls ops (NewRoutingTable E direct tls))))
    (snd (apply_op E tls x (run_ops E tls ops (NewRoutingTable E direct tls))))"
proof (rule history_correct(1))
  have new: "agreeing_table (NewRoutingTable E direct tls)"
    by (simp add: agreeing_table_def NewRoutingTable_def agreeing_def)
  have parts: "consistent_history E tls ops (NewRoutingTable E direct tls)"
    "consistent_op E tls x (run_ops E tls ops (NewRoutingTable E direct tls))"
    using assms by (simp_all add: consistent_history_append)
  then show "consistent_op E tls x (run_ops E tls ops (NewRoutingTable E direct tls))" by blast
  show "wf_routing_table E tls (run_ops E tls ops (NewRoutingTable E direct tls))"
    by (rule apply_op_run_ops_wf(2) [OF wf_NewRoutingTable])
  show "agreeing_table (run_ops E tls ops (NewRoutingTable E direct tls))"
    by (rule history_correct(2) [OF wf_NewRoutingTable new parts(1)])
qed

theorem history_exact_witness:
  "routing_correct example_env False example_table
    (fst (apply_op example_env False (OpSwap example_ops (\<lambda>d. d = ''tests'')) example_table))
    (snd (apply_op example_env False (OpSwap example_ops (\<lambda>d. d = ''tests'')) example_table))"
proof -
  have "consistent_history example_env False (example_ops @ [OpSwap example_ops (\<lambda>d. d = ''tests'')])
      (NewRoutingTable example_env False False)"
    by code_simp
  from history_exact [OF this] show ?thesis by (simp only: example_table_def)
qed

text \<open>
  Whatever the calls, in any order and with any arguments, every table keeps the invariant: Go map
  keys are unique, every endpoint is stored under its own key, and the generators are those of the
  constructor.
\<close>

theorem reachable_tables_wf:
  "wf_routing_table E tls (run_ops E tls ops (NewRoutingTable E direct tls))"
  by (rule apply_op_run_ops_wf(2) [OF wf_NewRoutingTable])

end
