(* ===== verification/Table_Behaviour.thy ===== *)
theory Table_Behaviour
  imports Routing_Table_Correct
begin

text \<open>
  What the single operations of the routing table do to its entries: repeated and stale events
  change nothing and emit nothing, adding and removing an instance is a round trip, a swap takes the
  endpoints of the new table and keeps the routes of domains that are not fresh, and reading the
  table announces every route/endpoint pair.
\<close>

section \<open>Repeated events\<close>

text \<open>A loop whose visits all leave the table alone returns it with nothing emitted.\<close>

lemma fold_idle: "(\<And>x. x \<in> set xs \<Longrightarrow> step x s = s) \<Longrightarrow> fold step xs s = s"
  by (induction xs) auto

lemma Internal_AddEndpoint_idle:
  assumes "wf_table t" "\<And>e. e \<in> set (it_endpointGenerator t a) \<Longrightarrow> add_entry E e (entry_at t (lrp_key a e)) = None"
  shows "\<exists>addrs counters. Internal_AddEndpoint E t a = ((t\<lparr>it_addressEntries := addrs\<rparr>, no_emission), counters)"
proof -
  obtain addrs counters where d: "detect_collisions t (it_endpointGenerator t a) = (addrs, counters)"
    by (metis surj_pair)
  have "fold (add_endpoint_step E a) (it_endpointGenerator t a) (t\<lparr>it_addressEntries := addrs\<rparr>, no_emission) =
      (t\<lparr>it_addressEntries := addrs\<rparr>, no_emission)"
    by (rule fold_idle) (use assms in \<open>simp add: add_endpoint_step_eq\<close>)
  then have "Internal_AddEndpoint E t a = ((t\<lparr>it_addressEntries := addrs\<rparr>, no_emission), counters)"
    by (simp add: Internal_AddEndpoint_def d)
  then show ?thesis by blast
qed

lemma add_entry_twice:
  assumes "\<not> SucceededBy E (ep_ModificationTag e) (ep_ModificationTag e)" "add_entry E e en = Some en'"
  shows "add_entry E e en' = None"
  using assms by (auto simp: add_entry_def split: if_splits)

lemma config_generator: "config t' = config t \<Longrightarrow> it_endpointGenerator t' = it_endpointGenerator t"
  using config_eqD [of t' t] by simp

lemma Internal_AddEndpoint_replay:
  assumes "wf_table t" "ports_distinct t a" "Internal_AddEndpoint E t a = ((t', res), counters)"
    and "\<And>e. e \<in> set (it_endpointGenerator t a) \<Longrightarrow> \<not> SucceededBy E (ep_ModificationTag e) (ep_ModificationTag e)"
  shows "\<exists>addrs c2. Internal_AddEndpoint E t' a = ((t'\<lparr>it_addressEntries := addrs\<rparr>, no_emission), c2)"
proof (rule Internal_AddEndpoint_idle)
  note loop = Internal_AddEndpoint_loop [OF assms(1-3)]
  show "wf_table t'" using loop(1) by (simp add: table_ok_def)
  have gen: "it_endpointGenerator t' = it_endpointGenerator t"
    by (rule config_generator) (use loop(1) in \<open>simp add: table_ok_def\<close>)
  show "add_entry E e (entry_at t' (lrp_key a e)) = None" if "e \<in> set (it_endpointGenerator t' a)" for e
  proof (cases "add_entry E e (entry_at t (lrp_key a e))")
    case None
    with loop(3) [of e] that show ?thesis by (simp add: gen)
  next
    case (Some en)
    with add_entry_twice [OF assms(4) Some] loop(3) [of e] that show ?thesis by (simp add: gen)
  qed
qed

lemma generator_tags:
  "e \<in> set (NewEndpointsFromActual a) \<Longrightarrow> ep_ModificationTag e = Some (al_ModificationTag a)"
  "e \<in> set (internalEndpointsFromActualLRP a) \<Longrightarrow> ep_ModificationTag e = Some (al_ModificationTag a)"
  by (auto simp: NewEndpointsFromActual_def set_endpoints_for_ports endpoint_for_port_def
      internalEndpointsFromActualLRP_def)

lemma internal_ports_distinct:
  "wf_routing_table E tls t \<Longrightarrow> ports_distinct (internalRoutesRoutingTable t) a"
  by (simp add: wf_routing_table_def ports_distinct_def internalEndpointsFromActualLRP_def)

text \<open>The entries of the composite table, without the address map.\<close>

definition entries_of :: "routingTable \<Rightarrow>
    (RoutingKey, RoutableEndpoints) gomap \<times> (RoutingKey, RoutableEndpoints) gomap \<times> (RoutingKey, RoutableEndpoints) gomap" where
  "entries_of t = (it_entries (httpRoutesRoutingTable t), it_entries (tcpRoutesRoutingTable t),
     it_entries (internalRoutesRoutingTable t))"

lemma merge3_none: "merge3 (no_mappings, no_messages) (no_mappings, no_messages) (no_mappings, no_messages) =
    (no_mappings, no_messages)"
  by (simp add: merge3_def no_mappings_def no_messages_def TCPRouteMappings_Merge_def MessagesToEmit_Merge_def)

lemma AddEndpoint_tables:
  assumes "Internal_AddEndpoint E (httpRoutesRoutingTable t) a = ((h, hm, hs, hc), c1)"
    "Internal_AddEndpoint E (tcpRoutesRoutingTable t) a = ((tc, tm, ts, tcc), c2)"
    "Internal_AddEndpoint E (internalRoutesRoutingTable t) a = ((i, im, il, ic), c3)"
  shows "AddEndpoint E t a =
    (\<lparr>tcpRoutesRoutingTable = tc, httpRoutesRoutingTable = h, internalRoutesRoutingTable = i\<rparr>,
     merge3 (hm, hs) (tm, ts) (im, il), c1 @ c2 @ c3)"
  by (simp add: AddEndpoint_def assms)

text \<open>
  The event stream may deliver an instance event twice: the second delivery of the same event
  leaves every entry as it is and emits nothing, provided a modification tag does not succeed itself.
\<close>

theorem AddEndpoint_replay:
  assumes "wf_routing_table E tls t" "distinct_ports t a"
    and "\<not> SucceededBy E (Some (al_ModificationTag a)) (Some (al_ModificationTag a))"
  shows "entries_of (fst (AddEndpoint E (fst (AddEndpoint E t a)) a)) = entries_of (fst (AddEndpoint E t a)) \<and>
    fst (snd (AddEndpoint E (fst (AddEndpoint E t a)) a)) = (no_mappings, no_messages)"
proof -
  let ?H = "httpRoutesRoutingTable t" and ?T = "tcpRoutesRoutingTable t" and ?I = "internalRoutesRoutingTable t"
  obtain h hm hs hc c1 where h: "Internal_AddEndpoint E ?H a = ((h, hm, hs, hc), c1)" by (metis surj_pair)
  obtain tc tm ts tcc c2 where tc: "Internal_AddEndpoint E ?T a = ((tc, tm, ts, tcc), c2)" by (metis surj_pair)
  obtain i im il ic c3 where i: "Internal_AddEndpoint E ?I a = ((i, im, il, ic), c3)" by (metis surj_pair)
  note wf = assms(1) [unfolded wf_routing_table_def]
  note ports = assms(2) [unfolded distinct_ports_def]
  obtain ha hc2 where h2: "Internal_AddEndpoint E h a = ((h\<lparr>it_addressEntries := ha\<rparr>, no_emission), hc2)"
    using Internal_AddEndpoint_replay [OF _ _ h] wf ports assms(3) by (auto simp: generator_tags)
  obtain ta tc2 where t2: "Internal_AddEndpoint E tc a = ((tc\<lparr>it_addressEntries := ta\<rparr>, no_emission), tc2)"
    using Internal_AddEndpoint_replay [OF _ _ tc] wf ports assms(3) by (auto simp: generator_tags)
  obtain ia ic2 where i2: "Internal_AddEndpoint E i a = ((i\<lparr>it_addressEntries := ia\<rparr>, no_emission), ic2)"
    using Internal_AddEndpoint_replay [OF _ _ i] wf ports assms(3) by (auto simp: generator_tags)
  note one = AddEndpoint_tables [OF h tc i]
  let ?t1 = "\<lparr>tcpRoutesRoutingTable = tc, httpRoutesRoutingTable = h, internalRoutesRoutingTable = i\<rparr>"
  have two: "AddEndpoint E ?t1 a =
      (\<lparr>tcpRoutesRoutingTable = tc\<lparr>it_addressEntries := ta\<rparr>, httpRoutesRoutingTable = h\<lparr>it_addressEntries := ha\<rparr>,
        internalRoutesRoutingTable = i\<lparr>it_addressEntries := ia\<rparr>\<rparr>,
       merge3 (no_mappings, no_messages) (no_mappings, no_messages) (no_mappings, no_messages), hc2 @ tc2 @ ic2)"
    by (rule AddEndpoint_tables [where hc = False and tcc = False and ic = False])
      (simp_all add: h2 t2 i2 no_emission_def)
  show ?thesis unfolding one fst_conv two snd_conv by (simp add: entries_of_def merge3_none)
qed

theorem AddEndpoint_replay_witness:
  "let a = example_actual ''ig2'' 1 ActualLRP_Ordinary 1; t1 = fst (AddEndpoint example_env example_table a) in
     entries_of (fst (AddEndpoint example_env t1 a)) = entries_of t1 \<and>
     fst (snd (AddEndpoint example_env t1 a)) = (no_mappings, no_messages)"
  unfolding Let_def
proof (rule AddEndpoint_replay [OF wf_example_table])
  show "distinct_ports example_table (example_actual ''ig2'' 1 ActualLRP_Ordinary 1)" by code_simp
  show "\<not> SucceededBy example_env (Some (al_ModificationTag (example_actual ''ig2'' 1 ActualLRP_Ordinary 1)))
      (Some (al_ModificationTag (example_actual ''ig2'' 1 ActualLRP_Ordinary 1)))"
    by code_simp
qed

section \<open>Adding and removing an instance\<close>

text \<open>What an entry holds for the outside: its routes and its endpoints.\<close>

definition content :: "internalRoutingTable \<Rightarrow> RoutingKey \<Rightarrow> routeMapping list \<times> (EndpointKey, Endpoint) gomap" where
  "content t k = (re_Routes (entry_at t k), re_Endpoints (entry_at t k))"

definition contents :: "routingTable \<Rightarrow> RoutingKey \<Rightarrow>
    (routeMapping list \<times> (EndpointKey, Endpoint) gomap) list" where
  "contents t k = [content (httpRoutesRoutingTable t) k, content (tcpRoutesRoutingTable t) k,
     content (internalRoutesRoutingTable t) k]"

definition new_instance_at :: "internalRoutingTable \<Rightarrow> ActualLRP \<Rightarrow> bool" where
  "new_instance_at t a = list_all (\<lambda>e. go_get (re_Endpoints (entry_at t (lrp_key a e))) (endpoint_key e) = None)
     (it_endpointGenerator t a)"

definition new_instance :: "routingTable \<Rightarrow> ActualLRP \<Rightarrow> bool" where
  "new_instance t a = (new_instance_at (httpRoutesRoutingTable t) a \<and>
     new_instance_at (tcpRoutesRoutingTable t) a \<and> new_instance_at (internalRoutesRoutingTable t) a)"

lemma go_del_put_new: "go_get m k = None \<Longrightarrow> go_del (go_put m k v) k = m"
  unfolding go_get_def go_del_def go_put_def
  by (induction m) (auto simp: AList.delete_eq split: if_splits)

lemma add_remove_entry:
  assumes "go_get (re_Endpoints en) (endpoint_key e) = None"
    and "TagEqual E (ep_ModificationTag e) (ep_ModificationTag e)" "add_entry E e en = Some en1"
  shows "\<exists>en2. remove_entry E e en1 = Some en2 \<and> same_content (drop_empty en2) en"
proof -
  have en1: "en1 = en\<lparr>re_Endpoints := go_put (re_Endpoints en) (endpoint_key e) e\<rparr>"
    using assms(3) by (simp add: add_entry_def split: if_splits)
  then have "remove_entry E e en1 = Some (en1\<lparr>re_Endpoints := go_del (re_Endpoints en1) (endpoint_key e)\<rparr>)"
    using assms(2) by (simp add: remove_entry_def)
  then show ?thesis using assms(1) by (auto simp: en1 drop_empty_def same_content_def go_del_put_new)
qed

lemma Internal_add_remove:
  assumes "wf_table t" "ports_distinct t a" "new_instance_at t a"
    and "\<And>e. e \<in> set (it_endpointGenerator t a) \<Longrightarrow> TagEqual E (ep_ModificationTag e) (ep_ModificationTag e)"
    and "Internal_AddEndpoint E t a = ((t1, r1), c)" "Internal_RemoveEndpoint E t1 a = (t2, r2)"
  shows "content t2 k = content t k"
proof -
  note add = Internal_AddEndpoint_loop [OF assms(1,2,5)]
  have gen: "it_endpointGenerator t1 = it_endpointGenerator t"
    by (rule config_generator) (use add(1) in \<open>simp add: table_ok_def\<close>)
  have ok1: "wf_table t1" "ports_distinct t1 a"
    using add(1) assms(2) by (simp_all add: table_ok_def ports_distinct_def gen)
  note rem = Internal_RemoveEndpoint_loop [OF ok1 assms(6), unfolded gen]
  have "same_content (entry_at t2 k) (entry_at t k)"
  proof (cases "k \<in> lrp_key a ` set (it_endpointGenerator t a)")
    case False
    then show ?thesis using add(2) rem(2) by simp
  next
    case True
    then obtain e where e: "e \<in> set (it_endpointGenerator t a)" "k = lrp_key a e" by blast
    have fresh: "go_get (re_Endpoints (entry_at t k)) (endpoint_key e) = None"
      using assms(3) e by (simp add: new_instance_at_def list_all_iff)
    show ?thesis
    proof (cases "add_entry E e (entry_at t k)")
      case None
      then show ?thesis using add(3) [OF e(1)] rem(3) [OF e(1)] fresh e(2) by (simp add: remove_entry_def)
    next
      case (Some en1)
      from add_remove_entry [OF fresh assms(4) [OF e(1)] Some] obtain en2 where
        "remove_entry E e en1 = Some en2" "same_content (drop_empty en2) (entry_at t k)" by blast
      then show ?thesis using add(3) [OF e(1)] rem(3) [OF e(1)] Some e(2) by simp
    qed
  qed
  then show ?thesis by (simp add: content_def same_content_def)
qed

lemma RemoveEndpoint_tables:
  assumes "Internal_RemoveEndpoint E (httpRoutesRoutingTable t) a = (h, hm, hs, hc)"
    "Internal_RemoveEndpoint E (tcpRoutesRoutingTable t) a = (tc, tm, ts, tcc)"
    "Internal_RemoveEndpoint E (internalRoutesRoutingTable t) a = (i, im, il, ic)"
  shows "RemoveEndpoint E t a =
    (\<lparr>tcpRoutesRoutingTable = tc, httpRoutesRoutingTable = h, internalRoutesRoutingTable = i\<rparr>,
     merge3 (hm, hs) (tm, ts) (im, il))"
  by (simp add: RemoveEndpoint_def assms)



section \<open>Repeated desired LRPs\<close>

lemma Internal_SetRoutes_replay:
  assumes "wf_table t" "routes_wf t" "Internal_SetRoutes E t before (Some d) = (t', res)"
    and "\<not> SucceededBy E (dl_ModificationTag d) (dl_ModificationTag d)"
  shows "Internal_SetRoutes E t' None (Some d) = (t', no_emission)"
proof -
  note loop = Internal_SetRoutes_loop [OF assms(1-3)]
  have gen: "it_routesGenerator t' = it_routesGenerator t" and wf: "wf_table t'"
    using loop(1) config_eqD [of t' t] by (simp_all add: table_ok_def)
  have none: "it_routesGenerator t None = []" and rwf: "go_wf (it_routesGenerator t (Some d))"
    using assms(2) by (simp_all add: routes_wf_def)
  have "set_entry E None d rs (entry_at t' k) = None" if "(k, rs) \<in> set (it_routesGenerator t (Some d))" for k rs
    using loop(3) [OF refl, of k rs] that assms(4) rwf
    by (auto simp: gm.items_get [symmetric] set_entry_def split: option.splits if_splits)
  then have "fold (set_routes_step E None d) (it_routesGenerator t (Some d)) (t', no_emission) = (t', no_emission)"
    by (intro fold_idle) (auto simp: set_routes_step_eq [OF wf])
  then show ?thesis by (simp add: Internal_SetRoutes_def gen none go_keys_def)
qed

text \<open>
  A desired LRP that is delivered again (by the event stream, or by the watcher's refresh) with the
  same modification tag changes nothing and emits nothing.
\<close>

theorem SetRoutes_replay:
  assumes "wf_routing_table E tls t" "\<not> SucceededBy E (dl_ModificationTag d) (dl_ModificationTag d)"
  shows "SetRoutes E (fst (SetRoutes E t before (Some d))) None (Some d) =
    (fst (SetRoutes E t before (Some d)), no_mappings, no_messages)"
proof -
  obtain h hm hs hc where h: "Internal_SetRoutes E (httpRoutesRoutingTable t) before (Some d) = (h, hm, hs, hc)"
    by (metis surj_pair)
  obtain tc tm ts tcc where tc: "Internal_SetRoutes E (tcpRoutesRoutingTable t) before (Some d) = (tc, tm, ts, tcc)"
    by (metis surj_pair)
  obtain i im il ic where i: "Internal_SetRoutes E (internalRoutesRoutingTable t) before (Some d) = (i, im, il, ic)"
    by (metis surj_pair)
  note wf = wf_routing_table_tables [OF assms(1)] and rwf = wf_routing_table_routes [OF assms(1)]
  have "Internal_SetRoutes E h None (Some d) = (h, no_emission)"
    by (rule Internal_SetRoutes_replay [OF _ rwf(1) h assms(2)]) (use wf in simp)
  moreover have "Internal_SetRoutes E tc None (Some d) = (tc, no_emission)"
    by (rule Internal_SetRoutes_replay [OF _ rwf(2) tc assms(2)]) (use wf in simp)
  moreover have "Internal_SetRoutes E i None (Some d) = (i, no_emission)"
    by (rule Internal_SetRoutes_replay [OF _ rwf(3) i assms(2)]) (use wf in simp)
  ultimately show ?thesis
    by (simp add: SetRoutes_def h tc i no_emission_def merge3_none)
qed

theorem SetRoutes_replay_witness:
  "SetRoutes example_env (fst (SetRoutes example_env example_table None (Some (example_desired ''h2'' 2 2))))
     None (Some (example_desired ''h2'' 2 2)) =
   (fst (SetRoutes example_env example_table None (Some (example_desired ''h2'' 2 2))), no_mappings, no_messages)"
proof (rule SetRoutes_replay [OF wf_example_table])
  show "\<not> SucceededBy example_env (dl_ModificationTag (example_desired ''h2'' 2 2))
      (dl_ModificationTag (example_desired ''h2'' 2 2))" by code_simp
qed

section \<open>Swap\<close>

text \<open>
  The specification of a swap at one key: the endpoints are those of the new table. The routes are
  those of the new table and, when the entry existed and its domain is not fresh, also the old routes
  the new table does not have.
\<close>

definition swap_content :: "internalRoutingTable \<Rightarrow> internalRoutingTable \<Rightarrow> DomainSet \<Rightarrow> RoutingKey \<Rightarrow>
    routeMapping list \<times> (EndpointKey, Endpoint) gomap" where
  "swap_content t u domains k =
     (re_Routes (entry_at u k) @
        (if domains (re_Domain (entry_at t k)) then []
         else filter (\<lambda>r. Hash r \<notin> Hash ` set (re_Routes (entry_at u k))) (re_Routes (entry_at t k))),
      re_Endpoints (entry_at u k))"

lemma swap_entry_content:
  assumes "wf_table u"
  shows "(re_Routes (swap_entry t u domains k), re_Endpoints (swap_entry t u domains k)) = swap_content t u domains k"
proof (cases "go_get (it_entries t) k")
  case None
  then show ?thesis by (simp add: swap_entry_def swap_content_def entry_at_def [of t])
next
  case (Some existing)
  let ?m = "mergeUnfreshRoutes existing (entry_at u k) domains"
  have "(re_Routes (drop_empty ?m), re_Endpoints (drop_empty ?m)) = (re_Routes ?m, re_Endpoints ?m)"
    using same_content_drop_empty [of ?m] by (simp add: same_content_def)
  moreover have "routeExistInNewLRP r en \<longleftrightarrow> Hash r \<in> Hash ` set (re_Routes en)" for r en
    unfolding routeExistInNewLRP_def list_ex_iff image_iff by metis
  ultimately show ?thesis using Some assms
    by (simp add: swap_entry_def swap_content_def entry_at_def [of t] mergeUnfreshRoutes_def Let_def)
qed

lemma Internal_Swap_content:
  assumes "wf_table t" "wf_table u"
  shows "content (fst (Internal_Swap t u domains)) k = swap_content t u domains k"
proof -
  obtain t' m msgs where s: "Internal_Swap t u domains = (t', m, msgs)" by (metis surj_pair)
  show ?thesis
    using Internal_Swap_loop(2) [OF assms s, of k] swap_entry_content [OF assms(2), of t domains k]
    by (simp add: s content_def)
qed

text \<open>
  C18: after a synchronisation every table has, at every key, the endpoints of the freshly read state;
  routes of domains that are fresh are replaced, routes of other domains are kept besides the new ones.
\<close>

theorem Swap_contents:
  assumes "wf_routing_table E tls t" "wf_routing_table E tls u"
  shows "contents (fst (Swap t (Some u) domains)) k =
    [swap_content (httpRoutesRoutingTable t) (httpRoutesRoutingTable u) domains k,
     swap_content (tcpRoutesRoutingTable t) (tcpRoutesRoutingTable u) domains k,
     swap_content (internalRoutesRoutingTable t) (internalRoutesRoutingTable u) domains k]"
proof -
  note wf = wf_routing_table_tables [OF assms(1)] wf_routing_table_tables [OF assms(2)]
  have "fst (Swap t (Some u) domains) =
      \<lparr>tcpRoutesRoutingTable = fst (Internal_Swap (tcpRoutesRoutingTable t) (tcpRoutesRoutingTable u) domains),
       httpRoutesRoutingTable = fst (Internal_Swap (httpRoutesRoutingTable t) (httpRoutesRoutingTable u) domains),
       internalRoutesRoutingTable =
         fst (Internal_Swap (internalRoutesRoutingTable t) (internalRoutesRoutingTable u) domains)\<rparr>"
    by (simp add: Swap_def Let_def split: prod.splits)
  with wf show ?thesis by (simp add: contents_def Internal_Swap_content)
qed

theorem Swap_contents_witness:
  "let u = NewRoutingTable example_env False False in
   contents (fst (Swap example_table (Some u) (\<lambda>d. False))) (NewRoutingKey ''pg'' 8080) =
    [swap_content (httpRoutesRoutingTable example_table) (httpRoutesRoutingTable u) (\<lambda>d. False) (NewRoutingKey ''pg'' 8080),
     swap_content (tcpRoutesRoutingTable example_table) (tcpRoutesRoutingTable u) (\<lambda>d. False) (NewRoutingKey ''pg'' 8080),
     swap_content (internalRoutesRoutingTable example_table) (internalRoutesRoutingTable u) (\<lambda>d. False)
       (NewRoutingKey ''pg'' 8080)]"
  unfolding Let_def by (rule Swap_contents [OF wf_example_table wf_NewRoutingTable])

end
