(* ===== verification/Table_Reading.thy ===== *)
theory Table_Reading
  imports Table_Behaviour
begin

text \<open>
  Reading the routing table: the periodic emission announces every pair of the table and withdraws
  none, the route generators produce what the routing info says, and \<open>HasExternalRoutes\<close> answers
  whether a route is known or panics on a nil port mapping.
\<close>

section \<open>Periodic emission\<close>

lemma emitted_get_events:
  "emitted_of (fold (get_events_step t) xs acc) =
     emitted_of acc \<union> (\<Union>(k, en) \<in> set xs. emitted_of (emitDiffMessages (it_directInstanceRoute t) zero_entry en))"
  by (induction xs arbitrary: acc) (auto simp: get_events_step_def)

lemma zero_entry_agrees: "same_instance_agrees (entry_endpoints zero_entry)"
  by (simp add: same_instance_agrees_def entry_endpoints_def go_values_def)

lemma entry_at_config: "entry_at (config t) k = zero_entry"
  by (simp add: entry_at_def config_def)

lemma Internal_GetRoutingEvents_exact:
  assumes "wf_table t" "agreeing t" "Internal_GetRoutingEvents t = (m, msgs)"
  shows "table_emission_exact (it_directInstanceRoute t) (config t) t (emitted_set m msgs)"
proof -
  let ?d = "it_directInstanceRoute t"
  define F where "F k = (case go_get (it_entries t) k of None \<Rightarrow> {}
    | Some en \<Rightarrow> emitted_of (emitDiffMessages ?d zero_entry en))" for k
  obtain c where fold: "fold (get_events_step t) (it_entries t) no_emission = (m, msgs, c)"
    using assms(3) by (auto simp: Internal_GetRoutingEvents_def split: prod.splits)
  have items: "(k, en) \<in> set (it_entries t) \<longleftrightarrow> go_get (it_entries t) k = Some en" for k en
    using assms(1) by (simp add: wf_table_wf gm.items_get)
  have "emitted_set m msgs = (\<Union>(k, en) \<in> set (it_entries t). emitted_of (emitDiffMessages ?d zero_entry en))"
    using emitted_get_events [of t "it_entries t" no_emission] by (simp add: fold emitted_of_triple)
  also have "\<dots> = (\<Union>k. F k)"
  proof -
    have "x \<in> F k \<longleftrightarrow> (\<exists>en. (k, en) \<in> set (it_entries t) \<and> x \<in> emitted_of (emitDiffMessages ?d zero_entry en))" for x k
      unfolding items by (simp add: F_def split: option.split)
    then show ?thesis by (intro set_eqI) (simp, blast)
  qed
  finally have union: "emitted_set m msgs = (\<Union>k. F k)" .
  have "entry_emission_exact ?d (entry_at (config t) k) (entry_at t k) (F k)" for k
  proof (cases "go_get (it_entries t) k")
    case None
    then show ?thesis by (simp add: F_def entry_at_config entry_at_def [of t] entry_emission_exact_refl)
  next
    case (Some en)
    have "same_instance_agrees (entry_endpoints en)"
      using assms(2) Some by (auto simp: agreeing_def list_all_iff items)
    with Some wf_table_get [OF assms(1) Some] show ?thesis
      by (simp add: F_def entry_at_config entry_at_def [of t] emitDiffMessages_emitted_exact zero_entry_agrees)
  qed
  with union show ?thesis unfolding table_emission_exact_def by blast
qed

lemma exact_from_empty_registers:
  assumes "table_emission_exact d (config t) t X" "x \<in> X"
  shows "\<exists>k. \<exists>r \<in> set (re_Routes (entry_at t k)). \<exists>e \<in> entry_endpoints (entry_at t k). x = reg_item d r e False"
proof -
  from assms obtain F k where F: "x \<in> F k" "entry_emission_exact d (entry_at (config t) k) (entry_at t k) (F k)"
    unfolding table_emission_exact_def by blast
  from F(2) have "\<forall>x \<in> F k. \<exists>r \<in> set (re_Routes (entry_at t k)). \<exists>e \<in> entry_endpoints (entry_at t k).
      x = reg_item d r e False"
    unfolding entry_emission_exact_def entry_at_config zero_entry_sel by fastforce
  with F(1) show ?thesis by blast
qed

lemma exact_from_empty_complete:
  assumes "table_emission_exact d (config t) t X"
    and "r \<in> set (re_Routes (entry_at t k))" "e \<in> entry_endpoints (entry_at t k)"
  shows "\<exists>r' \<in> set (re_Routes (entry_at t k)). \<exists>e' \<in> entry_endpoints (entry_at t k).
    Hash r' = Hash r \<and> endpoint_sig e' = endpoint_sig e \<and> reg_item d r' e' False \<in> X"
proof -
  from assms(1) obtain F where F: "X = (\<Union>k. F k)" "entry_emission_exact d (entry_at (config t) k) (entry_at t k) (F k)"
    unfolding table_emission_exact_def by blast
  have "(Hash r, endpoint_sig e) \<in> entry_view (entry_at t k) - entry_view (entry_at (config t) k)"
    using assms(2,3) by (simp add: entry_view_def entry_at_config)
  with F(2) obtain r' e' where "r' \<in> set (re_Routes (entry_at t k))" "e' \<in> entry_endpoints (entry_at t k)"
    "(Hash r', endpoint_sig e') = (Hash r, endpoint_sig e)"
    "reg_item d r' e' (Hash r' \<in> Hash ` set (re_Routes (entry_at (config t) k))) \<in> F k"
    unfolding entry_emission_exact_def by blast
  with F(1) show ?thesis by (auto simp: entry_at_config)
qed

text \<open>
  What the two external tables announce: each item registers a pair of one of the tables, without a
  time stamp, and every pair of the tables is registered.
\<close>

definition announces :: "internalRoutingTable \<Rightarrow> emitted set \<Rightarrow> bool" where
  "announces t X =
     ((\<forall>x \<in> X. \<exists>k. \<exists>r \<in> set (re_Routes (entry_at t k)). \<exists>e \<in> entry_endpoints (entry_at t k).
         x = reg_item (it_directInstanceRoute t) r e False) \<and>
      (\<forall>k. \<forall>r \<in> set (re_Routes (entry_at t k)). \<forall>e \<in> entry_endpoints (entry_at t k).
         \<exists>r' \<in> set (re_Routes (entry_at t k)). \<exists>e' \<in> entry_endpoints (entry_at t k).
           Hash r' = Hash r \<and> endpoint_sig e' = endpoint_sig e \<and> reg_item (it_directInstanceRoute t) r' e' False \<in> X))"

lemma Internal_GetRoutingEvents_announces:
  assumes "wf_table t" "agreeing t" "Internal_GetRoutingEvents t = (m, msgs)"
  shows "announces t (emitted_set m msgs)"
  unfolding announces_def
  using exact_from_empty_registers [OF Internal_GetRoutingEvents_exact [OF assms]]
    exact_from_empty_complete [OF Internal_GetRoutingEvents_exact [OF assms]]
  by blast

lemma announces_no_unregistration:
  assumes "announces t (emitted_set m msgs)"
  shows "Unregistrations m = [] \<and> UnregistrationMessages msgs = [] \<and> InternalUnregistrationMessages msgs = []"
proof -
  have "x \<noteq> Unregister y \<and> x \<noteq> InternalUnregister y \<and> x \<noteq> DeleteTcp z" if "x \<in> emitted_set m msgs" for x y z
  proof -
    from that assms obtain d r e where "x = reg_item d r e False" unfolding announces_def by blast
    then show ?thesis by (cases r) auto
  qed
  then have none: "Unregister y \<notin> emitted_set m msgs" "InternalUnregister y \<notin> emitted_set m msgs"
    "DeleteTcp z \<notin> emitted_set m msgs" for y z by blast+
  have "y \<notin> set (UnregistrationMessages msgs)" "y \<notin> set (InternalUnregistrationMessages msgs)"
    "z \<notin> set (Unregistrations m)" for y z
    using none(1) [of y] none(2) [of y] none(3) [of z] by (auto simp: emitted_set_def)
  then show ?thesis by (metis list.set_intros(1) neq_Nil_conv)
qed

lemma GetExternalRoutingEvents_announces:
  assumes "wf_routing_table E tls t" "agreeing_table t" "GetExternalRoutingEvents t = (m, msgs)"
  obtains hm hs tm ts where "m = TCPRouteMappings_Merge hm tm" "msgs = MessagesToEmit_Merge hs ts"
    "emitted_set m msgs = emitted_set hm hs \<union> emitted_set tm ts"
    "announces (httpRoutesRoutingTable t) (emitted_set hm hs)" "announces (tcpRoutesRoutingTable t) (emitted_set tm ts)"
proof -
  obtain hm hs where h: "Internal_GetRoutingEvents (httpRoutesRoutingTable t) = (hm, hs)" by (metis surj_pair)
  obtain tm ts where t: "Internal_GetRoutingEvents (tcpRoutesRoutingTable t) = (tm, ts)" by (metis surj_pair)
  have out: "m = TCPRouteMappings_Merge hm tm" "msgs = MessagesToEmit_Merge hs ts"
    using assms(3) by (simp_all add: GetExternalRoutingEvents_def h t)
  note wf = wf_routing_table_tables [OF assms(1)]
  have H: "announces (httpRoutesRoutingTable t) (emitted_set hm hs)"
    using wf assms(2) by (intro Internal_GetRoutingEvents_announces [OF _ _ h]) (simp_all add: agreeing_table_def)
  have T: "announces (tcpRoutesRoutingTable t) (emitted_set tm ts)"
    using wf assms(2) by (intro Internal_GetRoutingEvents_announces [OF _ _ t]) (simp_all add: agreeing_table_def)
  have X: "emitted_set m msgs = emitted_set hm hs \<union> emitted_set tm ts"
    by (auto simp: out emitted_set_def TCPRouteMappings_Merge_def MessagesToEmit_Merge_def)
  from out X H T show ?thesis by (rule that)
qed

lemma GetInternalRoutingEvents_announces:
  assumes "wf_routing_table E tls t" "agreeing_table t" "GetInternalRoutingEvents t = (m, msgs)"
  shows "announces (internalRoutesRoutingTable t) (emitted_set m msgs)"
  using assms wf_routing_table_tables [OF assms(1)]
  by (intro Internal_GetRoutingEvents_announces) (simp_all add: agreeing_table_def GetInternalRoutingEvents_def)

text \<open>
  The periodic external emission registers every HTTP and TCP pair of the table, nothing else, and
  unregisters nothing.
\<close>

theorem GetExternalRoutingEvents_complete:
  assumes "wf_routing_table E tls t" "agreeing_table t" "GetExternalRoutingEvents t = (m, msgs)"
  shows "(\<exists>H T. emitted_set m msgs = H \<union> T \<and> announces (httpRoutesRoutingTable t) H \<and>
      announces (tcpRoutesRoutingTable t) T) \<and>
    Unregistrations m = [] \<and> UnregistrationMessages msgs = [] \<and> InternalUnregistrationMessages msgs = []"
proof -
  obtain hm hs tm ts where out: "m = TCPRouteMappings_Merge hm tm" "msgs = MessagesToEmit_Merge hs ts"
    and X: "emitted_set m msgs = emitted_set hm hs \<union> emitted_set tm ts"
    and H: "announces (httpRoutesRoutingTable t) (emitted_set hm hs)"
    and T: "announces (tcpRoutesRoutingTable t) (emitted_set tm ts)"
    using GetExternalRoutingEvents_announces [OF assms] by metis
  with announces_no_unregistration [OF H] announces_no_unregistration [OF T] show ?thesis
    by (auto simp: out TCPRouteMappings_Merge_def MessagesToEmit_Merge_def)
qed

theorem GetExternalRoutingEvents_complete_witness:
  "\<exists>m msgs. GetExternalRoutingEvents example_table = (m, msgs) \<and> UnregistrationMessages msgs = [] \<and>
    map rm_URIs (RegistrationMessages msgs) = [[''h1'']]"
proof -
  obtain m msgs where g: "GetExternalRoutingEvents example_table = (m, msgs)" by (metis surj_pair)
  have "map rm_URIs (RegistrationMessages (snd (GetExternalRoutingEvents example_table))) = [[''h1'']]"
    by code_simp
  with GetExternalRoutingEvents_complete [OF wf_example_table agreeing_example_table g] g show ?thesis by simp
qed

section \<open>HasExternalRoutes\<close>

text \<open>The ports of a mapping whose keys are looked up.\<close>

definition lookup_ports :: "PortMapping \<Rightarrow> uint32 set" where
  "lookup_ports pm = {pm_ContainerPort pm} \<union>
     (if pm_HostTlsProxyPort pm \<noteq> 0 \<and> pm_ContainerTlsProxyPort pm \<noteq> 0 then {pm_ContainerTlsProxyPort pm} else {})"

lemma routing_keys_for_ports_set:
  "routing_keys_for_ports guid ports = Some ks \<Longrightarrow>
     set ks = (\<Union>pm \<in> {pm. Some pm \<in> set ports}. NewRoutingKey guid ` lookup_ports pm)"
proof (induction guid ports arbitrary: ks rule: routing_keys_for_ports.induct)
  case (3 guid pm ports)
  then obtain keys where "routing_keys_for_ports guid ports = Some keys" by (auto split: option.splits)
  with 3 show ?case by (auto simp: lookup_ports_def split: if_splits)
qed auto

text \<open>
  C27: \<open>HasExternalRoutes\<close> panics exactly when the port list has a nil entry, which \<open>AddEndpoint\<close> and
  \<open>RemoveEndpoint\<close> tolerate; otherwise it tells whether the HTTP or the TCP table has a route for the
  container port, or for the container TLS port, of one of the ports.
\<close>

theorem HasExternalRoutes_spec:
  "HasExternalRoutes t a =
     (if None \<in> set (al_Ports a) then None
      else Some (\<exists>pm. Some pm \<in> set (al_Ports a) \<and> (\<exists>p \<in> lookup_ports pm.
        re_Routes (entry_at (httpRoutesRoutingTable t) (NewRoutingKey (al_ProcessGuid a) p)) @
        re_Routes (entry_at (tcpRoutesRoutingTable t) (NewRoutingKey (al_ProcessGuid a) p)) \<noteq> [])))"
proof (cases "NewRoutingKeysFromActual a")
  case None
  then have "None \<in> set (al_Ports a)"
    by (simp add: NewRoutingKeysFromActual_def routing_keys_for_ports_None)
  with None show ?thesis by (simp add: HasExternalRoutes_def Internal_HasExternalRoutes_def)
next
  case (Some ks)
  then have nil: "None \<notin> set (al_Ports a)"
    using routing_keys_for_ports_None [of "al_ProcessGuid a" "al_Ports a"]
    by (simp add: NewRoutingKeysFromActual_def)
  have keys: "set ks = (\<Union>pm \<in> {pm. Some pm \<in> set (al_Ports a)}. NewRoutingKey (al_ProcessGuid a) ` lookup_ports pm)"
    using Some by (intro routing_keys_for_ports_set) (simp add: NewRoutingKeysFromActual_def)
  have ex: "list_ex (\<lambda>key. re_Routes (entry_at u key) \<noteq> []) ks \<longleftrightarrow>
      (\<exists>pm. Some pm \<in> set (al_Ports a) \<and> (\<exists>p \<in> lookup_ports pm.
        re_Routes (entry_at u (NewRoutingKey (al_ProcessGuid a) p)) \<noteq> []))" for u
    by (auto simp: list_ex_iff keys)
  show ?thesis
    using nil unfolding HasExternalRoutes_def Internal_HasExternalRoutes_def Some option.case length_greater_0_conv ex
    by (auto split: bool.split)
qed

end
