(* ===== verification/Table_Kinds.thy ===== *)
theory Table_Kinds
  imports Table_Reading
begin

text \<open>
  The route generators, and the invariant they give: the HTTP table holds HTTP routes only, the TCP
  table TCP routes only and the internal table internal routes only, whatever the history.
\<close>

section \<open>The generators\<close>

text \<open>
  The route generators group the routes of the routing info by container port (internal routes
  under port 0), one route per host name, in the order of the info, and add nothing.
\<close>

theorem route_generators_spec:
  "go_get (httpRoutesFrom E (Some l)) k =
     (case dl_Routes l of None \<Rightarrow> None | Some info \<Rightarrow>
        (let rs = filter (\<lambda>r. NewRoutingKey (dl_ProcessGuid l) (cf_Port r) = k) (fst (CFRoutesFromRoutingInfo E info)) in
         if rs = [] then None else Some (concat (map (\<lambda>r. map (http_route_for l r) (cf_Hostnames r)) rs)))) \<and>
   go_get (tcpRoutesFrom E tls (Some l)) k =
     (let rs = filter (\<lambda>r. NewRoutingKey (dl_ProcessGuid l) (tcp_ContainerPort r) = k)
        (fst (TCPRoutesFromRoutingInfo E (dl_Routes l))) in
      if rs = [] then None else Some (map (\<lambda>r. TCPRouteM \<lparr>eei_RouterGroupGUID = tcp_RouterGroupGuid r,
        eei_Port = tcp_ExternalPort r, eei_TLSEnabled = tls\<rparr>) rs)) \<and>
   go_get (internalRoutesFrom E (Some l)) k =
     (case dl_Routes l of None \<Rightarrow> None | Some info \<Rightarrow>
        (let rs = fst (InternalRoutesFromRoutingInfo E info) in
         if rs \<noteq> [] \<and> k = NewRoutingKey (dl_ProcessGuid l) 0
         then Some (map (\<lambda>r. InternalRouteM \<lparr>ir_Hostname = iri_Hostname r, ir_ContainerIP = '''',
           ir_LogGUID = dl_LogGuid l\<rparr>) rs)
         else None))"
  by (auto simp: httpRoutesFrom_def tcpRoutesFrom_def internalRoutesFrom_def go_get_fold_append NewRoutingKey_def
      Let_def filter_empty_conv concat_map_singleton split: option.splits)

section \<open>An invariant of all entries through a loop\<close>

context entry_loop
begin

lemma loop_entries:
  assumes "ok t" "\<And>k. Q (entry_at t k)" "fold step xs (t, res) = (t', res')"
    and "\<And>t x s. ok t \<Longrightarrow> (\<And>k. Q (entry_at t k)) \<Longrightarrow> x \<in> set xs \<Longrightarrow> succ x t = Some s \<Longrightarrow> Q (entry_at s (key x))"
  shows "Q (entry_at t' k)"
  using assms
proof (induction xs arbitrary: t res)
  case Nil
  then show ?case by simp
next
  case (Cons x xs)
  from step_cases [OF Cons.prems(1), of x res] obtain s res1 where
    s: "step x (t, res) = (s, res1)" "ok s" "\<And>k. k \<noteq> key x \<Longrightarrow> entry_at s k = entry_at t k"
      "entry_at s (key x) = outcome x t" by metis
  have "Q (outcome x t)"
    using Cons.prems(2) Cons.prems(4) [OF Cons.prems(1,2)] by (auto simp: outcome_def split: option.splits)
  then have "Q (entry_at s k)" for k using s(3,4) Cons.prems(2) by (cases "k = key x") auto
  moreover have "fold step xs (s, res1) = (t', res')" using Cons.prems(3) s(1) by simp
  ultimately show ?case using Cons.prems(4) by (intro Cons.IH [OF s(2)]) auto
qed

end

section \<open>Kinds of routes\<close>

fun is_http :: "routeMapping \<Rightarrow> bool" where
  "is_http (HTTPRouteM _) = True"
| "is_http _ = False"

fun is_tcp :: "routeMapping \<Rightarrow> bool" where
  "is_tcp (TCPRouteM _) = True"
| "is_tcp _ = False"

fun is_internal :: "routeMapping \<Rightarrow> bool" where
  "is_internal (InternalRouteM _) = True"
| "is_internal _ = False"

definition routes_all :: "(routeMapping \<Rightarrow> bool) \<Rightarrow> internalRoutingTable \<Rightarrow> bool" where
  "routes_all P t = (\<forall>k. list_all P (re_Routes (entry_at t k)))"

definition generates :: "(routeMapping \<Rightarrow> bool) \<Rightarrow> internalRoutingTable \<Rightarrow> bool" where
  "generates P t = (\<forall>lrp k rs. (k, rs) \<in> set (it_routesGenerator t lrp) \<longrightarrow> list_all P rs)"

lemma routes_all_drop_empty [simp]: "re_Routes (drop_empty en) = re_Routes en"
  by (simp add: drop_empty_def)

lemma add_entry_routes: "add_entry E e en = Some en' \<Longrightarrow> re_Routes en' = re_Routes en"
  by (auto simp: add_entry_def split: if_splits)

lemma remove_entry_routes: "remove_entry E e en = Some en' \<Longrightarrow> re_Routes en' = re_Routes en"
  by (auto simp: remove_entry_def split: if_splits option.splits)

lemma routes_all_add:
  assumes "wf_table t" "routes_all P t" "Internal_AddEndpoint E t a = ((t', res), counters)"
  shows "routes_all P t'"
proof -
  obtain addrs where fold: "fold (add_endpoint_step E a) (it_endpointGenerator t a)
      (t\<lparr>it_addressEntries := addrs\<rparr>, no_emission) = (t', res)"
    using assms(3) by (auto simp: Internal_AddEndpoint_def Let_def split: prod.splits)
  have "list_all P (re_Routes (entry_at t' k))" for k
    by (rule add_loop.loop_entries [where c = "config t" and Q = "\<lambda>en. list_all P (re_Routes en)", OF _ _ fold])
      (use assms(1,2) in \<open>auto simp: table_ok_def routes_all_def put_visit_def dest: add_entry_routes\<close>)
  then show ?thesis by (simp add: routes_all_def)
qed

lemma routes_all_remove:
  assumes "wf_table t" "routes_all P t" "Internal_RemoveEndpoint E t a = (t', res)"
  shows "routes_all P t'"
proof -
  have fold: "fold (remove_endpoint_step E a) (it_endpointGenerator t a)
      (t\<lparr>it_addressEntries := remove_addresses t (it_endpointGenerator t a)\<rparr>, no_emission) = (t', res)"
    using assms(3) by (simp add: Internal_RemoveEndpoint_def Let_def)
  have "list_all P (re_Routes (entry_at t' k))" for k
    by (rule remove_loop.loop_entries [where c = "config t" and Q = "\<lambda>en. list_all P (re_Routes en)", OF _ _ fold])
      (use assms(1,2) in \<open>auto simp: table_ok_def routes_all_def drop_visit_def entry_at_put_delete
        dest: remove_entry_routes\<close>)
  then show ?thesis by (simp add: routes_all_def)
qed

lemma routes_all_set:
  assumes "wf_table t" "routes_wf t" "routes_all P t" "generates P t" "Internal_SetRoutes E t before after = (t', res)"
  shows "routes_all P t'"
proof -
  note loop = Internal_SetRoutes_loop [OF assms(1,2,5)]
  have old: "list_all P (re_Routes (entry_at t k))" for k using assms(3) by (simp add: routes_all_def)
  have none: "go_get (it_routesGenerator t None) k = None" for k using assms(2) by (simp add: routes_wf_def)
  have "list_all P (re_Routes (entry_at t' k))" for k
  proof (cases "go_get (it_routesGenerator t after) k")
    case (Some rs)
    then obtain a where a: "after = Some a" using none by (cases after) auto
    have "(k, rs) \<in> set (it_routesGenerator t after)"
      using Some assms(2) by (simp add: routes_wf_def gm.items_get)
    then have "list_all P rs" using assms(4) by (auto simp: generates_def)
    with loop(3) [OF a Some] old [of k] show ?thesis
      by (auto simp: set_entry_def split: if_splits)
  next
    case None
    with loop(2) [OF None] loop(4) [OF None] old [of k] show ?thesis
      by (cases "go_get (it_routesGenerator t before) k") (auto simp: clear_entry_def split: option.splits if_splits)
  qed
  then show ?thesis by (simp add: routes_all_def)
qed

lemma routes_all_swap:
  assumes "wf_table t" "wf_table u" "routes_all P t" "routes_all P u" "Internal_Swap t u domains = (t', m, msgs)"
  shows "routes_all P t'"
proof -
  have "re_Routes (entry_at t' k) = fst (swap_content t u domains k)" for k
    using Internal_Swap_content [OF assms(1,2), of domains k] assms(5) by (simp add: content_def prod_eq_iff)
  with assms(3,4) show ?thesis by (auto simp: routes_all_def swap_content_def list_all_iff)
qed

definition kinds_ok :: "routingTable \<Rightarrow> bool" where
  "kinds_ok t = (routes_all is_http (httpRoutesRoutingTable t) \<and> routes_all is_tcp (tcpRoutesRoutingTable t) \<and>
     routes_all is_internal (internalRoutesRoutingTable t))"

lemma fold_append_all:
  assumes "\<And>x. list_all P (rs x)" "\<And>k r. (k, r) \<in> set m \<Longrightarrow> list_all P r" "go_wf m"
    "(k, r) \<in> set (fold (\<lambda>x. append_routes (key x) (rs x)) xs m)"
  shows "list_all P r"
proof -
  have "go_get (fold (\<lambda>x. append_routes (key x) (rs x)) xs m) k = Some r"
    using assms(3,4) by (simp add: gm.items_get go_wf_fold_append)
  moreover have "list_all P q" if "go_get m k = Some q" for q
    using that assms(2,3) gm.items_get [of m k q] by blast
  ultimately show ?thesis
    using assms(1) by (auto simp: go_get_fold_append list_all_iff split: if_splits option.splits)
qed

lemma generators_kinds:
  assumes "wf_routing_table E tls t"
  shows "generates is_http (httpRoutesRoutingTable t)" "generates is_tcp (tcpRoutesRoutingTable t)"
    "generates is_internal (internalRoutesRoutingTable t)"
proof -
  have "list_all is_http r" if "(k, r) \<in> set (httpRoutesFrom E lrp)" for k r lrp
    using that by (auto simp: httpRoutesFrom_def list_all_iff http_route_for_def split: option.splits
        dest!: fold_append_all [where P = is_http, rotated -1])
  then show "generates is_http (httpRoutesRoutingTable t)"
    using assms by (auto simp: generates_def wf_routing_table_def)
  have "list_all is_tcp r" if "(k, r) \<in> set (tcpRoutesFrom E tls lrp)" for k r lrp
    using that by (auto simp: tcpRoutesFrom_def list_all_iff split: option.splits
        dest!: fold_append_all [where P = is_tcp, rotated -1])
  then show "generates is_tcp (tcpRoutesRoutingTable t)"
    using assms by (auto simp: generates_def wf_routing_table_def)
  have "list_all is_internal r" if "(k, r) \<in> set (internalRoutesFrom E lrp)" for k r lrp
    using that by (auto simp: internalRoutesFrom_def list_all_iff split: option.splits
        dest!: fold_append_all [where P = is_internal, rotated -1])
  then show "generates is_internal (internalRoutesRoutingTable t)"
    using assms by (auto simp: generates_def wf_routing_table_def)
qed

lemma kinds_AddEndpoint:
  assumes "wf_routing_table E tls t" "kinds_ok t"
  shows "kinds_ok (fst (AddEndpoint E t a))"
proof -
  obtain h hm hs hc c1 where h: "Internal_AddEndpoint E (httpRoutesRoutingTable t) a = ((h, hm, hs, hc), c1)"
    by (metis surj_pair)
  obtain tc tm ts tcc c2 where tc: "Internal_AddEndpoint E (tcpRoutesRoutingTable t) a = ((tc, tm, ts, tcc), c2)"
    by (metis surj_pair)
  obtain i im il ic c3 where i: "Internal_AddEndpoint E (internalRoutesRoutingTable t) a = ((i, im, il, ic), c3)"
    by (metis surj_pair)
  show ?thesis
    unfolding AddEndpoint_tables [OF h tc i]
    using wf_routing_table_tables [OF assms(1)] assms(2) routes_all_add [OF _ _ h] routes_all_add [OF _ _ tc]
      routes_all_add [OF _ _ i] by (simp add: kinds_ok_def)
qed

lemma kinds_RemoveEndpoint:
  assumes "wf_routing_table E tls t" "kinds_ok t"
  shows "kinds_ok (fst (RemoveEndpoint E t a))"
proof -
  obtain h hm hs hc where h: "Internal_RemoveEndpoint E (httpRoutesRoutingTable t) a = (h, hm, hs, hc)"
    by (metis surj_pair)
  obtain tc tm ts tcc where tc: "Internal_RemoveEndpoint E (tcpRoutesRoutingTable t) a = (tc, tm, ts, tcc)"
    by (metis surj_pair)
  obtain i im il ic where i: "Internal_RemoveEndpoint E (internalRoutesRoutingTable t) a = (i, im, il, ic)"
    by (metis surj_pair)
  show ?thesis
    unfolding RemoveEndpoint_tables [OF h tc i]
    using wf_routing_table_tables [OF assms(1)] assms(2) routes_all_remove [OF _ _ h] routes_all_remove [OF _ _ tc]
      routes_all_remove [OF _ _ i] by (simp add: kinds_ok_def)
qed

lemma kinds_SetRoutes:
  assumes "wf_routing_table E tls t" "kinds_ok t"
  shows "kinds_ok (fst (SetRoutes E t before after))"
proof -
  obtain h hm hs hc where h: "Internal_SetRoutes E (httpRoutesRoutingTable t) before after = (h, hm, hs, hc)"
    by (metis surj_pair)
  obtain tc tm ts tcc where tc: "Internal_SetRoutes E (tcpRoutesRoutingTable t) before after = (tc, tm, ts, tcc)"
    by (metis surj_pair)
  obtain i im il ic where i: "Internal_SetRoutes E (internalRoutesRoutingTable t) before after = (i, im, il, ic)"
    by (metis surj_pair)
  note rwf = wf_routing_table_routes [OF assms(1)] and gen = generators_kinds [OF assms(1)]
  show ?thesis
    using wf_routing_table_tables [OF assms(1)] assms(2) routes_all_set [OF _ rwf(1) _ gen(1) h]
      routes_all_set [OF _ rwf(2) _ gen(2) tc] routes_all_set [OF _ rwf(3) _ gen(3) i]
    by (simp add: SetRoutes_def h tc i kinds_ok_def)
qed

lemma kinds_Swap:
  assumes "wf_routing_table E tls t" "kinds_ok t" "wf_routing_table E tls u" "kinds_ok u"
  shows "kinds_ok (fst (Swap t (Some u) domains))"
proof -
  obtain h hm hs where h: "Internal_Swap (httpRoutesRoutingTable t) (httpRoutesRoutingTable u) domains = (h, hm, hs)"
    by (metis surj_pair)
  obtain tc tm ts where tc: "Internal_Swap (tcpRoutesRoutingTable t) (tcpRoutesRoutingTable u) domains = (tc, tm, ts)"
    by (metis surj_pair)
  obtain i im il where
    i: "Internal_Swap (internalRoutesRoutingTable t) (internalRoutesRoutingTable u) domains = (i, im, il)"
    by (metis surj_pair)
  show ?thesis
    using wf_routing_table_tables [OF assms(1)] wf_routing_table_tables [OF assms(3)] assms(2,4)
      routes_all_swap [OF _ _ _ _ h] routes_all_swap [OF _ _ _ _ tc] routes_all_swap [OF _ _ _ _ i]
    by (simp add: Swap_def h tc i kinds_ok_def)
qed

lemma kinds_NewRoutingTable: "kinds_ok (NewRoutingTable E direct tls)"
  by (simp add: kinds_ok_def routes_all_def NewRoutingTable_def entry_at_def)

lemma history_kinds:
  "wf_routing_table E tls t \<Longrightarrow> kinds_ok t \<Longrightarrow> kinds_ok (fst (apply_op E tls x t))"
  "wf_routing_table E tls t \<Longrightarrow> kinds_ok t \<Longrightarrow> kinds_ok (run_ops E tls ops t)"
proof (induction E tls x t and E tls ops t rule: apply_op_run_ops.induct)
  case (1 E tls a t)
  then show ?case using kinds_AddEndpoint [of E tls t a] by (auto split: prod.splits)
next
  case (5 E tls ops domains t)
  then show ?case
    by (simp add: kinds_Swap kinds_NewRoutingTable wf_NewRoutingTable apply_op_run_ops_wf(2))
next
  case (8 E tls x ops t)
  then show ?case by (simp add: apply_op_run_ops_wf(1))
qed (auto simp: RemoveRoutes_SetRoutes kinds_RemoveEndpoint kinds_SetRoutes Swap_def [of _ None])

text \<open>
  C32: in every table any sequence of calls reaches, well formed or stale as its events may be, every entry is
  stored under its own keys and the three tables hold only routes of their kind, so the HTTP table never
  yields a TCP mapping and the internal table never an external registration.
\<close>

theorem reachable_kinds:
  "wf_routing_table E tls (run_ops E tls ops (NewRoutingTable E direct tls)) \<and>
   kinds_ok (run_ops E tls ops (NewRoutingTable E direct tls))"
  by (simp add: history_kinds(2) [OF wf_NewRoutingTable kinds_NewRoutingTable] apply_op_run_ops_wf(2) [OF wf_NewRoutingTable])

section \<open>Messages\<close>


text \<open>
  C36: the ports of a TCP route mapping are the 32 bit ports reduced to 16 bits: they are the same
  number exactly when the port is below 65536, and wrap silently otherwise.
\<close>

theorem tcp_mapping_ports:
  "let m = ExternalEndpointInfo_MessageFor info e direct;
       port = (if IsDirectInstanceRoute e direct then ep_ContainerPort e else ep_Port e) in
   unat (trm_ExternalPort m) = unat (eei_Port info) mod 65536 \<and>
   unat (trm_HostPort m) = unat port mod 65536 \<and>
   (unat (trm_ExternalPort m) = unat (eei_Port info)) = (unat (eei_Port info) < 65536) \<and>
   (trm_HostTLSPort m = -1) = (\<not> eei_TLSEnabled info)"
proof -
  have cast: "unat (ucast w :: uint16) = unat w mod 65536" for w :: uint32
    by (simp add: unsigned_ucast_eq take_bit_eq_mod)
  have "m mod 65536 = m \<longleftrightarrow> m < 65536" for m :: nat
    using mod_less_divisor [of 65536 m] mod_less [of m 65536] by auto
  moreover have "uint w \<noteq> -1" for w :: uint32 using uint_ge_0 [of w] by linarith
  ultimately show ?thesis
    by (simp add: ExternalEndpointInfo_MessageFor_def Let_def cast)
qed

end
