(* ===== verification/Table_Addresses.thy ===== *)
theory Table_Addresses
  imports Table_Kinds
begin

text \<open>
  The address map of the HTTP table and its collision counter, and three behaviours at the edge of the
  routing table, each shown on a concrete history: a synchronisation fills the address map with host
  addresses even when instances are registered by container address, an entry that was created by an
  instance event keeps the empty domain for good, and the two records of one instance share a key in
  the diff.
\<close>

section \<open>Ownership of addresses\<close>

definition owner :: "(Address, EndpointKey) gomap \<Rightarrow> Address \<Rightarrow> string option" where
  "owner m x = map_option ek_InstanceGUID (go_get m x)"

lemma fold_collision_step:
  assumes "\<And>e. e \<in> set es \<Longrightarrow> ep_InstanceGUID e = g"
  shows "(\<forall>x. owner (fst (fold (collision_step t) es (m, cs))) x =
      (if x \<in> it_addressGenerator t ` set es then Some g else owner m x)) \<and>
    (snd (fold (collision_step t) es (m, cs)) = cs \<longleftrightarrow>
      (\<forall>e \<in> set es. owner m (it_addressGenerator t e) \<in> {None, Some g})) \<and>
    (\<exists>more. snd (fold (collision_step t) es (m, cs)) = cs @ more)"
  using assms
proof (induction es arbitrary: m cs)
  case Nil
  then show ?case by simp
next
  case (Cons e es)
  let ?x = "it_addressGenerator t e"
  define m1 where "m1 = go_put m ?x (endpoint_key e)"
  define col where "col = (owner m ?x \<notin> {None, Some g})"
  define cs1 where "cs1 = (if col then cs @ [addressCollisionsCounter] else cs)"
  have g: "ep_InstanceGUID e = g" using Cons.prems by simp
  have step: "collision_step t e (m, cs) = (m1, cs1)"
    using g by (auto simp: collision_step_def m1_def cs1_def col_def owner_def split: option.splits)
  have own: "owner m1 x = (if x = ?x then Some g else owner m x)" for x
    using g by (simp add: m1_def owner_def endpoint_key_def)
  have IH: "(\<forall>x. owner (fst (fold (collision_step t) es (m1, cs1))) x =
      (if x \<in> it_addressGenerator t ` set es then Some g else owner m1 x)) \<and>
    (snd (fold (collision_step t) es (m1, cs1)) = cs1 \<longleftrightarrow>
      (\<forall>e \<in> set es. owner m1 (it_addressGenerator t e) \<in> {None, Some g})) \<and>
    (\<exists>more. snd (fold (collision_step t) es (m1, cs1)) = cs1 @ more)"
    using Cons.prems by (intro Cons.IH) simp
  have "(\<forall>e \<in> set es. owner m1 (it_addressGenerator t e) \<in> {None, Some g}) \<longleftrightarrow>
      (\<forall>e \<in> set es. it_addressGenerator t e = ?x \<or> owner m (it_addressGenerator t e) \<in> {None, Some g})"
    by (auto simp: own)
  with IH show ?case
    by (auto simp: step own cs1_def col_def simp del: insert_iff split: if_splits)
qed

lemma addresses_of_add_loop:
  "it_addressEntries (fst (fold (add_endpoint_step E a) es s)) = it_addressEntries (fst s)"
  by (induction es arbitrary: s)
    (auto simp: add_endpoint_step_def Let_def put_entry_def split: prod.splits option.splits)

lemma addresses_of_remove_loop:
  "it_addressEntries (fst (fold (remove_endpoint_step E a) es s)) = it_addressEntries (fst s)"
  by (induction es arbitrary: s)
    (auto simp: remove_endpoint_step_def Let_def put_entry_def deleteEntryIfEmpty_def
      split: prod.splits option.splits)

lemma guid_of_endpoints: "e \<in> set (NewEndpointsFromActual a) \<Longrightarrow> ep_InstanceGUID e = al_InstanceGuid a"
  by (auto simp: NewEndpointsFromActual_def set_endpoints_for_ports endpoint_for_port_def)

text \<open>
  C26: adding an instance to a table that watches addresses makes it the owner of each of its
  addresses and leaves all other addresses alone; the collision counter goes up exactly when one of
  the addresses belonged to another instance.
\<close>

theorem AddEndpoint_addresses:
  assumes "\<not> it_suppressAddressCollision t" "it_endpointGenerator t = NewEndpointsFromActual"
    and "Internal_AddEndpoint E t a = ((t', res), counters)"
  shows "owner (it_addressEntries t') x =
      (if x \<in> it_addressGenerator t ` set (NewEndpointsFromActual a) then Some (al_InstanceGuid a)
       else owner (it_addressEntries t) x) \<and>
    (counters \<noteq> [] \<longleftrightarrow> (\<exists>e \<in> set (NewEndpointsFromActual a). \<exists>g. g \<noteq> al_InstanceGuid a \<and>
      owner (it_addressEntries t) (it_addressGenerator t e) = Some g))"
proof -
  obtain m cs where d: "fold (collision_step t) (NewEndpointsFromActual a) (it_addressEntries t, []) = (m, cs)"
    by (metis surj_pair)
  have out: "counters = cs" "it_addressEntries t' = m"
    using assms(3) addresses_of_add_loop [of E a "NewEndpointsFromActual a" "(t\<lparr>it_addressEntries := m\<rparr>, no_emission)"]
    by (auto simp: Internal_AddEndpoint_def detect_collisions_def assms(1,2) d)
  note F = fold_collision_step [of "NewEndpointsFromActual a" "al_InstanceGuid a" t "it_addressEntries t" "[]",
      OF guid_of_endpoints, simplified d fst_conv snd_conv]
  show ?thesis
    using F unfolding out by (auto simp: not_None_eq) blast+
qed

lemma fold_remove_address:
  assumes "\<And>e. e \<in> set es \<Longrightarrow> ep_InstanceGUID e = g"
  shows "owner (fold (remove_address_step t) es m) x =
    (if x \<in> it_addressGenerator t ` set es \<and> owner m x = Some g then None else owner m x)"
  using assms
proof (induction es arbitrary: m)
  case Nil
  then show ?case by simp
next
  case (Cons e es)
  have "owner (remove_address_step t e m) y = (if y = it_addressGenerator t e \<and> owner m y = Some g then None else owner m y)" for y
    using Cons.prems [of e] by (auto simp: remove_address_step_def Let_def owner_def split: option.splits)
  with Cons show ?case by auto
qed

theorem AddEndpoint_addresses_witness:
  "owner (it_addressEntries (fst (fst (Internal_AddEndpoint example_env (httpRoutesRoutingTable example_table)
       (example_actual ''ig2'' 1 ActualLRP_Ordinary 1))))) \<lparr>addr_Host = ''1.1.1.1'', addr_Port = 61001\<rparr> = Some ''ig2'' \<and>
   snd (Internal_AddEndpoint example_env (httpRoutesRoutingTable example_table)
       (example_actual ''ig2'' 1 ActualLRP_Ordinary 1)) \<noteq> []"
proof -
  let ?t = "httpRoutesRoutingTable example_table" and ?a = "example_actual ''ig2'' 1 ActualLRP_Ordinary 1"
  let ?x = "\<lparr>addr_Host = ''1.1.1.1'', addr_Port = 61001\<rparr> :: Address"
  have guid: "al_InstanceGuid ?a = ''ig2''" by (simp add: example_actual_def)
  have guids_differ: "''ig1'' \<noteq> ''ig2''" by simp
  obtain t' res cs where r: "Internal_AddEndpoint example_env ?t ?a = ((t', res), cs)" by (metis surj_pair)
  have sup: "\<not> it_suppressAddressCollision ?t" by code_simp
  have gen: "it_endpointGenerator ?t = NewEndpointsFromActual"
    using wf_example_table by (simp add: wf_routing_table_def)
  have "?x \<in> it_addressGenerator ?t ` set (NewEndpointsFromActual ?a)" by code_simp
  moreover have "list_ex (\<lambda>e. owner (it_addressEntries ?t) (it_addressGenerator ?t e) = Some ''ig1'') (NewEndpointsFromActual ?a)"
    by code_simp
  then have "\<exists>e \<in> set (NewEndpointsFromActual ?a). \<exists>g. g \<noteq> al_InstanceGuid ?a \<and>
      owner (it_addressEntries ?t) (it_addressGenerator ?t e) = Some g"
    unfolding guid list_ex_iff by (metis guids_differ)
  ultimately show ?thesis
    using AddEndpoint_addresses [OF sup gen r, of ?x] by (simp add: r guid)
qed

text \<open>
  Removing an instance frees exactly the addresses it owns; an address that meanwhile belongs to
  another instance stays with that instance.
\<close>

theorem RemoveEndpoint_addresses:
  assumes "\<not> it_suppressAddressCollision t" "it_endpointGenerator t = NewEndpointsFromActual"
    and "Internal_RemoveEndpoint E t a = (t', res)"
  shows "owner (it_addressEntries t') x =
    (if x \<in> it_addressGenerator t ` set (NewEndpointsFromActual a) \<and> owner (it_addressEntries t) x = Some (al_InstanceGuid a)
     then None else owner (it_addressEntries t) x)"
proof -
  have "it_addressEntries t' = fold (remove_address_step t) (NewEndpointsFromActual a) (it_addressEntries t)"
    using assms(3) addresses_of_remove_loop [of E a "NewEndpointsFromActual a"
        "(t\<lparr>it_addressEntries := remove_addresses t (NewEndpointsFromActual a)\<rparr>, no_emission)"]
    by (simp add: Internal_RemoveEndpoint_def remove_addresses_def Let_def assms(1,2))
  then show ?thesis by (simp add: fold_remove_address [OF guid_of_endpoints])
qed

theorem RemoveEndpoint_addresses_witness:
  "owner (it_addressEntries (fst (Internal_RemoveEndpoint example_env (httpRoutesRoutingTable example_table)
       (example_actual ''ig2'' 1 ActualLRP_Ordinary 1)))) \<lparr>addr_Host = ''1.1.1.1'', addr_Port = 61001\<rparr> = Some ''ig1''"
proof -
  let ?t = "httpRoutesRoutingTable example_table" and ?a = "example_actual ''ig2'' 1 ActualLRP_Ordinary 1"
  have guid: "al_InstanceGuid ?a = ''ig2''" by (simp add: example_actual_def)
  obtain t' res where r: "Internal_RemoveEndpoint example_env ?t ?a = (t', res)" by (metis surj_pair)
  have sup: "\<not> it_suppressAddressCollision ?t" by code_simp
  have gen: "it_endpointGenerator ?t = NewEndpointsFromActual"
    using wf_example_table by (simp add: wf_routing_table_def)
  have "owner (it_addressEntries ?t) \<lparr>addr_Host = ''1.1.1.1'', addr_Port = 61001\<rparr> = Some ''ig1''" by code_simp
  then show ?thesis
    using RemoveEndpoint_addresses [OF sup gen r, of "\<lparr>addr_Host = ''1.1.1.1'', addr_Port = 61001\<rparr>"]
    by (simp add: r guid)
qed

section \<open>Behaviours at the edge\<close>

text \<open>
  When instances are registered by container address, a second instance with the container address
  of the first is counted as a collision, but after a synchronisation it no longer is: the table built
  for the synchronisation indexes addresses by host, and \<open>Swap\<close> takes its address map over.
\<close>

theorem sync_loses_collisions:
  "let direct = NewRoutingTable example_env True False;
       a = example_actual ''ig1'' 0 ActualLRP_Ordinary 1;
       b = (example_actual ''ig2'' 1 ActualLRP_Ordinary 1)\<lparr>al_Address := ''1.1.1.2''\<rparr>;
       known = run_ops example_env False [OpAddEndpoint a] direct;
       synced = run_ops example_env False [OpAddEndpoint a, OpSwap [OpAddEndpoint a] (\<lambda>d. True)] direct in
   snd (snd (AddEndpoint example_env known b)) = [addressCollisionsCounter] \<and>
   snd (snd (AddEndpoint example_env synced b)) = [] \<and>
   entries_of synced = entries_of known"
  by code_simp

text \<open>
  An entry that an instance event created before its desired LRP was known has no domain, and
  every swap keeps that empty domain. No domain set is fresh for it, so a route that the desired
  state has dropped stays registered after a synchronisation in which its domain is fresh.
\<close>

theorem empty_domain_keeps_routes:
  "let fresh = (\<lambda>d. d = ''tests'');
       a = example_actual ''ig1'' 0 ActualLRP_Ordinary 1;
       t = run_ops example_env False
         [OpAddEndpoint a,
          OpSwap [OpSetRoutes None (Some (example_desired ''h1'' 2 1)), OpAddEndpoint a] fresh,
          OpSwap [OpAddEndpoint a] fresh]
         (NewRoutingTable example_env False False);
       en = entry_at (httpRoutesRoutingTable t) (NewRoutingKey ''pg'' 8080) in
   re_Domain en = '''' \<and> length (re_Routes en) = 1 \<and>
   map rm_URIs (RegistrationMessages (snd (GetExternalRoutingEvents t))) = [[''h1'']]"
  by code_simp

text \<open>
  The diff stores a removed endpoint under the key it was last looked up with, so when an instance
  has an ordinary and an evacuating record that both differ from its new record, the second overwrites
  the first and only one of the two is unregistered.
\<close>

theorem diffEndpoints_overwrites:
  "let ep = (\<lambda>pres port. NewEndpoint ''ig'' pres ''1.1.1.1'' ''10.0.0.1'' port 8080 PreferredAddressHost None '''');
       before = [(NewEndpointKey ''ig'' False, ep ActualLRP_Ordinary 1), (NewEndpointKey ''ig'' True, ep ActualLRP_Evacuating 2)];
       after = [(NewEndpointKey ''ig'' False, ep ActualLRP_Ordinary 3)] in
   map ep_Port (go_values (ed_removed (diffEndpoints before after))) = [2]"
  by code_simp

end
