(* ===== verification/Emitter.thy ===== *)
theory Emitter
  imports Registry_Message "HOL-Library.Multiset"
begin

text \<open>
  \<open>emitter/nats_emitter.go\<close> and \<open>emitter/routing_api_emitter.go\<close>: the two emitters that send what the
  routing table returns.

  The NATS emitter submits one job per message to a work pool, which runs every job once in an order of
  its own; the order is the parameter \<open>schedule\<close>, and the law the properties use is that it permutes
  the jobs. Marshalling and the NATS client are parameters; what a publish returns may depend on what
  was published before. The routing API emitter calls the UAA and the routing API, which are parameters
  as well, with the calls so far as their argument.
\<close>

section \<open>NATS emitter\<close>

record nats_env =
  Marshal :: "RegistryMessage \<Rightarrow> string \<times> go_error option"
  Publish :: "(string \<times> string) list \<Rightarrow> string \<Rightarrow> string \<Rightarrow> go_error option"

text \<open>The subject and payload of every publish, in order, and the counters incremented.\<close>

record nats_state =
  ns_published :: "(string \<times> string) list"
  ns_counters :: "(string \<times> uint64) list"

text \<open>The emitter's own data; its clients are parameters of \<open>nats_Emit\<close>.\<close>

record natsEmitter =
  ne_emitInternalRoutes :: bool

definition NewNATSEmitter :: "bool \<Rightarrow> natsEmitter" where
  "NewNATSEmitter emitInternalRoutes = \<lparr>ne_emitInternalRoutes = emitInternalRoutes\<rparr>"

definition httpRouteNATSMessagesEmittedCounter :: string where
  "httpRouteNATSMessagesEmittedCounter = ''HTTPRouteNATSMessagesEmitted''"

definition internalRouteNATSMessagesEmittedCounter :: string where
  "internalRouteNATSMessagesEmittedCounter = ''InternalRouteNATSMessagesEmitted''"

type_synonym nats_job = "string \<times> RegistryMessage"

text \<open>
  One job: the error of marshalling is logged and then overwritten by the result of the publish; the
  error channel has room for one error, later ones are dropped.
\<close>

definition emit_job :: "nats_env \<Rightarrow> nats_job \<Rightarrow> (string \<times> string) list \<times> go_error option \<Rightarrow>
    (string \<times> string) list \<times> go_error option" where
  "emit_job N = (\<lambda>(subject, message) (published, errors).
     (let (payload, _) = Marshal N message;
          err = Publish N published subject payload in
      (published @ [(subject, payload)],
       case err of None \<Rightarrow> errors | Some e \<Rightarrow> (case errors of None \<Rightarrow> Some e | Some _ \<Rightarrow> errors))))"

definition nats_jobs :: "bool \<Rightarrow> MessagesToEmit \<Rightarrow> nats_job list" where
  "nats_jobs emitInternalRoutes messagesToEmit =
     map (Pair ''router.register'') (RegistrationMessages messagesToEmit) @
     map (Pair ''router.unregister'') (UnregistrationMessages messagesToEmit) @
     (if emitInternalRoutes
      then map (Pair ''service-discovery.register'') (InternalRegistrationMessages messagesToEmit) @
           map (Pair ''service-discovery.unregister'') (InternalUnregistrationMessages messagesToEmit)
      else [])"

definition nats_Emit :: "nats_env \<Rightarrow> (nats_job list \<Rightarrow> nats_job list) \<Rightarrow> bool \<Rightarrow> MessagesToEmit \<Rightarrow> nats_state \<Rightarrow>
    nats_state \<times> go_error option" where
  "nats_Emit N schedule emitInternalRoutes messagesToEmit s =
     (let (published, errors) =
            fold (emit_job N) (schedule (nats_jobs emitInternalRoutes messagesToEmit)) (ns_published s, None);
          numberOfHTTPMessages =
            of_nat (length (RegistrationMessages messagesToEmit) + length (UnregistrationMessages messagesToEmit));
          numberOfInternalMessages =
            of_nat (length (InternalRegistrationMessages messagesToEmit) +
              length (InternalUnregistrationMessages messagesToEmit)) in
      case errors of
        Some finalError \<Rightarrow> (s\<lparr>ns_published := published\<rparr>, Some finalError)
      | None \<Rightarrow>
          (s\<lparr>ns_published := published,
             ns_counters := ns_counters s @ [(httpRouteNATSMessagesEmittedCounter, numberOfHTTPMessages)] @
               (if emitInternalRoutes
                then [(internalRouteNATSMessagesEmittedCounter, numberOfInternalMessages)] else [])\<rparr>,
           None))"

section \<open>Routing API emitter\<close>

text \<open>What the emitter asks of the UAA client and of the routing API client, in order.\<close>

datatype api_call =
    FetchToken bool
  | SetToken string
  | UpsertTcpRouteMappings "TcpRouteMapping list"
  | DeleteTcpRouteMappings "TcpRouteMapping list"

record api_env =
  uaa_FetchToken :: "api_call list \<Rightarrow> bool \<Rightarrow> go_error + string"
  api_Upsert :: "api_call list \<Rightarrow> TcpRouteMapping list \<Rightarrow> go_error option"
  api_Delete :: "api_call list \<Rightarrow> TcpRouteMapping list \<Rightarrow> go_error option"

definition set_ttl :: "int \<Rightarrow> TcpRouteMapping list \<Rightarrow> TcpRouteMapping list" where
  "set_ttl ttl msgs = map (\<lambda>m. m\<lparr>trm_TTL := ttl\<rparr>) msgs"

definition emitRoutingAPI :: "api_env \<Rightarrow> int \<Rightarrow> TcpRouteMapping list \<Rightarrow> TcpRouteMapping list \<Rightarrow>
    api_call list \<Rightarrow> api_call list \<times> go_error option" where
  "emitRoutingAPI A ttl regMsgs unregMsgs calls =
     (let regMsgs = set_ttl ttl regMsgs; unregMsgs = set_ttl ttl unregMsgs;
          (calls, err) =
            (if length regMsgs > 0
             then (calls @ [UpsertTcpRouteMappings regMsgs], api_Upsert A calls regMsgs)
             else (calls, None)) in
      case err of
        Some e \<Rightarrow> (calls, Some e)
      | None \<Rightarrow>
          (if length unregMsgs > 0
           then (calls @ [DeleteTcpRouteMappings unregMsgs], api_Delete A calls unregMsgs)
           else (calls, None)))"

function emit_loop :: "api_env \<Rightarrow> int \<Rightarrow> TcpRouteMapping list \<Rightarrow> TcpRouteMapping list \<Rightarrow> nat \<Rightarrow>
    api_call list \<Rightarrow> api_call list \<times> go_error option" where
  "emit_loop A ttl regs unregs cnt calls =
     (if \<not> cnt < 2 then (calls, None)
      else (let forceUpdate = (cnt > 0) in
        case uaa_FetchToken A calls forceUpdate of
          Inl err \<Rightarrow> (calls @ [FetchToken forceUpdate], Some err)
        | Inr token \<Rightarrow>
            (case emitRoutingAPI A ttl regs unregs (calls @ [FetchToken forceUpdate, SetToken token]) of
               (calls', None) \<Rightarrow> (calls', None)
             | (calls', Some err) \<Rightarrow>
                 if cnt > 0 then (calls', Some err) else emit_loop A ttl regs unregs (cnt + 1) calls')))"
  by pat_completeness auto
termination by (relation "measure (\<lambda>(A, ttl, regs, unregs, cnt, calls). 2 - cnt)") auto

declare emit_loop.simps [simp del]

definition routing_api_Emit :: "api_env \<Rightarrow> int \<Rightarrow> TCPRouteMappings \<Rightarrow> api_call list \<Rightarrow>
    api_call list \<times> go_error option" where
  "routing_api_Emit A ttl tcpEvents calls =
     (if length (Registrations tcpEvents) = 0 \<and> length (Unregistrations tcpEvents) = 0 then (calls, None)
      else emit_loop A ttl (Registrations tcpEvents) (Unregistrations tcpEvents) 0 calls)"

section \<open>Properties of the NATS emitter\<close>

lemma emit_jobs_published:
  "fst (fold (emit_job N) js (p, e)) = p @ map (\<lambda>(subject, m). (subject, fst (Marshal N m))) js"
  by (induction js arbitrary: p e) (auto simp: emit_job_def split: prod.splits)

text \<open>Whether the job at a position fails, given what the jobs before it published.\<close>

fun job_errors :: "nats_env \<Rightarrow> (string \<times> string) list \<Rightarrow> nats_job list \<Rightarrow> go_error list" where
  "job_errors N p [] = []"
| "job_errors N p ((subject, m) # js) =
     (case Publish N p subject (fst (Marshal N m)) of None \<Rightarrow> [] | Some err \<Rightarrow> [err]) @
     job_errors N (p @ [(subject, fst (Marshal N m))]) js"

lemma emit_jobs_error:
  "snd (fold (emit_job N) js (p, e)) = (case e of Some err \<Rightarrow> Some err | None \<Rightarrow>
     (case job_errors N p js of [] \<Rightarrow> None | err # _ \<Rightarrow> Some err))"
  by (induction js arbitrary: p e) (auto simp: emit_job_def split: prod.splits option.splits list.splits)

text \<open>
  One call of the NATS emitter publishes every registration and unregistration exactly once under
  its subject, the internal ones only when they are enabled, whatever the order of the work pool and
  whichever publish fails.
\<close>

theorem nats_Emit_publishes_all:
  assumes "mset (schedule (nats_jobs internal msgs)) = mset (nats_jobs internal msgs)"
  shows "\<exists>new. ns_published (fst (nats_Emit N schedule internal msgs s)) = ns_published s @ new \<and>
    mset new = mset (map (\<lambda>m. (''router.register'', fst (Marshal N m))) (RegistrationMessages msgs) @
      map (\<lambda>m. (''router.unregister'', fst (Marshal N m))) (UnregistrationMessages msgs) @
      (if internal
       then map (\<lambda>m. (''service-discovery.register'', fst (Marshal N m))) (InternalRegistrationMessages msgs) @
            map (\<lambda>m. (''service-discovery.unregister'', fst (Marshal N m))) (InternalUnregistrationMessages msgs)
       else []))"
proof -
  let ?f = "\<lambda>(subject, m). (subject, fst (Marshal N m))" and ?js = "schedule (nats_jobs internal msgs)"
  have "ns_published (fst (nats_Emit N schedule internal msgs s)) = fst (fold (emit_job N) ?js (ns_published s, None))"
    by (simp add: nats_Emit_def Let_def split: prod.splits option.splits)
  also have "\<dots> = ns_published s @ map ?f ?js" by (rule emit_jobs_published)
  finally have pub: "ns_published (fst (nats_Emit N schedule internal msgs s)) = ns_published s @ map ?f ?js" .
  have "mset (map ?f ?js) = mset (map ?f (nats_jobs internal msgs))"
    unfolding mset_map assms ..
  also have "map ?f (nats_jobs internal msgs) = map (\<lambda>m. (''router.register'', fst (Marshal N m))) (RegistrationMessages msgs) @
      map (\<lambda>m. (''router.unregister'', fst (Marshal N m))) (UnregistrationMessages msgs) @
      (if internal
       then map (\<lambda>m. (''service-discovery.register'', fst (Marshal N m))) (InternalRegistrationMessages msgs) @
            map (\<lambda>m. (''service-discovery.unregister'', fst (Marshal N m))) (InternalUnregistrationMessages msgs)
       else [])"
    by (simp add: nats_jobs_def)
  finally show ?thesis using pub by blast
qed

definition example_nats :: nats_env where
  "example_nats = \<lparr>Marshal = (\<lambda>m. (concat (rm_URIs m), None)), Publish = (\<lambda>p subject payload. None)\<rparr>"

definition example_message :: "string \<Rightarrow> RegistryMessage" where
  "example_message uri =
     \<lparr>rm_Host = ''1.1.1.1'', rm_Port = 61001, rm_TlsPort = 0, rm_URIs = [uri], rm_Protocol = '''', rm_App = '''',
      rm_RouteServiceUrl = '''', rm_PrivateInstanceId = ''ig'', rm_PrivateInstanceIndex = ''0'',
      rm_ServerCertDomainSAN = ''ig'', rm_IsolationSegment = '''', rm_EndpointUpdatedAtNs = 0, rm_Tags = [],
      rm_AvailabilityZone = '''', rm_Options = ''''\<rparr>"

theorem nats_Emit_publishes_all_witness:
  "let msgs = no_messages\<lparr>RegistrationMessages := [example_message ''a''], UnregistrationMessages := [example_message ''b'']\<rparr>;
       s = \<lparr>ns_published = [], ns_counters = []\<rparr> in
   \<exists>new. ns_published (fst (nats_Emit example_nats rev True msgs s)) = ns_published s @ new \<and>
     mset new = {#(''router.register'', ''a''), (''router.unregister'', ''b'')#}"
  using nats_Emit_publishes_all [of rev True "no_messages\<lparr>RegistrationMessages := [example_message ''a''],
      UnregistrationMessages := [example_message ''b'']\<rparr>" example_nats "\<lparr>ns_published = [], ns_counters = []\<rparr>"]
  by (simp add: no_messages_def example_nats_def example_message_def)

text \<open>
  C21: the emitter returns an error exactly when a publish failed, and then it is the first such error;
  the counters go up by the numbers of messages exactly when no publish failed.
\<close>

theorem nats_Emit_result:
  "let errs = job_errors N (ns_published s) (schedule (nats_jobs internal msgs));
       (s', err) = nats_Emit N schedule internal msgs s in
   err = (case errs of [] \<Rightarrow> None | e # _ \<Rightarrow> Some e) \<and>
   ns_counters s' = ns_counters s @ (if errs = []
     then (httpRouteNATSMessagesEmittedCounter,
           of_nat (length (RegistrationMessages msgs) + length (UnregistrationMessages msgs))) #
          (if internal then [(internalRouteNATSMessagesEmittedCounter,
             of_nat (length (InternalRegistrationMessages msgs) + length (InternalUnregistrationMessages msgs)))] else [])
     else [])"
proof -
  obtain p e where f: "fold (emit_job N) (schedule (nats_jobs internal msgs)) (ns_published s, None) = (p, e)"
    by (metis surj_pair)
  have "e = (case job_errors N (ns_published s) (schedule (nats_jobs internal msgs)) of [] \<Rightarrow> None | err # _ \<Rightarrow> Some err)"
    using emit_jobs_error [of N "schedule (nats_jobs internal msgs)" "ns_published s" None] by (simp add: f)
  then show ?thesis by (simp add: nats_Emit_def Let_def f split: list.split)
qed

section \<open>Properties of the routing API emitter\<close>

definition api_batch :: "int \<Rightarrow> TcpRouteMapping list \<Rightarrow> TcpRouteMapping list \<Rightarrow> api_call list" where
  "api_batch ttl regs unregs =
     (if regs = [] then [] else [UpsertTcpRouteMappings (set_ttl ttl regs)]) @
     (if unregs = [] then [] else [DeleteTcpRouteMappings (set_ttl ttl unregs)])"

lemma emitRoutingAPI_ok:
  "emitRoutingAPI A ttl regs unregs calls = (calls', None) \<Longrightarrow> calls' = calls @ api_batch ttl regs unregs"
  by (auto simp: emitRoutingAPI_def api_batch_def Let_def set_ttl_def split: if_splits option.splits prod.splits)


definition example_api :: api_env where
  "example_api =
     \<lparr>uaa_FetchToken = (\<lambda>calls force. Inr (if force then ''fresh'' else ''cached'')),
      api_Upsert = (\<lambda>calls ms. if SetToken ''fresh'' \<in> set calls then None else Some ''unauthorized''),
      api_Delete = (\<lambda>calls ms. None)\<rparr>"

definition example_mapping :: TcpRouteMapping where
  "example_mapping = \<lparr>trm_RouterGroupGuid = ''rg'', trm_ExternalPort = 61000, trm_HostIP = ''1.1.1.1'',
     trm_HostPort = 61001, trm_HostTLSPort = -1, trm_InstanceId = '''', trm_TTL = 0\<rparr>"

definition example_mappings :: TCPRouteMappings where
  "example_mappings = \<lparr>Registrations = [example_mapping], Unregistrations = []\<rparr>"


fun is_fetch :: "api_call \<Rightarrow> bool" where
  "is_fetch (FetchToken _) = True"
| "is_fetch _ = False"

lemma emitRoutingAPI_calls:
  assumes "emitRoutingAPI A ttl regs unregs calls = (calls', err)"
  shows "\<exists>more. calls' = calls @ more \<and> filter is_fetch more = []"
  using assms by (auto simp: emitRoutingAPI_def Let_def split: if_splits option.splits prod.splits)

lemma emit_loop_last:
  assumes "emit_loop A ttl regs unregs 1 calls = (calls', err)"
  shows "\<exists>more. calls' = calls @ more \<and> filter is_fetch more = [FetchToken True]"
proof (cases "uaa_FetchToken A calls True")
  case (Inl e)
  with assms show ?thesis by (subst (asm) emit_loop.simps) auto
next
  case (Inr token)
  obtain cs e where e: "emitRoutingAPI A ttl regs unregs (calls @ [FetchToken True, SetToken token]) = (cs, e)"
    by (metis surj_pair)
  with assms Inr have "calls' = cs" by (subst (asm) emit_loop.simps) (auto split: option.splits)
  with emitRoutingAPI_calls [OF e] show ?thesis by auto
qed

text \<open>
  The routing API emitter fetches a token at most twice, the second time past the cache. An error
  is reported without that second attempt only when the first token could not be fetched, and a first
  attempt that succeeds is not repeated.
\<close>

theorem routing_api_Emit_retries:
  assumes "routing_api_Emit A ttl ev calls = (calls', err)"
    and "\<not> (Registrations ev = [] \<and> Unregistrations ev = [])"
  shows "\<exists>more. calls' = calls @ more \<and>
    (case uaa_FetchToken A calls False of
       Inl e \<Rightarrow> more = [FetchToken False] \<and> err = Some e
     | Inr token \<Rightarrow>
         (case snd (emitRoutingAPI A ttl (Registrations ev) (Unregistrations ev)
             (calls @ [FetchToken False, SetToken token])) of
            None \<Rightarrow> err = None \<and> filter is_fetch more = [FetchToken False]
          | Some e \<Rightarrow> filter is_fetch more = [FetchToken False, FetchToken True]))"
proof -
  let ?r = "Registrations ev" and ?u = "Unregistrations ev"
  have loop: "emit_loop A ttl ?r ?u 0 calls = (calls', err)"
    using assms by (auto simp: routing_api_Emit_def)
  show ?thesis
  proof (cases "uaa_FetchToken A calls False")
    case (Inl e)
    with loop show ?thesis by (subst (asm) emit_loop.simps) auto
  next
    case (Inr token)
    obtain cs e where e: "emitRoutingAPI A ttl ?r ?u (calls @ [FetchToken False, SetToken token]) = (cs, e)"
      by (metis surj_pair)
    from emitRoutingAPI_calls [OF e] obtain m where m: "cs = (calls @ [FetchToken False, SetToken token]) @ m"
      "filter is_fetch m = []" by blast
    show ?thesis
    proof (cases e)
      case None
      with loop Inr e have "calls' = cs \<and> err = None" by (subst (asm) emit_loop.simps) auto
      with m Inr e None show ?thesis by simp
    next
      case (Some x)
      with loop Inr e have "emit_loop A ttl ?r ?u 1 cs = (calls', err)" by (subst (asm) emit_loop.simps) simp
      from emit_loop_last [OF this] m Inr e Some show ?thesis by auto
    qed
  qed
qed

theorem routing_api_Emit_retries_witness:
  "\<exists>more. fst (routing_api_Emit example_api 120 example_mappings []) = [] @ more \<and>
     filter is_fetch more = [FetchToken False, FetchToken True]"
proof -
  obtain calls' err where r: "routing_api_Emit example_api 120 example_mappings [] = (calls', err)"
    by (metis surj_pair)
  have "\<not> (Registrations example_mappings = [] \<and> Unregistrations example_mappings = [])"
    by (simp add: example_mappings_def)
  moreover have "uaa_FetchToken example_api [] False = Inr ''cached''" by code_simp
  moreover have "snd (emitRoutingAPI example_api 120 (Registrations example_mappings) (Unregistrations example_mappings)
      ([] @ [FetchToken False, SetToken ''cached''])) = Some ''unauthorized''" by code_simp
  ultimately show ?thesis using routing_api_Emit_retries [OF r] r by simp
qed

end
