(* ===== verification/Unregistration.thy ===== *)
theory Unregistration
  imports Emitter
begin

text \<open>
  \<open>unregistration/\<close>: the cache of unregistration messages that the handler fills and the sender that
  repeats each of them \<open>sendCount\<close> times.

  The cache maps the hash of a message to a pointer to a \<open>Message\<close>, and the sender keeps such pointers
  while the handler changes the map, so the messages live in a heap (a list that only grows) and the
  cache holds indexes into it. The hash function of \<open>hashstructure\<close> is a parameter that may fail.
  The cache's methods hold its mutex and are atomic; one iteration of the sender's loop is two steps
  between which the handler can run (\<open>sender_send\<close> up to the increment, then the removal).
\<close>

section \<open>Cache\<close>

record Message =
  msg_RegistryMessage :: RegistryMessage
  msg_SentCount :: int64

type_synonym hash_fn = "RegistryMessage \<Rightarrow> go_error + uint64"

record unreg_cache =
  uc_messages :: "(uint64, nat) gomap"
  uc_heap :: "Message list"

definition NewCache :: unreg_cache where
  "NewCache = \<lparr>uc_messages = [], uc_heap = []\<rparr>"

text \<open>\<open>c.messages[hash] = &Message{RegistryMessage: registryMessage}\<close>\<close>

definition cache_put :: "uint64 \<Rightarrow> RegistryMessage \<Rightarrow> unreg_cache \<Rightarrow> unreg_cache" where
  "cache_put h registryMessage c =
     \<lparr>uc_messages = go_put (uc_messages c) h (length (uc_heap c)),
      uc_heap = uc_heap c @ [\<lparr>msg_RegistryMessage = registryMessage, msg_SentCount = 0\<rparr>]\<rparr>"

fun cache_Add :: "hash_fn \<Rightarrow> RegistryMessage list \<Rightarrow> unreg_cache \<Rightarrow> unreg_cache \<times> go_error option" where
  "cache_Add H [] c = (c, None)"
| "cache_Add H (registryMessage # registryMessages) c =
     (case H registryMessage of
        Inl err \<Rightarrow> (c, Some err)
      | Inr h \<Rightarrow> cache_Add H registryMessages (cache_put h registryMessage c))"

fun cache_Remove :: "hash_fn \<Rightarrow> RegistryMessage list \<Rightarrow> unreg_cache \<Rightarrow> unreg_cache \<times> go_error option" where
  "cache_Remove H [] c = (c, None)"
| "cache_Remove H (registryMessage # registryMessages) c =
     (case H registryMessage of
        Inl err \<Rightarrow> (c, Some err)
      | Inr h \<Rightarrow> cache_Remove H registryMessages (c\<lparr>uc_messages := go_del (uc_messages c) h\<rparr>))"

definition cache_List :: "unreg_cache \<Rightarrow> nat list" where
  "cache_List c = go_values (uc_messages c)"

section \<open>Sender\<close>

text \<open>The sender's own data; cache and emitter are arguments of its operations.\<close>

record Sender =
  sd_interval :: int64
  sd_sendCount :: int64

definition NewSender :: "int64 \<Rightarrow> int64 \<Rightarrow> Sender" where
  "NewSender interval sendCount = \<lparr>sd_interval = interval, sd_sendCount = sendCount\<rparr>"

definition unregister_one :: "RegistryMessage \<Rightarrow> MessagesToEmit" where
  "unregister_one m = no_messages\<lparr>UnregistrationMessages := [m]\<rparr>"

text \<open>
  The body of the sender's loop for one message, up to the comparison with \<open>sendCount\<close>: emit, count.
  The result tells which message is to be removed from the cache, if any. An error of the emitter is
  logged only.
\<close>

definition sender_send :: "(MessagesToEmit \<Rightarrow> 'w \<Rightarrow> 'w \<times> go_error option) \<Rightarrow> int64 \<Rightarrow> nat \<Rightarrow>
    unreg_cache \<times> 'w \<Rightarrow> unreg_cache \<times> 'w \<times> RegistryMessage option" where
  "sender_send emit sendCount ref = (\<lambda>(c, w).
     (let message = uc_heap c ! ref;
          (w', err) = emit (unregister_one (msg_RegistryMessage message)) w;
          message' = message\<lparr>msg_SentCount := msg_SentCount message + 1\<rparr> in
      (c\<lparr>uc_heap := (uc_heap c)[ref := message']\<rparr>, w',
       if msg_SentCount message' = sendCount then Some (msg_RegistryMessage message') else None)))"

definition sender_iteration :: "hash_fn \<Rightarrow> (MessagesToEmit \<Rightarrow> 'w \<Rightarrow> 'w \<times> go_error option) \<Rightarrow> int64 \<Rightarrow> nat \<Rightarrow>
    unreg_cache \<times> 'w \<Rightarrow> unreg_cache \<times> 'w" where
  "sender_iteration H emit sendCount ref s =
     (case sender_send emit sendCount ref s of
        (c, w, None) \<Rightarrow> (c, w)
      | (c, w, Some m) \<Rightarrow> (fst (cache_Remove H [m] c), w))"

text \<open>What the sender does on one tick when nothing else runs.\<close>

definition sender_tick :: "hash_fn \<Rightarrow> (MessagesToEmit \<Rightarrow> 'w \<Rightarrow> 'w \<times> go_error option) \<Rightarrow> int64 \<Rightarrow>
    unreg_cache \<times> 'w \<Rightarrow> unreg_cache \<times> 'w" where
  "sender_tick H emit sendCount s = fold (sender_iteration H emit sendCount) (cache_List (fst s)) s"

section \<open>The contract of the cache\<close>

text \<open>
  What the handler relies on: after \<open>Add\<close> the messages are pending, after \<open>Remove\<close> they are not, and
  neither touches messages with another hash.
\<close>

locale message_cache =
  fixes add :: "RegistryMessage list \<Rightarrow> 'c \<Rightarrow> 'c \<times> go_error option"
    and remove :: "RegistryMessage list \<Rightarrow> 'c \<Rightarrow> 'c \<times> go_error option"
    and pending :: "'c \<Rightarrow> RegistryMessage \<Rightarrow> bool"
    and clash :: "RegistryMessage \<Rightarrow> RegistryMessage \<Rightarrow> bool"
  assumes add_pending: "add ms c = (c', None) \<Longrightarrow> m \<in> set ms \<Longrightarrow> pending c' m"
    and add_keeps: "pending c m \<Longrightarrow> pending (fst (add ms c)) m"
    and add_only: "pending (fst (add ms c)) m \<Longrightarrow> pending c m \<or> (\<exists>m' \<in> set ms. clash m' m)"
    and remove_gone: "remove ms c = (c', None) \<Longrightarrow> m \<in> set ms \<Longrightarrow> \<not> pending c' m"
    and remove_keeps: "pending c m \<Longrightarrow> \<not> (\<exists>m' \<in> set ms. clash m' m) \<Longrightarrow> pending (fst (remove ms c)) m"
    and remove_only: "pending (fst (remove ms c)) m \<Longrightarrow> pending c m"
begin

text \<open>The handler's pattern: add what was unregistered, then remove what was registered.\<close>

lemma add_then_remove:
  assumes "add us c = (c1, None)" "remove rs c1 = (c2, None)"
  shows "m \<in> set rs \<Longrightarrow> \<not> pending c2 m"
    and "m \<in> set us \<Longrightarrow> \<not> (\<exists>r \<in> set rs. clash r m) \<Longrightarrow> pending c2 m"
    and "pending c2 m \<Longrightarrow> pending c m \<or> (\<exists>u \<in> set us. clash u m)"
proof -
  show "m \<in> set rs \<Longrightarrow> \<not> pending c2 m" using remove_gone [OF assms(2)] by blast
  show "m \<in> set us \<Longrightarrow> \<not> (\<exists>r \<in> set rs. clash r m) \<Longrightarrow> pending c2 m"
    using remove_keeps [OF add_pending [OF assms(1)], of m rs] by (simp add: assms(2))
  show "pending c2 m \<Longrightarrow> pending c m \<or> (\<exists>u \<in> set us. clash u m)"
    using remove_only [of rs c1 m] add_only [of us c m] by (simp add: assms)
qed

end

definition pending :: "hash_fn \<Rightarrow> unreg_cache \<Rightarrow> RegistryMessage \<Rightarrow> bool" where
  "pending H c m = (case H m of Inl _ \<Rightarrow> False | Inr h \<Rightarrow> go_get (uc_messages c) h \<noteq> None)"

definition clash :: "hash_fn \<Rightarrow> RegistryMessage \<Rightarrow> RegistryMessage \<Rightarrow> bool" where
  "clash H m m' = (case (H m, H m') of (Inr h, Inr h') \<Rightarrow> h = h' | _ \<Rightarrow> False)"

lemma pending_put: "pending H (cache_put h x c) m \<longleftrightarrow> H m = Inr h \<or> pending H c m"
  by (auto simp: pending_def cache_put_def split: sum.splits)

lemma pending_del:
  "pending H (c\<lparr>uc_messages := go_del (uc_messages c) h\<rparr>) m \<longleftrightarrow> H m \<noteq> Inr h \<and> pending H c m"
  by (auto simp: pending_def split: sum.splits)

lemma Add_keeps: "pending H c m \<Longrightarrow> pending H (fst (cache_Add H ms c)) m"
  by (induction H ms c rule: cache_Add.induct) (auto simp: pending_put split: sum.splits)

lemma Remove_only: "pending H (fst (cache_Remove H ms c)) m \<Longrightarrow> pending H c m"
  by (induction H ms c rule: cache_Remove.induct) (auto simp: pending_del split: sum.splits)

lemma Add_pending: "cache_Add H ms c = (c', None) \<Longrightarrow> m \<in> set ms \<Longrightarrow> pending H c' m"
proof (induction H ms c rule: cache_Add.induct)
  case (2 H x ms c)
  then obtain h where h: "H x = Inr h" by (auto split: sum.splits)
  with "2.prems"(1) have c': "cache_Add H ms (cache_put h x c) = (c', None)" by simp
  show ?case
  proof (cases "m \<in> set ms")
    case True
    with "2.IH" [OF h c'] show ?thesis by simp
  next
    case False
    with "2.prems" have "m = x" by simp
    then have "pending H (cache_put h x c) m" using h by (simp add: pending_put)
    from Add_keeps [OF this, of ms] show ?thesis by (simp add: c')
  qed
qed simp

lemma Remove_gone: "cache_Remove H ms c = (c', None) \<Longrightarrow> m \<in> set ms \<Longrightarrow> \<not> pending H c' m"
proof (induction H ms c rule: cache_Remove.induct)
  case (2 H x ms c)
  then obtain h where h: "H x = Inr h" by (auto split: sum.splits)
  let ?c = "c\<lparr>uc_messages := go_del (uc_messages c) h\<rparr>"
  from h "2.prems"(1) have c': "cache_Remove H ms ?c = (c', None)" by simp
  show ?case
  proof (cases "m \<in> set ms")
    case True
    with "2.IH" [OF h c'] show ?thesis by simp
  next
    case False
    with "2.prems" have "\<not> pending H ?c m" using h by (simp add: pending_del)
    with Remove_only [of H ms ?c m] show ?thesis by (auto simp: c')
  qed
qed simp

interpretation cache: message_cache "cache_Add H" "cache_Remove H" "pending H" "clash H" for H
proof
  fix ms c m
  show "pending H (fst (cache_Add H ms c)) m \<Longrightarrow> pending H c m \<or> (\<exists>m' \<in> set ms. clash H m' m)"
    by (induction H ms c rule: cache_Add.induct)
      (auto simp: pending_put clash_def split: sum.splits)
  show "pending H c m \<Longrightarrow> \<not> (\<exists>m' \<in> set ms. clash H m' m) \<Longrightarrow> pending H (fst (cache_Remove H ms c)) m"
    by (induction H ms c rule: cache_Remove.induct)
      (auto simp: pending_del clash_def split: sum.splits)
qed (auto intro: Add_pending Add_keeps dest: Remove_gone Remove_only)

text \<open>
  C23: when the handler adds the unregistrations of an update to the cache and removes its
  registrations, no registered message stays pending, every unregistered one whose hash no registration
  has is pending, and nothing else becomes pending.
\<close>

theorem cache_update:
  assumes "cache_Add H us c = (c1, None)" "cache_Remove H rs c1 = (c2, None)"
  shows "(\<forall>m \<in> set rs. \<not> pending H c2 m) \<and>
    (\<forall>m \<in> set us. \<not> (\<exists>r \<in> set rs. clash H r m) \<longrightarrow> pending H c2 m) \<and>
    (\<forall>m. pending H c2 m \<longrightarrow> pending H c m \<or> (\<exists>u \<in> set us. clash H u m))"
  using cache.add_then_remove [OF assms] by blast

definition example_hash :: hash_fn where
  "example_hash m = (case rm_URIs m of [''bad''] \<Rightarrow> Inl ''cannot hash'' | us \<Rightarrow> Inr (of_nat (length (concat us))))"

theorem cache_update_witness:
  "\<exists>c1 c2. cache_Add example_hash [example_message ''a'', example_message ''bb''] NewCache = (c1, None) \<and>
     cache_Remove example_hash [example_message ''a''] c1 = (c2, None) \<and>
     \<not> pending example_hash c2 (example_message ''a'') \<and> pending example_hash c2 (example_message ''bb'')"
proof -
  have "snd (cache_Add example_hash [example_message ''a'', example_message ''bb''] NewCache) = None" by code_simp
  then obtain c1 where c1: "cache_Add example_hash [example_message ''a'', example_message ''bb''] NewCache = (c1, None)"
    by (metis prod.collapse)
  have "snd (cache_Remove example_hash [example_message ''a'']
      (fst (cache_Add example_hash [example_message ''a'', example_message ''bb''] NewCache))) = None" by code_simp
  then obtain c2 where c2: "cache_Remove example_hash [example_message ''a''] c1 = (c2, None)"
    unfolding c1 fst_conv by (metis prod.collapse)
  have "\<not> clash example_hash (example_message ''a'') (example_message ''bb'')" by code_simp
  with cache_update [OF c1 c2] c1 c2 show ?thesis by simp
qed

section \<open>The sender alone\<close>

definition wf_cache :: "hash_fn \<Rightarrow> unreg_cache \<Rightarrow> bool" where
  "wf_cache H c = (go_wf (uc_messages c) \<and> distinct (go_values (uc_messages c)) \<and>
     list_all (\<lambda>(h, ref). ref < length (uc_heap c) \<and> H (msg_RegistryMessage (uc_heap c ! ref)) = Inr h) (uc_messages c))"

text \<open>The emission of a list of cached messages, one call each.\<close>

definition emit_each :: "(MessagesToEmit \<Rightarrow> 'w \<Rightarrow> 'w \<times> go_error option) \<Rightarrow> RegistryMessage list \<Rightarrow> 'w \<Rightarrow> 'w" where
  "emit_each emit ms w = fold (\<lambda>m w. fst (emit (unregister_one m) w)) ms w"

definition cached_messages :: "unreg_cache \<Rightarrow> RegistryMessage list" where
  "cached_messages c = map (\<lambda>ref. msg_RegistryMessage (uc_heap c ! ref)) (go_values (uc_messages c))"

lemma sender_iteration_eq:
  assumes "ref < length (uc_heap c)" "H (msg_RegistryMessage (uc_heap c ! ref)) = Inr h"
  shows "sender_iteration H emit n ref (c, w) =
    (\<lparr>uc_messages = (if msg_SentCount (uc_heap c ! ref) + 1 = n then go_del (uc_messages c) h else uc_messages c),
      uc_heap = (uc_heap c)[ref := (uc_heap c ! ref)\<lparr>msg_SentCount := msg_SentCount (uc_heap c ! ref) + 1\<rparr>]\<rparr>,
     fst (emit (unregister_one (msg_RegistryMessage (uc_heap c ! ref))) w))"
  using assms by (cases c) (auto simp: sender_iteration_def sender_send_def Let_def split: prod.splits)

definition bump :: "nat list \<Rightarrow> Message list \<Rightarrow> Message list" where
  "bump refs heap = map (\<lambda>i. if i \<in> set refs then (heap ! i)\<lparr>msg_SentCount := msg_SentCount (heap ! i) + 1\<rparr> else heap ! i)
     [0..<length heap]"

lemma bump_nth: "i < length heap \<Longrightarrow> bump refs heap ! i =
    (if i \<in> set refs then (heap ! i)\<lparr>msg_SentCount := msg_SentCount (heap ! i) + 1\<rparr> else heap ! i)"
  by (simp add: bump_def)

lemma length_bump [simp]: "length (bump refs heap) = length heap"
  by (simp add: bump_def)

lemma bump_Cons:
  assumes "r \<notin> set rs" "r < length heap"
  shows "bump rs (heap[r := (heap ! r)\<lparr>msg_SentCount := msg_SentCount (heap ! r) + 1\<rparr>]) = bump (r # rs) heap"
  using assms by (intro nth_equalityI) (auto simp: bump_nth nth_list_update)

lemma sender_fold:
  assumes "distinct (map snd xs)"
    and "\<And>h r. (h, r) \<in> set xs \<Longrightarrow> r < length (uc_heap c) \<and> H (msg_RegistryMessage (uc_heap c ! r)) = Inr h \<and>
      msg_SentCount (uc_heap c ! r) = s"
  shows "fold (sender_iteration H emit n) (map snd xs) (c, w) =
    (\<lparr>uc_messages = (if s + 1 = n then fold (\<lambda>(h, r) m. go_del m h) xs (uc_messages c) else uc_messages c),
      uc_heap = bump (map snd xs) (uc_heap c)\<rparr>,
     emit_each emit (map (\<lambda>(h, r). msg_RegistryMessage (uc_heap c ! r)) xs) w)"
  using assms
proof (induction xs arbitrary: c w)
  case Nil
  have "bump [] (uc_heap c) = uc_heap c" by (intro nth_equalityI) (auto simp: bump_nth)
  then show ?case by (cases c) (simp add: emit_each_def)
next
  case (Cons x xs)
  obtain h r where x: "x = (h, r)" by (metis surj_pair)
  have r: "r < length (uc_heap c)" "H (msg_RegistryMessage (uc_heap c ! r)) = Inr h" "msg_SentCount (uc_heap c ! r) = s"
    using Cons.prems(2) [of h r] x by auto
  have fresh: "r \<notin> snd ` set xs" using Cons.prems(1) x by simp
  let ?heap = "(uc_heap c)[r := (uc_heap c ! r)\<lparr>msg_SentCount := msg_SentCount (uc_heap c ! r) + 1\<rparr>]"
  let ?c = "\<lparr>uc_messages = (if s + 1 = n then go_del (uc_messages c) h else uc_messages c), uc_heap = ?heap\<rparr>"
  have same: "?heap ! r' = uc_heap c ! r'" if "(h', r') \<in> set xs" for h' r'
  proof -
    have "r' \<noteq> r" using fresh that by (metis snd_conv imageI)
    then show ?thesis by simp
  qed
  have msgs: "map (\<lambda>(h, r). msg_RegistryMessage (uc_heap ?c ! r)) xs = map (\<lambda>(h, r). msg_RegistryMessage (uc_heap c ! r)) xs"
    using same by auto
  have "fold (sender_iteration H emit n) (map snd xs) (?c, fst (emit (unregister_one (msg_RegistryMessage (uc_heap c ! r))) w)) =
    (\<lparr>uc_messages = (if s + 1 = n then fold (\<lambda>(h, r) m. go_del m h) xs (uc_messages ?c) else uc_messages ?c),
      uc_heap = bump (map snd xs) (uc_heap ?c)\<rparr>,
     emit_each emit (map (\<lambda>(h, r). msg_RegistryMessage (uc_heap ?c ! r)) xs)
       (fst (emit (unregister_one (msg_RegistryMessage (uc_heap c ! r))) w)))"
  proof (rule Cons.IH)
    show "distinct (map snd xs)" using Cons.prems(1) by simp
    fix h' r'
    assume in_xs: "(h', r') \<in> set xs"
    show "r' < length (uc_heap ?c) \<and> H (msg_RegistryMessage (uc_heap ?c ! r')) = Inr h' \<and> msg_SentCount (uc_heap ?c ! r') = s"
      using Cons.prems(2) [of h' r'] in_xs same [OF in_xs] by simp
  qed
  from this [unfolded msgs] show ?case
    using bump_Cons [of r "map snd xs" "uc_heap c"] fresh r(1)
    by (simp add: x sender_iteration_eq [of r c H h, OF r(1,2)] r(3) emit_each_def)
qed

lemma fold_del_all: "fold (\<lambda>(h, r) m. go_del m h) xs m = filter (\<lambda>(h, r). h \<notin> fst ` set xs) m"
proof (induction xs arbitrary: m)
  case Nil
  then show ?case by simp
next
  case (Cons x xs)
  then show ?case by (cases x) (auto simp: go_del_def AList.delete_eq intro!: filter_cong)
qed

text \<open>One tick on a cache whose messages have all been sent equally often.\<close>

lemma sender_tick_eq:
  assumes "wf_cache H c" "\<And>ref. ref \<in> set (go_values (uc_messages c)) \<Longrightarrow> msg_SentCount (uc_heap c ! ref) = s"
  shows "sender_tick H emit n (c, w) =
    (\<lparr>uc_messages = (if s + 1 = n then [] else uc_messages c), uc_heap = bump (go_values (uc_messages c)) (uc_heap c)\<rparr>,
     emit_each emit (cached_messages c) w)"
proof -
  have refs: "go_values (uc_messages c) = map snd (uc_messages c)" by (simp add: go_values_def)
  have all: "r < length (uc_heap c) \<and> H (msg_RegistryMessage (uc_heap c ! r)) = Inr h \<and> msg_SentCount (uc_heap c ! r) = s"
    if "(h, r) \<in> set (uc_messages c)" for h r
    using assms(1) assms(2) [of r] that by (force simp: wf_cache_def list_all_iff refs)
  have "fold (\<lambda>(h, r) m. go_del m h) (uc_messages c) (uc_messages c) = []"
    by (auto simp: fold_del_all filter_empty_conv) force
  moreover have "map (\<lambda>(h, r). msg_RegistryMessage (uc_heap c ! r)) (uc_messages c) = cached_messages c"
    by (auto simp: cached_messages_def refs)
  ultimately show ?thesis
    using sender_fold [of "uc_messages c" c H s emit n w] assms(1) all
    by (simp add: sender_tick_def cache_List_def refs wf_cache_def)
qed

lemma tick_keeps_wf:
  assumes "wf_cache H c"
  shows "wf_cache H (c\<lparr>uc_heap := bump refs (uc_heap c)\<rparr>)"
    "cached_messages (c\<lparr>uc_heap := bump refs (uc_heap c)\<rparr>) = cached_messages c"
proof -
  have ref: "r < length (uc_heap c)" if "r \<in> set (go_values (uc_messages c))" for r
    using assms that by (auto simp: wf_cache_def list_all_iff go_values_def)
  show "wf_cache H (c\<lparr>uc_heap := bump refs (uc_heap c)\<rparr>)"
    using assms by (auto simp: wf_cache_def list_all_iff bump_nth)
  show "cached_messages (c\<lparr>uc_heap := bump refs (uc_heap c)\<rparr>) = cached_messages c"
    using ref by (auto simp: cached_messages_def bump_nth)
qed

lemma sender_ticks:
  assumes "wf_cache H c" "\<And>ref. ref \<in> set (go_values (uc_messages c)) \<Longrightarrow> msg_SentCount (uc_heap c ! ref) = 0"
    and "k < unat n"
  shows "\<exists>heap. (sender_tick H emit n ^^ k) (c, w) =
      (c\<lparr>uc_heap := heap\<rparr>, (emit_each emit (cached_messages c) ^^ k) w) \<and>
    wf_cache H (c\<lparr>uc_heap := heap\<rparr>) \<and> cached_messages (c\<lparr>uc_heap := heap\<rparr>) = cached_messages c \<and>
    (\<forall>ref \<in> set (go_values (uc_messages c)). msg_SentCount (heap ! ref) = of_nat k)"
  using assms(3)
proof (induction k)
  case 0
  show ?case using assms(1,2) by (intro exI [of _ "uc_heap c"]) simp
next
  case (Suc k)
  then obtain heap where IH: "(sender_tick H emit n ^^ k) (c, w) =
      (c\<lparr>uc_heap := heap\<rparr>, (emit_each emit (cached_messages c) ^^ k) w)"
    "wf_cache H (c\<lparr>uc_heap := heap\<rparr>)" "cached_messages (c\<lparr>uc_heap := heap\<rparr>) = cached_messages c"
    "\<And>ref. ref \<in> set (go_values (uc_messages c)) \<Longrightarrow> msg_SentCount (heap ! ref) = of_nat k" by auto
  have neq: "of_nat k + 1 \<noteq> n"
  proof
    assume "of_nat k + 1 = n"
    then have "n = of_nat (Suc k)" by (simp add: add.commute)
    then have "unat n \<le> Suc k" by (simp only: unat_of_nat mod_less_eq_dividend)
    with Suc.prems show False by simp
  qed
  let ?h = "bump (go_values (uc_messages c)) heap"
  have tick: "sender_tick H emit n (c\<lparr>uc_heap := heap\<rparr>, v) =
      (c\<lparr>uc_heap := heap\<rparr>\<lparr>uc_heap := ?h\<rparr>, emit_each emit (cached_messages c) v)" for v
    using sender_tick_eq [OF IH(2), of "of_nat k" emit n v] IH(3,4) neq by simp
  have refs: "ref < length heap" if "ref \<in> set (go_values (uc_messages c))" for ref
    using IH(2) that by (auto simp: wf_cache_def list_all_iff go_values_def)
  show ?case
    using IH tick_keeps_wf [OF IH(2), of "go_values (uc_messages c)"] refs
    by (intro exI [of _ ?h]) (simp add: tick bump_nth add.commute)
qed

text \<open>
  With nothing else running, every cached message that has not been sent yet is emitted in each of
  the next \<open>sendCount\<close> ticks and stays cached before the last of them; that tick empties the cache, so
  each message is emitted exactly \<open>sendCount\<close> times.
\<close>

theorem sender_sends_n_times:
  assumes "wf_cache H c" "list_all (\<lambda>ref. msg_SentCount (uc_heap c ! ref) = 0) (cache_List c)"
    and "n \<noteq> 0"
  shows "(\<forall>k < unat n. uc_messages (fst ((sender_tick H emit n ^^ k) (c, w))) = uc_messages c) \<and>
    uc_messages (fst ((sender_tick H emit n ^^ unat n) (c, w))) = [] \<and>
    snd ((sender_tick H emit n ^^ unat n) (c, w)) = (emit_each emit (cached_messages c) ^^ unat n) w"
proof (intro conjI allI impI)
  have zero: "msg_SentCount (uc_heap c ! ref) = 0" if "ref \<in> set (go_values (uc_messages c))" for ref
    using assms(2) that by (simp add: list_all_iff cache_List_def)
  fix k
  assume "k < unat n"
  from sender_ticks [OF assms(1) zero this, of emit w] show "uc_messages (fst ((sender_tick H emit n ^^ k) (c, w))) = uc_messages c"
    by auto
next
  have zero: "msg_SentCount (uc_heap c ! ref) = 0" if "ref \<in> set (go_values (uc_messages c))" for ref
    using assms(2) that by (simp add: list_all_iff cache_List_def)
  obtain k where k: "unat n = Suc k" using assms(3) by (metis not0_implies_Suc unat_eq_zero)
  have "of_nat (unat n) = n" by simp
  then have n: "of_nat k + 1 = n" by (simp add: k add.commute)
  have "k < unat n" using k by simp
  from sender_ticks [OF assms(1) zero this, of emit w] obtain heap where
    T: "(sender_tick H emit n ^^ k) (c, w) = (c\<lparr>uc_heap := heap\<rparr>, (emit_each emit (cached_messages c) ^^ k) w)"
    "wf_cache H (c\<lparr>uc_heap := heap\<rparr>)" "cached_messages (c\<lparr>uc_heap := heap\<rparr>) = cached_messages c"
    "\<And>ref. ref \<in> set (go_values (uc_messages c)) \<Longrightarrow> msg_SentCount (heap ! ref) = of_nat k" by auto
  note last = sender_tick_eq [OF T(2), of "of_nat k" emit n]
  show "uc_messages (fst ((sender_tick H emit n ^^ unat n) (c, w))) = []"
    using last T(3,4) by (simp add: k T(1) n)
  show "snd ((sender_tick H emit n ^^ unat n) (c, w)) = (emit_each emit (cached_messages c) ^^ unat n) w"
    using last T(3,4) by (simp add: k T(1) n)
qed

definition example_cache :: unreg_cache where
  "example_cache = fst (cache_Add example_hash [example_message ''a'', example_message ''bb''] NewCache)"

theorem sender_sends_n_times_witness:
  "let emit = (\<lambda>m w. (w @ UnregistrationMessages m, None)) in
   uc_messages (fst ((sender_tick example_hash emit 3 ^^ 3) (example_cache, []))) = [] \<and>
   snd ((sender_tick example_hash emit 3 ^^ 3) (example_cache, [])) =
     (emit_each emit (cached_messages example_cache) ^^ 3) []"
proof -
  have zero: "list_all (\<lambda>ref. msg_SentCount (uc_heap example_cache ! ref) = 0) (cache_List example_cache)"
    by code_simp
  have wf: "wf_cache example_hash example_cache" by code_simp
  have three: "(3::int64) \<noteq> 0" "unat (3::int64) = 3" by simp_all
  show ?thesis
    using sender_sends_n_times [OF wf zero three(1), of "\<lambda>m w. (w @ UnregistrationMessages m, None)" "[]"]
    unfolding three(2) Let_def by blast
qed

section \<open>The sender beside the handler\<close>

text \<open>
  The sender and the handler run in goroutines of their own. A state is the cache, the messages the
  sender has still to visit in the current tick, the message it is about to remove, and the
  unregistrations it has emitted. A step is \<open>None\<close> when it is not enabled.
\<close>

record unreg_sys =
  us_cache :: unreg_cache
  us_queue :: "nat list"
  us_removing :: "RegistryMessage option"
  us_sent :: "RegistryMessage list"

datatype unreg_event = Tick | Send | FinishRemove
  | HandlerAdd "RegistryMessage list" | HandlerRemove "RegistryMessage list"

fun unreg_step :: "hash_fn \<Rightarrow> int64 \<Rightarrow> unreg_event \<Rightarrow> unreg_sys \<Rightarrow> unreg_sys option" where
  "unreg_step H n Tick s =
     (if us_queue s = [] \<and> us_removing s = None then Some (s\<lparr>us_queue := cache_List (us_cache s)\<rparr>) else None)"
| "unreg_step H n Send s =
     (case (us_queue s, us_removing s) of
        (ref # refs, None) \<Rightarrow>
          (let (c, sent, r) = sender_send (\<lambda>m w. (w @ UnregistrationMessages m, None)) n ref (us_cache s, us_sent s) in
           Some (s\<lparr>us_cache := c, us_queue := refs, us_removing := r, us_sent := sent\<rparr>))
      | _ \<Rightarrow> None)"
| "unreg_step H n FinishRemove s =
     (case us_removing s of
        None \<Rightarrow> None
      | Some m \<Rightarrow> Some (s\<lparr>us_cache := fst (cache_Remove H [m] (us_cache s)), us_removing := None\<rparr>))"
| "unreg_step H n (HandlerAdd ms) s = Some (s\<lparr>us_cache := fst (cache_Add H ms (us_cache s))\<rparr>)"
| "unreg_step H n (HandlerRemove ms) s = Some (s\<lparr>us_cache := fst (cache_Remove H ms (us_cache s))\<rparr>)"

definition unreg_init :: unreg_sys where
  "unreg_init = \<lparr>us_cache = NewCache, us_queue = [], us_removing = None, us_sent = []\<rparr>"

inductive unreg_reachable :: "hash_fn \<Rightarrow> int64 \<Rightarrow> unreg_sys \<Rightarrow> bool" for H n where
  init: "unreg_reachable H n unreg_init"
| step: "unreg_reachable H n s \<Longrightarrow> unreg_step H n ev s = Some s' \<Longrightarrow> unreg_reachable H n s'"

fun unreg_run :: "hash_fn \<Rightarrow> int64 \<Rightarrow> unreg_event list \<Rightarrow> unreg_sys \<Rightarrow> unreg_sys option" where
  "unreg_run H n [] s = Some s"
| "unreg_run H n (ev # evs) s = (case unreg_step H n ev s of None \<Rightarrow> None | Some s' \<Rightarrow> unreg_run H n evs s')"

text \<open>The counts of a cached message and of a queued one, while one removal may be outstanding.\<close>

definition removing_hash :: "hash_fn \<Rightarrow> RegistryMessage option \<Rightarrow> uint64 \<Rightarrow> bool" where
  "removing_hash H r h = (case r of None \<Rightarrow> False | Some m \<Rightarrow> H m = Inr h)"

definition unreg_inv :: "hash_fn \<Rightarrow> int64 \<Rightarrow> unreg_sys \<Rightarrow> bool" where
  "unreg_inv H n s =
     (wf_cache H (us_cache s) \<and> distinct (us_queue s) \<and>
      (\<forall>ref \<in> set (us_queue s). ref < length (uc_heap (us_cache s)) \<and>
         (\<exists>h. H (msg_RegistryMessage (uc_heap (us_cache s) ! ref)) = Inr h) \<and>
         unat (msg_SentCount (uc_heap (us_cache s) ! ref)) < unat n) \<and>
      (\<forall>(h, ref) \<in> set (uc_messages (us_cache s)). unat (msg_SentCount (uc_heap (us_cache s) ! ref)) < unat n \<or>
         msg_SentCount (uc_heap (us_cache s) ! ref) = n \<and> removing_hash H (us_removing s) h))"

text \<open>What the handler's calls keep: old pointers stay valid, and new ones have not been sent.\<close>

definition cache_grows :: "unreg_cache \<Rightarrow> unreg_cache \<Rightarrow> bool" where
  "cache_grows c c' =
     (length (uc_heap c) \<le> length (uc_heap c') \<and> (\<forall>i < length (uc_heap c). uc_heap c' ! i = uc_heap c ! i) \<and>
      (\<forall>(h, ref) \<in> set (uc_messages c'). (h, ref) \<in> set (uc_messages c) \<or> msg_SentCount (uc_heap c' ! ref) = 0))"

lemma wf_cacheD:
  "wf_cache H c \<Longrightarrow> (h, ref) \<in> set (uc_messages c) \<Longrightarrow> ref < length (uc_heap c)"
  "wf_cache H c \<Longrightarrow> (h, ref) \<in> set (uc_messages c) \<Longrightarrow> H (msg_RegistryMessage (uc_heap c ! ref)) = Inr h"
  by (auto simp: wf_cache_def list_all_iff)

lemma set_go_put: "set (go_put m k v) \<subseteq> insert (k, v) (set m)"
  unfolding go_put_def by (induction m) auto

lemma distinct_values_put:
  assumes "distinct (map snd m)" "v \<notin> snd ` set m"
  shows "distinct (map snd (go_put m k v))"
  using assms unfolding go_put_def
proof (induction m)
  case (Cons p m)
  have "snd ` set (AList.update k v m) \<subseteq> insert v (snd ` set m)"
    using set_go_put [of m k v] unfolding go_put_def by force
  with Cons show ?case by (cases p) auto
qed simp

lemma wf_cache_put:
  assumes "wf_cache H c" "H m = Inr h"
  shows "wf_cache H (cache_put h m c) \<and> cache_grows c (cache_put h m c)"
proof -
  let ?n = "length (uc_heap c)"
  have old: "ref < ?n" "H (msg_RegistryMessage (uc_heap c ! ref)) = Inr h'" if "(h', ref) \<in> set (uc_messages c)" for h' ref
    using wf_cacheD [OF assms(1) that] by auto
  have items: "(h', ref) = (h, ?n) \<or> (h', ref) \<in> set (uc_messages c)" if "(h', ref) \<in> set (go_put (uc_messages c) h ?n)" for h' ref
    using that set_go_put [of "uc_messages c" h ?n] by blast
  have "distinct (map snd (go_put (uc_messages c) h ?n))"
  proof (rule distinct_values_put)
    show "distinct (map snd (uc_messages c))" using assms(1) by (simp add: wf_cache_def go_values_def)
    show "?n \<notin> snd ` set (uc_messages c)" using old(1) by fastforce
  qed
  with assms items old show ?thesis
    by (fastforce simp: wf_cache_def cache_grows_def cache_put_def list_all_iff nth_append go_values_def)
qed

lemma cache_grows_trans: "cache_grows a b \<Longrightarrow> cache_grows b c \<Longrightarrow> wf_cache H b \<Longrightarrow> cache_grows a c"
  unfolding cache_grows_def by (fastforce dest: wf_cacheD(1))

lemma cache_grows_refl: "cache_grows c c"
  by (auto simp: cache_grows_def)

lemma wf_cache_Add: "wf_cache H c \<Longrightarrow> wf_cache H (fst (cache_Add H ms c)) \<and> cache_grows c (fst (cache_Add H ms c))"
proof (induction H ms c rule: cache_Add.induct)
  case (1 H c)
  then show ?case by (simp add: cache_grows_refl)
next
  case (2 H x ms c)
  show ?case
  proof (cases "H x")
    case (Inl err)
    with "2.prems" show ?thesis by (simp add: cache_grows_refl)
  next
    case (Inr h)
    have put: "wf_cache H (cache_put h x c)" "cache_grows c (cache_put h x c)"
      using wf_cache_put [OF "2.prems" Inr] by auto
    with "2.IH" [OF Inr put(1)] Inr show ?thesis by (auto intro: cache_grows_trans)
  qed
qed

lemma wf_cache_del: "wf_cache H c \<Longrightarrow> wf_cache H (c\<lparr>uc_messages := go_del (uc_messages c) h\<rparr>)"
  by (auto simp: wf_cache_def list_all_iff go_values_def go_del_def AList.delete_eq go_wf_def
      distinct_map_filter)

lemma cache_Remove_shrinks:
  "wf_cache H c \<Longrightarrow> wf_cache H (fst (cache_Remove H ms c)) \<and> uc_heap (fst (cache_Remove H ms c)) = uc_heap c \<and>
     set (uc_messages (fst (cache_Remove H ms c))) \<subseteq> set (uc_messages c)"
proof (induction H ms c rule: cache_Remove.induct)
  case (2 H x ms c)
  show ?case
  proof (cases "H x")
    case (Inr h)
    have "set (go_del (uc_messages c) h) \<subseteq> set (uc_messages c)" by (auto simp: go_del_def AList.delete_eq)
    with "2.IH" [OF Inr wf_cache_del [OF "2.prems"]] Inr show ?thesis by auto
  qed (use "2.prems" in simp)
qed simp

lemma unat_Suc_below:
  fixes a b :: int64
  assumes "unat a < unat b"
  shows "unat (a + 1) = unat a + 1"
proof -
  have "unat b < 2 ^ 64" using unsigned_less [of b] by simp
  with assms have "unat a + unat (1 :: int64) < 2 ^ LENGTH(64)" by simp
  then have "unat (a + 1) = unat a + unat (1 :: int64)" by (simp only: unat_add_lem)
  then show ?thesis by simp
qed

lemma unreg_inv_Send:
  assumes "unreg_inv H n s" "us_queue s = ref # refs" "us_removing s = None" "unreg_step H n Send s = Some s'"
  shows "unreg_inv H n s'"
proof -
  let ?c = "us_cache s"
  let ?m = "uc_heap ?c ! ref"
  let ?heap = "(uc_heap ?c)[ref := ?m\<lparr>msg_SentCount := msg_SentCount ?m + 1\<rparr>]"
  have wf: "wf_cache H ?c" and ref: "ref < length (uc_heap ?c)" "ref \<notin> set refs" "distinct refs"
    and lt: "unat (msg_SentCount ?m) < unat n"
    and queue: "\<And>r. r \<in> set refs \<Longrightarrow> r < length (uc_heap ?c) \<and>
      (\<exists>h. H (msg_RegistryMessage (uc_heap ?c ! r)) = Inr h) \<and> unat (msg_SentCount (uc_heap ?c ! r)) < unat n"
    and items: "\<And>h r. (h, r) \<in> set (uc_messages ?c) \<Longrightarrow> unat (msg_SentCount (uc_heap ?c ! r)) < unat n"
    using assms(1-3) by (auto simp: unreg_inv_def removing_hash_def)
  have inc: "unat (msg_SentCount ?m + 1) = unat (msg_SentCount ?m) + 1" by (rule unat_Suc_below [OF lt])
  have less: "unat (msg_SentCount ?m + 1) < unat n" if "msg_SentCount ?m + 1 \<noteq> n"
  proof -
    have "unat (msg_SentCount ?m + 1) \<noteq> unat n" using that unfolding word_unat_eq_iff .
    with inc lt show ?thesis by linarith
  qed
  have s': "s' = s\<lparr>us_cache := ?c\<lparr>uc_heap := ?heap\<rparr>, us_queue := refs,
      us_removing := (if msg_SentCount ?m + 1 = n then Some (msg_RegistryMessage ?m) else None),
      us_sent := us_sent s @ [msg_RegistryMessage ?m]\<rparr>"
    using assms(2-4) by (auto simp: sender_send_def Let_def unregister_one_def)
  have reg: "msg_RegistryMessage (?heap ! r) = msg_RegistryMessage (uc_heap ?c ! r)" for r
    using ref(1) by (cases "r = ref") auto
  have wf': "wf_cache H (?c\<lparr>uc_heap := ?heap\<rparr>)"
    using wf by (simp add: wf_cache_def reg)
  have "unat (msg_SentCount (?heap ! r)) < unat n \<or> msg_SentCount (?heap ! r) = n \<and> removing_hash H (us_removing s') h"
    if "(h, r) \<in> set (uc_messages ?c)" for h r
  proof (cases "r = ref")
    case True
    with that wf_cacheD(2) [OF wf that] ref(1) less show ?thesis
      by (cases "msg_SentCount ?m + 1 = n") (auto simp: s' removing_hash_def)
  next
    case False
    with items [OF that] show ?thesis by simp
  qed
  moreover have "?heap ! r = uc_heap ?c ! r" if "r \<in> set refs" for r using ref(2) that by (cases "r = ref") auto
  moreover have "us_cache s' = ?c\<lparr>uc_heap := ?heap\<rparr>" "us_queue s' = refs" by (simp_all add: s')
  ultimately show ?thesis using wf' queue ref(3) unfolding unreg_inv_def by (auto simp del: nth_list_update)
qed

lemma unreg_inv_Remove:
  assumes "unreg_inv H n s" "us_removing s = None \<or> us_removing s = Some m \<and> ms = [m]"
  shows "unreg_inv H n (s\<lparr>us_cache := fst (cache_Remove H ms (us_cache s)), us_removing := None\<rparr>)"
proof -
  let ?c = "us_cache s" and ?c' = "fst (cache_Remove H ms (us_cache s))"
  have wf: "wf_cache H ?c" using assms(1) by (simp add: unreg_inv_def)
  note shr = cache_Remove_shrinks [OF wf, of ms]
  have "unat (msg_SentCount (uc_heap ?c ! r)) < unat n" if "(h, r) \<in> set (uc_messages ?c')" for h r
  proof -
    have old: "(h, r) \<in> set (uc_messages ?c)" using that shr by blast
    have "\<not> removing_hash H (us_removing s) h"
    proof
      assume rh: "removing_hash H (us_removing s) h"
      with assms(2) have "ms = [m]" "H m = Inr h" by (auto simp: removing_hash_def)
      then have "?c' = ?c\<lparr>uc_messages := go_del (uc_messages ?c) h\<rparr>" by simp
      with that show False by (auto simp: go_del_def AList.delete_eq)
    qed
    with assms(1) old show ?thesis by (auto simp: unreg_inv_def)
  qed
  with assms(1) shr show ?thesis by (auto simp: unreg_inv_def)
qed

lemma unreg_inv_HandlerRemove:
  assumes "unreg_inv H n s"
  shows "unreg_inv H n (s\<lparr>us_cache := fst (cache_Remove H ms (us_cache s))\<rparr>)"
proof -
  have "wf_cache H (us_cache s)" using assms by (simp add: unreg_inv_def)
  from cache_Remove_shrinks [OF this, of ms] assms show ?thesis by (auto simp: unreg_inv_def)
qed

lemma unreg_inv_HandlerAdd:
  assumes "unreg_inv H n s" "n \<noteq> 0"
  shows "unreg_inv H n (s\<lparr>us_cache := fst (cache_Add H ms (us_cache s))\<rparr>)"
proof -
  let ?c = "us_cache s" and ?c' = "fst (cache_Add H ms (us_cache s))"
  have wf: "wf_cache H ?c" using assms(1) by (simp add: unreg_inv_def)
  have wf': "wf_cache H ?c'" and grow: "cache_grows ?c ?c'" using wf_cache_Add [OF wf, of ms] by auto
  have keep: "uc_heap ?c' ! r = uc_heap ?c ! r" "r < length (uc_heap ?c')" if "r < length (uc_heap ?c)" for r
    using grow that by (auto simp: cache_grows_def)
  have pos: "0 < unat n" using assms(2) by (simp add: unat_gt_0)
  have "unat (msg_SentCount (uc_heap ?c' ! r)) < unat n \<or>
      msg_SentCount (uc_heap ?c' ! r) = n \<and> removing_hash H (us_removing s) h" if "(h, r) \<in> set (uc_messages ?c')" for h r
  proof (cases "(h, r) \<in> set (uc_messages ?c)")
    case True
    with assms(1) keep [OF wf_cacheD(1) [OF wf True]] show ?thesis by (auto simp: unreg_inv_def)
  next
    case False
    with that grow have "msg_SentCount (uc_heap ?c' ! r) = 0" by (auto simp: cache_grows_def)
    with pos show ?thesis by simp
  qed
  moreover have "r < length (uc_heap ?c) \<Longrightarrow> uc_heap ?c' ! r = uc_heap ?c ! r" for r by (rule keep)
  ultimately show ?thesis using assms(1) wf' keep(2) by (auto simp: unreg_inv_def)
qed

lemma unreg_step_inv:
  assumes "n \<noteq> 0" "unreg_inv H n s" "unreg_step H n ev s = Some s'"
  shows "unreg_inv H n s'"
proof (cases ev)
  case Tick
  then have q: "us_queue s = []" "us_removing s = None" and s': "s' = s\<lparr>us_queue := cache_List (us_cache s)\<rparr>"
    using assms(3) by (auto split: if_splits)
  have wf: "wf_cache H (us_cache s)" using assms(2) by (simp add: unreg_inv_def)
  have "distinct (cache_List (us_cache s))" using wf by (simp add: wf_cache_def cache_List_def)
  moreover have "\<exists>h. (h, r) \<in> set (uc_messages (us_cache s))" if "r \<in> set (cache_List (us_cache s))" for r
    using that by (auto simp: cache_List_def go_values_def)
  ultimately show ?thesis using assms(2) q wf_cacheD [OF wf]
    by (fastforce simp: s' unreg_inv_def removing_hash_def)
next
  case Send
  then obtain ref refs where "us_queue s = ref # refs" "us_removing s = None"
    using assms(3) by (auto split: list.splits option.splits)
  with unreg_inv_Send [OF assms(2)] assms(3) Send show ?thesis by blast
next
  case FinishRemove
  then obtain m where "us_removing s = Some m" using assms(3) by (auto split: option.splits)
  with unreg_inv_Remove [OF assms(2), of m "[m]"] assms(3) FinishRemove show ?thesis by auto
next
  case (HandlerAdd ms)
  with assms(3) unreg_inv_HandlerAdd [OF assms(2,1), of ms] show ?thesis by auto
next
  case (HandlerRemove ms)
  with assms(3) unreg_inv_HandlerRemove [OF assms(2), of ms] show ?thesis by auto
qed


lemma unreg_run_reachable: "unreg_reachable H n s \<Longrightarrow> unreg_run H n evs s = Some s' \<Longrightarrow> unreg_reachable H n s'"
proof (induction evs arbitrary: s)
  case (Cons ev evs)
  then show ?case by (auto split: option.splits intro: unreg_reachable.step)
qed simp


text \<open>
  The sender works on the list it read at the start of a tick, so a message the handler removes
  during the tick, because its route was registered again, is still unregistered afterwards.
\<close>

theorem unregister_after_remove:
  "case unreg_run example_hash 2
      [HandlerAdd [example_message ''a''], Tick, HandlerRemove [example_message ''a''], Send] unreg_init of
     None \<Rightarrow> False
   | Some s \<Rightarrow> us_sent s = [example_message ''a''] \<and> \<not> pending example_hash (us_cache s) (example_message ''a'')"
  by code_simp

text \<open>
  The sender removes by hash, not by identity: a message the handler adds again between the last
  emission and the removal is dropped from the cache without ever being sent for the second time.
\<close>

theorem readded_message_dropped:
  "case unreg_run example_hash 1
      [HandlerAdd [example_message ''a''], Tick, Send, HandlerAdd [example_message ''a''], FinishRemove] unreg_init of
     None \<Rightarrow> False
   | Some s \<Rightarrow> us_sent s = [example_message ''a''] \<and> uc_messages (us_cache s) = []"
  by code_simp

end
