(* ===== verification/Handler.thy ===== *)
theory Handler
  imports Table_Addresses Unregistration
begin

text \<open>
  \<open>routehandlers/handler.go\<close>: the handler that turns events into calls of the routing table and sends
  the result to the emitters.

  A handler value holds the routing table, the unregistration cache and, in \<open>h_actions\<close>, the calls made
  on the emitters and the metrics client, in order. The handler only logs the errors these calls
  return, so they do not influence it. Emitters that are nil are \<open>False\<close>. Log lines are not modelled.
\<close>

section \<open>State\<close>

datatype handler_action =
    EmitNATS MessagesToEmit
  | EmitRoutingAPI TCPRouteMappings
  | IncrementCounter string
  | IncrementCounterWithDelta string uint64
  | SendMetric string nat

record Handler =
  h_routingTable :: routingTable
  h_natsEmitter :: bool
  h_routingAPIEmitter :: bool
  h_localMode :: bool
  h_tcpTLSEnabled :: bool
  h_unregistrationCache :: unreg_cache
  h_actions :: "handler_action list"

definition NewHandler :: "routingTable \<Rightarrow> bool \<Rightarrow> bool \<Rightarrow> bool \<Rightarrow> bool \<Rightarrow> unreg_cache \<Rightarrow> Handler" where
  "NewHandler table nats api localMode tcpTLSEnabled cache =
     \<lparr>h_routingTable = table, h_natsEmitter = nats, h_routingAPIEmitter = api, h_localMode = localMode,
      h_tcpTLSEnabled = tcpTLSEnabled, h_unregistrationCache = cache, h_actions = []\<rparr>"

definition routesTotalMetric :: string where "routesTotalMetric = ''RoutesTotal''"
definition routesSyncedCounter :: string where "routesSyncedCounter = ''RoutesSynced''"
definition routesRegisteredCounter :: string where "routesRegisteredCounter = ''RoutesRegistered''"
definition routesUnregisteredCounter :: string where "routesUnregisteredCounter = ''RoutesUnregistered''"
definition httpRouteCount :: string where "httpRouteCount = ''HTTPRouteCount''"
definition tcpRouteCount :: string where "tcpRouteCount = ''TCPRouteCount''"

definition act :: "handler_action list \<Rightarrow> Handler \<Rightarrow> Handler" where
  "act xs h = h\<lparr>h_actions := h_actions h @ xs\<rparr>"

section \<open>Emitting\<close>

definition emitMessages :: "MessagesToEmit \<Rightarrow> TCPRouteMappings \<Rightarrow> Handler \<Rightarrow> Handler" where
  "emitMessages messagesToEmit routeMappings h =
     (let h = (if h_natsEmitter h
           then act [EmitNATS messagesToEmit,
             IncrementCounterWithDelta routesRegisteredCounter (RouteRegistrationCount messagesToEmit),
             IncrementCounterWithDelta routesUnregisteredCounter (RouteUnregistrationCount messagesToEmit)] h
           else h) in
      if h_routingAPIEmitter h then act [EmitRoutingAPI routeMappings] h else h)"

definition EmitExternal :: "Handler \<Rightarrow> Handler" where
  "EmitExternal h =
     (let (routingEvents, messagesToEmit) = GetExternalRoutingEvents (h_routingTable h);
          h = (if h_natsEmitter h then act [EmitNATS messagesToEmit] h else h);
          h = (if h_routingAPIEmitter h then act [EmitRoutingAPI routingEvents] h else h) in
      act [IncrementCounterWithDelta routesSyncedCounter (RouteRegistrationCount messagesToEmit),
        SendMetric routesTotalMetric (HTTPAssociationsCount (h_routingTable h))] h)"

definition EmitInternal :: "Handler \<Rightarrow> Handler" where
  "EmitInternal h =
     (let (_, messagesToEmit) = GetInternalRoutingEvents (h_routingTable h) in
      if h_natsEmitter h then act [EmitNATS messagesToEmit] h else h)"

section \<open>Calls of the routing table\<close>

text \<open>Each returns the handler with its new table, the mappings and the messages.\<close>

definition table_AddEndpoint :: "bbs_env \<Rightarrow> ActualLRP \<Rightarrow> Handler \<Rightarrow> Handler \<times> TCPRouteMappings \<times> MessagesToEmit" where
  "table_AddEndpoint E actualLRP h =
     (let (t, (mappings, msgs), counters) = AddEndpoint E (h_routingTable h) actualLRP in
      (act (map IncrementCounter counters) (h\<lparr>h_routingTable := t\<rparr>), mappings, msgs))"

definition table_RemoveEndpoint :: "bbs_env \<Rightarrow> ActualLRP \<Rightarrow> Handler \<Rightarrow> Handler \<times> TCPRouteMappings \<times> MessagesToEmit" where
  "table_RemoveEndpoint E actualLRP h =
     (let (t, mappings, msgs) = RemoveEndpoint E (h_routingTable h) actualLRP in
      (h\<lparr>h_routingTable := t\<rparr>, mappings, msgs))"

definition table_SetRoutes :: "bbs_env \<Rightarrow> DesiredLRP option \<Rightarrow> DesiredLRP option \<Rightarrow> Handler \<Rightarrow>
    Handler \<times> TCPRouteMappings \<times> MessagesToEmit" where
  "table_SetRoutes E before after h =
     (let (t, mappings, msgs) = SetRoutes E (h_routingTable h) before after in
      (h\<lparr>h_routingTable := t\<rparr>, mappings, msgs))"

definition table_RemoveRoutes :: "bbs_env \<Rightarrow> DesiredLRP option \<Rightarrow> Handler \<Rightarrow>
    Handler \<times> TCPRouteMappings \<times> MessagesToEmit" where
  "table_RemoveRoutes E desiredLRP h =
     (let (t, mappings, msgs) = RemoveRoutes E (h_routingTable h) desiredLRP in
      (h\<lparr>h_routingTable := t\<rparr>, mappings, msgs))"

section \<open>Events\<close>

definition handleDesiredCreate :: "bbs_env \<Rightarrow> DesiredLRP option \<Rightarrow> Handler \<Rightarrow> Handler" where
  "handleDesiredCreate E desiredLRP h =
     (let (h, routeMappings, messagesToEmit) = table_SetRoutes E None desiredLRP h in
      emitMessages messagesToEmit routeMappings h)"

text \<open>The tail of both update handlers: keep the cache up to date, then emit; an error stops it.\<close>

definition cache_and_emit :: "hash_fn \<Rightarrow> MessagesToEmit \<Rightarrow> TCPRouteMappings \<Rightarrow> Handler \<Rightarrow> Handler \<times> go_error option" where
  "cache_and_emit U messagesToEmit routeMappings h =
     (case cache_Add U (UnregistrationMessages messagesToEmit) (h_unregistrationCache h) of
        (c, Some err) \<Rightarrow> (h\<lparr>h_unregistrationCache := c\<rparr>, Some err)
      | (c, None) \<Rightarrow>
          (case cache_Remove U (RegistrationMessages messagesToEmit) c of
             (c', Some err) \<Rightarrow> (h\<lparr>h_unregistrationCache := c'\<rparr>, Some err)
           | (c', None) \<Rightarrow> (emitMessages messagesToEmit routeMappings (h\<lparr>h_unregistrationCache := c'\<rparr>), None)))"

definition handleDesiredUpdate :: "bbs_env \<Rightarrow> hash_fn \<Rightarrow> DesiredLRP option \<Rightarrow> DesiredLRP option \<Rightarrow> Handler \<Rightarrow>
    Handler \<times> go_error option" where
  "handleDesiredUpdate E U before after h =
     (let (h, routeMappings, messagesToEmit) = table_SetRoutes E before after h in
      cache_and_emit U messagesToEmit routeMappings h)"

definition handleDesiredDelete :: "bbs_env \<Rightarrow> DesiredLRP option \<Rightarrow> Handler \<Rightarrow> Handler" where
  "handleDesiredDelete E desiredLRP h =
     (let (h, routeMappings, messagesToEmit) = table_RemoveRoutes E desiredLRP h in
      emitMessages messagesToEmit routeMappings h)"

definition handleActualCreate :: "bbs_env \<Rightarrow> ActualLRP \<Rightarrow> Handler \<Rightarrow> Handler" where
  "handleActualCreate E actualLRP h =
     (if al_State actualLRP \<noteq> ActualLRPStateRunning then h
      else (let (h, routeMappings, messagesToEmit) = table_AddEndpoint E actualLRP h in
        emitMessages messagesToEmit routeMappings h))"

definition handleActualUpdate :: "bbs_env \<Rightarrow> hash_fn \<Rightarrow> ActualLRP \<Rightarrow> ActualLRP \<Rightarrow> Handler \<Rightarrow>
    Handler \<times> go_error option" where
  "handleActualUpdate E U before after h =
     (let (h, routeMappings, messagesToEmit) =
        (if al_State after = ActualLRPStateRunning then
           (let (h, routeMappings, messagesToEmit) =
              (if \<not> al_RoutableExists after \<or> al_GetRoutable after then table_AddEndpoint E after h
               else if al_GetRoutable before then table_RemoveEndpoint E after h
               else (h, no_mappings, no_messages)) in
            if al_State before = ActualLRPStateRunning \<and> al_Presence before = ActualLRP_Ordinary \<and>
               al_Presence after = ActualLRP_Evacuating
            then (let (h, removeRouteMappings, removeMessagesToEmit) = table_RemoveEndpoint E before h in
              (h, TCPRouteMappings_Merge routeMappings removeRouteMappings,
               MessagesToEmit_Merge messagesToEmit removeMessagesToEmit))
            else (h, routeMappings, messagesToEmit))
         else if al_State before = ActualLRPStateRunning \<and> al_State after \<noteq> ActualLRPStateRunning
         then table_RemoveEndpoint E before h
         else (h, no_mappings, no_messages)) in
      cache_and_emit U messagesToEmit routeMappings h)"

definition handleActualDelete :: "bbs_env \<Rightarrow> ActualLRP option \<Rightarrow> Handler \<Rightarrow> Handler" where
  "handleActualDelete E actualLRP h =
     (case actualLRP of
        None \<Rightarrow> h
      | Some a \<Rightarrow>
          if al_State a \<noteq> ActualLRPStateRunning then h
          else (let (h, routeMappings, messagesToEmit) = table_RemoveEndpoint E a h in
            emitMessages messagesToEmit routeMappings h))"

fun HandleEvent :: "bbs_env \<Rightarrow> hash_fn \<Rightarrow> Event \<Rightarrow> Handler \<Rightarrow> Handler" where
  "HandleEvent E U (DesiredLRPCreatedEvent traceId desiredLrp) h = handleDesiredCreate E desiredLrp h"
| "HandleEvent E U (DesiredLRPChangedEvent traceId before after) h = fst (handleDesiredUpdate E U before after h)"
| "HandleEvent E U (DesiredLRPRemovedEvent traceId desiredLrp) h = handleDesiredDelete E desiredLrp h"
| "HandleEvent E U (ActualLRPInstanceCreatedEvent traceId actualLrp) h =
     (case actualLrp of None \<Rightarrow> h | Some a \<Rightarrow> handleActualCreate E a h)"
| "HandleEvent E U (ActualLRPInstanceChangedEvent traceId eventBefore eventAfter key instanceKey) h =
     (let before = ToActualLRP E eventBefore key instanceKey; after = ToActualLRP E eventAfter key instanceKey in
      case (before, after) of
        (Some b, Some a) \<Rightarrow> fst (handleActualUpdate E U b a h)
      | _ \<Rightarrow> h)"
| "HandleEvent E U (ActualLRPInstanceRemovedEvent traceId actualLrp) h =
     (case actualLrp of None \<Rightarrow> h | Some a \<Rightarrow> handleActualDelete E (Some a) h)"
| "HandleEvent E U (UnrecognizedEvent eventType) h = h"

section \<open>Synchronisation and refresh\<close>

text \<open>
  \<open>Sync\<close> builds a new table, replays the cached events on it with the emitters switched off, and
  swaps it in. The replay runs through \<open>HandleEvent\<close> with the new table in the handler's place, so it
  also changes the unregistration cache.
\<close>

definition sync_table :: "bbs_env \<Rightarrow> bool \<Rightarrow> DesiredLRP list \<Rightarrow> ActualLRP list \<Rightarrow> routingTable \<times> string list" where
  "sync_table E tcpTLSEnabled desired actuals =
     (let newTable = NewRoutingTable E False tcpTLSEnabled;
          newTable = fold (\<lambda>lrp t. fst (SetRoutes E t None (Some lrp))) desired newTable in
      fold (\<lambda>lrp (t, cs). (let (t', _, cs') = AddEndpoint E t lrp in (t', cs @ cs'))) actuals (newTable, []))"

definition Sync :: "bbs_env \<Rightarrow> hash_fn \<Rightarrow> DesiredLRP list \<Rightarrow> ActualLRP list \<Rightarrow> DomainSet \<Rightarrow>
    (string, Event) gomap \<Rightarrow> Handler \<Rightarrow> Handler" where
  "Sync E U desired actuals domains cachedEvents h =
     (let (newTable, counters) = sync_table E (h_tcpTLSEnabled h) desired actuals;
          h = act (map IncrementCounter counters) h;
          natsEmitter = h_natsEmitter h; routingAPIEmitter = h_routingAPIEmitter h; table = h_routingTable h;
          h = h\<lparr>h_natsEmitter := False, h_routingAPIEmitter := False, h_routingTable := newTable\<rparr>;
          h = fold (HandleEvent E U) (go_values cachedEvents) h;
          newTable = h_routingTable h;
          h = h\<lparr>h_routingTable := table, h_natsEmitter := natsEmitter, h_routingAPIEmitter := routingAPIEmitter\<rparr>;
          (t, routeMappings, messages) = Swap (h_routingTable h) (Some newTable) domains;
          h = h\<lparr>h_routingTable := t\<rparr>;
          h = h\<lparr>h_unregistrationCache := fst (cache_Add U (UnregistrationMessages messages) (h_unregistrationCache h))\<rparr>;
          h = h\<lparr>h_unregistrationCache := fst (cache_Remove U (RegistrationMessages messages) (h_unregistrationCache h))\<rparr>;
          h = emitMessages messages routeMappings h in
      if h_localMode h
      then act [SendMetric httpRouteCount (HTTPAssociationsCount (h_routingTable h)),
        SendMetric tcpRouteCount (TCPAssociationsCount (h_routingTable h))] h
      else h)"

definition refresh_one :: "bbs_env \<Rightarrow> DesiredLRP \<Rightarrow> Handler \<Rightarrow> Handler" where
  "refresh_one E desiredLRP h =
     (let (h, routeMappings, messagesToEmit) = table_SetRoutes E None (Some desiredLRP) h in
      emitMessages messagesToEmit routeMappings h)"

definition RefreshDesired :: "bbs_env \<Rightarrow> DesiredLRP list \<Rightarrow> Handler \<Rightarrow> Handler" where
  "RefreshDesired E desiredLRPs h = fold (refresh_one E) desiredLRPs h"

text \<open>\<open>None\<close> is the panic of \<open>HasExternalRoutes\<close> on a nil port mapping.\<close>

definition ShouldRefreshDesired :: "ActualLRP \<Rightarrow> Handler \<Rightarrow> bool option" where
  "ShouldRefreshDesired actualLRP h = map_option Not (HasExternalRoutes (h_routingTable h) actualLRP)"

section \<open>The table calls behind an event\<close>

text \<open>
  The specification of an event, as seen by the routing table: which operations it performs. An event
  about an instance that is missing or not running, and an unknown event, performs none.
\<close>

definition actual_update_ops :: "ActualLRP \<Rightarrow> ActualLRP \<Rightarrow> table_op list" where
  "actual_update_ops before after =
     (if al_State after = ActualLRPStateRunning then
        (if \<not> al_RoutableExists after \<or> al_GetRoutable after then [OpAddEndpoint after]
         else if al_GetRoutable before then [OpRemoveEndpoint after] else []) @
        (if al_State before = ActualLRPStateRunning \<and> al_Presence before = ActualLRP_Ordinary \<and>
            al_Presence after = ActualLRP_Evacuating then [OpRemoveEndpoint before] else [])
      else if al_State before = ActualLRPStateRunning then [OpRemoveEndpoint before] else [])"

fun event_ops :: "bbs_env \<Rightarrow> Event \<Rightarrow> table_op list" where
  "event_ops E (DesiredLRPCreatedEvent traceId d) = [OpSetRoutes None d]"
| "event_ops E (DesiredLRPChangedEvent traceId before after) = [OpSetRoutes before after]"
| "event_ops E (DesiredLRPRemovedEvent traceId d) = [OpRemoveRoutes d]"
| "event_ops E (ActualLRPInstanceCreatedEvent traceId actualLrp) =
     (case actualLrp of None \<Rightarrow> []
      | Some a \<Rightarrow> if al_State a = ActualLRPStateRunning then [OpAddEndpoint a] else [])"
| "event_ops E (ActualLRPInstanceChangedEvent traceId before after key ikey) =
     (case (ToActualLRP E before key ikey, ToActualLRP E after key ikey) of
        (Some b, Some a) \<Rightarrow> actual_update_ops b a
      | _ \<Rightarrow> [])"
| "event_ops E (ActualLRPInstanceRemovedEvent traceId actualLrp) =
     (case actualLrp of None \<Rightarrow> []
      | Some a \<Rightarrow> if al_State a = ActualLRPStateRunning then [OpRemoveEndpoint a] else [])"
| "event_ops E (UnrecognizedEvent eventType) = []"

text \<open>What a list of operations returns in all, merged in order.\<close>

fun ops_output :: "bbs_env \<Rightarrow> bool \<Rightarrow> table_op list \<Rightarrow> routingTable \<Rightarrow> TCPRouteMappings \<times> MessagesToEmit" where
  "ops_output E tls [] t = (no_mappings, no_messages)"
| "ops_output E tls (x # ops) t =
     (let (t', m, msgs) = apply_op E tls x t; (m', msgs') = ops_output E tls ops t' in
      (TCPRouteMappings_Merge m m', MessagesToEmit_Merge msgs msgs'))"

fun is_emission :: "handler_action \<Rightarrow> bool" where
  "is_emission (EmitNATS _) = True"
| "is_emission (EmitRoutingAPI _) = True"
| "is_emission _ = False"

definition emissions :: "Handler \<Rightarrow> handler_action list" where
  "emissions h = filter is_emission (h_actions h)"

text \<open>The emissions of one set of messages through the emitters that are configured.\<close>

definition emit_actions :: "Handler \<Rightarrow> TCPRouteMappings \<times> MessagesToEmit \<Rightarrow> handler_action list" where
  "emit_actions h out = (if h_natsEmitter h then [EmitNATS (snd out)] else []) @
     (if h_routingAPIEmitter h then [EmitRoutingAPI (fst out)] else [])"

text \<open>The configuration no call changes.\<close>

definition handler_config :: "Handler \<Rightarrow> bool \<times> bool \<times> bool \<times> bool" where
  "handler_config h = (h_natsEmitter h, h_routingAPIEmitter h, h_localMode h, h_tcpTLSEnabled h)"

lemma act_fields [simp]:
  "h_routingTable (act xs h) = h_routingTable h" "handler_config (act xs h) = handler_config h"
  "h_unregistrationCache (act xs h) = h_unregistrationCache h"
  "emissions (act xs h) = emissions h @ filter is_emission xs"
  by (simp_all add: act_def handler_config_def emissions_def)

lemma act_flags [simp]:
  "h_natsEmitter (act xs h) = h_natsEmitter h" "h_routingAPIEmitter (act xs h) = h_routingAPIEmitter h"
  "h_localMode (act xs h) = h_localMode h" "h_tcpTLSEnabled (act xs h) = h_tcpTLSEnabled h"
  by (simp_all add: act_def)

lemma emissions_update [simp]:
  "emissions (h\<lparr>h_routingTable := t\<rparr>) = emissions h"
  "emissions (h\<lparr>h_unregistrationCache := c\<rparr>) = emissions h"
  "handler_config (h\<lparr>h_routingTable := t\<rparr>) = handler_config h"
  "handler_config (h\<lparr>h_unregistrationCache := c\<rparr>) = handler_config h"
  by (simp_all add: emissions_def handler_config_def)

lemma emit_actions_config: "handler_config h = handler_config h' \<Longrightarrow> emit_actions h out = emit_actions h' out"
  by (simp add: emit_actions_def handler_config_def)

lemma no_emission_counters [simp]: "filter is_emission (map IncrementCounter cs) = []"
  by (induction cs) auto

lemma emitMessages_fields [simp]:
  "h_routingTable (emitMessages msgs m h) = h_routingTable h"
  "handler_config (emitMessages msgs m h) = handler_config h"
  "h_unregistrationCache (emitMessages msgs m h) = h_unregistrationCache h"
  "emissions (emitMessages msgs m h) = emissions h @ emit_actions h (m, msgs)"
  by (simp_all add: emitMessages_def Let_def emit_actions_def)

lemma cache_and_emit_fields [simp]:
  "h_routingTable (fst (cache_and_emit U msgs m h)) = h_routingTable h"
  "handler_config (fst (cache_and_emit U msgs m h)) = handler_config h"
  by (simp_all add: cache_and_emit_def split: prod.splits option.splits)

text \<open>Each table call performs its operation and leaves the rest of the handler alone.\<close>

definition performs :: "bbs_env \<Rightarrow> table_op list \<Rightarrow> Handler \<Rightarrow> Handler \<times> TCPRouteMappings \<times> MessagesToEmit \<Rightarrow> bool" where
  "performs E ops h r = (h_routingTable (fst r) = run_ops E (h_tcpTLSEnabled h) ops (h_routingTable h) \<and>
     snd r = ops_output E (h_tcpTLSEnabled h) ops (h_routingTable h) \<and>
     handler_config (fst r) = handler_config h \<and> emissions (fst r) = emissions h \<and>
     h_unregistrationCache (fst r) = h_unregistrationCache h)"

lemma performs_none: "performs E [] h (h, no_mappings, no_messages)"
  by (simp add: performs_def)

lemma table_calls_perform:
  "performs E [OpAddEndpoint a] h (table_AddEndpoint E a h)"
  "performs E [OpRemoveEndpoint a] h (table_RemoveEndpoint E a h)"
  "performs E [OpSetRoutes before after] h (table_SetRoutes E before after h)"
  "performs E [OpRemoveRoutes before] h (table_RemoveRoutes E before h)"
  by (simp_all add: performs_def table_AddEndpoint_def table_RemoveEndpoint_def table_SetRoutes_def
      table_RemoveRoutes_def split: prod.splits)

lemma ops_output_append:
  "ops_output E tls (xs @ ys) t =
     (let (m, msgs) = ops_output E tls xs t; (m', msgs') = ops_output E tls ys (run_ops E tls xs t) in
      (TCPRouteMappings_Merge m m', MessagesToEmit_Merge msgs msgs'))"
  by (induction xs arbitrary: t)
    (auto simp: TCPRouteMappings_Merge_def MessagesToEmit_Merge_def no_mappings_def no_messages_def
      split: prod.splits)

lemma performs_then:
  assumes "performs E xs h (h1, m, msgs)" "performs E ys h1 (h2, m', msgs')"
  shows "performs E (xs @ ys) h (h2, TCPRouteMappings_Merge m m', MessagesToEmit_Merge msgs msgs')"
proof -
  have tls: "h_tcpTLSEnabled h1 = h_tcpTLSEnabled h" using assms(1) by (simp add: performs_def handler_config_def)
  have out: "ops_output E (h_tcpTLSEnabled h) xs (h_routingTable h) = (m, msgs)"
    "ops_output E (h_tcpTLSEnabled h) ys (run_ops E (h_tcpTLSEnabled h) xs (h_routingTable h)) = (m', msgs')"
    using assms tls by (simp_all add: performs_def)
  show ?thesis
    using assms tls by (simp add: performs_def ops_output_append out run_ops_append)
qed

text \<open>The table part of \<open>handleActualUpdate\<close>.\<close>

lemma actual_update_performs:
  "\<exists>r. performs E (actual_update_ops before after) h r \<and>
     handleActualUpdate E U before after h = cache_and_emit U (snd (snd r)) (fst (snd r)) (fst r)"
proof -
  let ?first = "if \<not> al_RoutableExists after \<or> al_GetRoutable after then table_AddEndpoint E after h
     else if al_GetRoutable before then table_RemoveEndpoint E after h else (h, no_mappings, no_messages)"
  let ?ops = "if \<not> al_RoutableExists after \<or> al_GetRoutable after then [OpAddEndpoint after]
     else if al_GetRoutable before then [OpRemoveEndpoint after] else []"
  obtain h1 m msgs where f: "?first = (h1, m, msgs)" by (metis surj_pair)
  have first: "performs E ?ops h (h1, m, msgs)"
    unfolding f [symmetric] by (auto simp: table_calls_perform performs_none)
  obtain h2 m' msgs' where r2: "table_RemoveEndpoint E before h1 = (h2, m', msgs')" by (metis surj_pair)
  note second = performs_then [OF first, of "[OpRemoveEndpoint before]" h2 m' msgs']
  obtain h3 m3 msgs3 where r3: "table_RemoveEndpoint E before h = (h3, m3, msgs3)" by (metis surj_pair)
  have "performs E [OpRemoveEndpoint before] h1 (h2, m', msgs')" "performs E [OpRemoveEndpoint before] h (h3, m3, msgs3)"
    using table_calls_perform(2) [of E before h1] table_calls_perform(2) [of E before h] by (simp_all add: r2 r3)
  note calls = this
  let ?evac = "al_State before = ActualLRPStateRunning \<and> al_Presence before = ActualLRP_Ordinary \<and>
    al_Presence after = ActualLRP_Evacuating"
  define r where "r = (if al_State after = ActualLRPStateRunning
    then (if ?evac then (h2, TCPRouteMappings_Merge m m', MessagesToEmit_Merge msgs msgs') else (h1, m, msgs))
    else if al_State before = ActualLRPStateRunning then (h3, m3, msgs3) else (h, no_mappings, no_messages))"
  have "handleActualUpdate E U before after h = cache_and_emit U (snd (snd r)) (fst (snd r)) (fst r)"
    unfolding handleActualUpdate_def f by (simp add: r_def r2 r3)
  moreover have "performs E (actual_update_ops before after) h r"
    using first second [OF calls(1)] calls(2) unfolding actual_update_ops_def r_def
    by (simp only: performs_none append_Nil2 if_True if_False split: if_split) blast
  ultimately show ?thesis by blast
qed

text \<open>Whether an event reaches the emitters at all.\<close>

fun event_emits :: "bbs_env \<Rightarrow> Event \<Rightarrow> bool" where
  "event_emits E (ActualLRPInstanceCreatedEvent traceId actualLrp) =
     (case actualLrp of None \<Rightarrow> False | Some a \<Rightarrow> al_State a = ActualLRPStateRunning)"
| "event_emits E (ActualLRPInstanceChangedEvent traceId before after key ikey) =
     (ToActualLRP E before key ikey \<noteq> None \<and> ToActualLRP E after key ikey \<noteq> None)"
| "event_emits E (ActualLRPInstanceRemovedEvent traceId actualLrp) =
     (case actualLrp of None \<Rightarrow> False | Some a \<Rightarrow> al_State a = ActualLRPStateRunning)"
| "event_emits E (UnrecognizedEvent eventType) = False"
| "event_emits E ev = True"

definition hash_total :: "hash_fn \<Rightarrow> bool" where
  "hash_total U = (\<forall>m. \<exists>h. U m = Inr h)"

lemma cache_calls_succeed:
  assumes "hash_total U"
  shows "\<exists>c'. cache_Add U ms c = (c', None)" "\<exists>c'. cache_Remove U ms c = (c', None)"
proof -
  have ok: "\<exists>h. U m = Inr h" for m using assms by (simp add: hash_total_def)
  show "\<exists>c'. cache_Add U ms c = (c', None)"
  proof (induction ms arbitrary: c)
    case (Cons m ms)
    obtain h where "U m = Inr h" using ok by blast
    then show ?case using Cons by simp
  qed simp
  show "\<exists>c'. cache_Remove U ms c = (c', None)"
  proof (induction ms arbitrary: c)
    case (Cons m ms)
    obtain h where "U m = Inr h" using ok by blast
    then show ?case using Cons by simp
  qed simp
qed

lemma cache_and_emit_total:
  assumes "hash_total U"
  shows "emissions (fst (cache_and_emit U msgs m h)) = emissions h @ emit_actions h (m, msgs)"
proof -
  obtain c where c: "cache_Add U (UnregistrationMessages msgs) (h_unregistrationCache h) = (c, None)"
    using cache_calls_succeed(1) [OF assms] by blast
  obtain c' where c': "cache_Remove U (RegistrationMessages msgs) c = (c', None)"
    using cache_calls_succeed(2) [OF assms] by blast
  have "emit_actions (h\<lparr>h_unregistrationCache := c'\<rparr>) (m, msgs) = emit_actions h (m, msgs)"
    by (rule emit_actions_config) simp
  then show ?thesis by (simp add: cache_and_emit_def c c')
qed

text \<open>The shape of every event handler: a table call, then the emission.\<close>

lemma performs_emit:
  assumes "performs E ops h (h1, m, msgs)"
  shows "h_routingTable (emitMessages msgs m h1) = run_ops E (h_tcpTLSEnabled h) ops (h_routingTable h)"
    "handler_config (emitMessages msgs m h1) = handler_config h"
    "emissions (emitMessages msgs m h1) = emissions h @ emit_actions h (ops_output E (h_tcpTLSEnabled h) ops (h_routingTable h))"
proof -
  have "emit_actions h1 (m, msgs) = emit_actions h (m, msgs)"
    using assms by (intro emit_actions_config) (simp add: performs_def)
  moreover have "ops_output E (h_tcpTLSEnabled h) ops (h_routingTable h) = (m, msgs)"
    using assms by (simp add: performs_def)
  ultimately show "h_routingTable (emitMessages msgs m h1) = run_ops E (h_tcpTLSEnabled h) ops (h_routingTable h)"
    "handler_config (emitMessages msgs m h1) = handler_config h"
    "emissions (emitMessages msgs m h1) = emissions h @ emit_actions h (ops_output E (h_tcpTLSEnabled h) ops (h_routingTable h))"
    using assms by (simp_all add: performs_def)
qed

lemma performs_cache_emit:
  assumes "performs E ops h r"
  shows "h_routingTable (fst (cache_and_emit U (snd (snd r)) (fst (snd r)) (fst r))) =
      run_ops E (h_tcpTLSEnabled h) ops (h_routingTable h)"
    "handler_config (fst (cache_and_emit U (snd (snd r)) (fst (snd r)) (fst r))) = handler_config h"
    "hash_total U \<Longrightarrow> emissions (fst (cache_and_emit U (snd (snd r)) (fst (snd r)) (fst r))) =
      emissions h @ emit_actions h (ops_output E (h_tcpTLSEnabled h) ops (h_routingTable h))"
proof -
  have "emit_actions (fst r) out = emit_actions h out" for out
    using assms by (intro emit_actions_config) (simp add: performs_def)
  moreover have "ops_output E (h_tcpTLSEnabled h) ops (h_routingTable h) = (fst (snd r), snd (snd r))"
    using assms by (simp add: performs_def)
  ultimately show "h_routingTable (fst (cache_and_emit U (snd (snd r)) (fst (snd r)) (fst r))) =
      run_ops E (h_tcpTLSEnabled h) ops (h_routingTable h)"
    "handler_config (fst (cache_and_emit U (snd (snd r)) (fst (snd r)) (fst r))) = handler_config h"
    "hash_total U \<Longrightarrow> emissions (fst (cache_and_emit U (snd (snd r)) (fst (snd r)) (fst r))) =
      emissions h @ emit_actions h (ops_output E (h_tcpTLSEnabled h) ops (h_routingTable h))"
    using assms by (simp_all add: performs_def cache_and_emit_total)
qed

text \<open>
  How a handler may end: nothing happened, or table operations and then an emission, directly or after the
  cache was brought up to date.
\<close>

definition handled_as :: "bbs_env \<Rightarrow> hash_fn \<Rightarrow> table_op list \<Rightarrow> bool \<Rightarrow> Handler \<Rightarrow> Handler \<Rightarrow> bool" where
  "handled_as E U ops emits h h' =
     (h' = h \<and> ops = [] \<and> \<not> emits \<or>
      (\<exists>h1 m msgs. h' = emitMessages msgs m h1 \<and> performs E ops h (h1, m, msgs)) \<and> emits \<or>
      (\<exists>r. h' = fst (cache_and_emit U (snd (snd r)) (fst (snd r)) (fst r)) \<and> performs E ops h r) \<and> emits)"

lemma handled_as_none: "handled_as E U [] False h h"
  by (simp add: handled_as_def)

lemma handled_as_emit:
  "performs E ops h r \<Longrightarrow> handled_as E U ops True h (emitMessages (snd (snd r)) (fst (snd r)) (fst r))"
  unfolding handled_as_def by (metis prod.collapse)

lemma handled_as_cache:
  "performs E ops h r \<Longrightarrow> handled_as E U ops True h (fst (cache_and_emit U (snd (snd r)) (fst (snd r)) (fst r)))"
  unfolding handled_as_def by blast

lemma handlers_handled:
  "handled_as E U [OpSetRoutes None d] True h (handleDesiredCreate E d h)"
  "handled_as E U [OpSetRoutes before after] True h (fst (handleDesiredUpdate E U before after h))"
  "handled_as E U [OpRemoveRoutes d] True h (handleDesiredDelete E d h)"
  "al_State a = ActualLRPStateRunning \<Longrightarrow> handled_as E U [OpAddEndpoint a] True h (handleActualCreate E a h)"
  "al_State a = ActualLRPStateRunning \<Longrightarrow> handled_as E U [OpRemoveEndpoint a] True h (handleActualDelete E (Some a) h)"
  using handled_as_emit [OF table_calls_perform(3) [of E None d h], of U]
    handled_as_cache [OF table_calls_perform(3) [of E before after h], of U]
    handled_as_emit [OF table_calls_perform(4) [of E d h], of U]
    handled_as_emit [OF table_calls_perform(1) [of E a h], of U]
    handled_as_emit [OF table_calls_perform(2) [of E a h], of U]
  by (simp_all add: handleDesiredCreate_def handleDesiredUpdate_def handleDesiredDelete_def handleActualCreate_def
      handleActualDelete_def case_prod_unfold Let_def)

lemma not_running_unhandled:
  "al_State a \<noteq> ActualLRPStateRunning \<Longrightarrow> handleActualCreate E a h = h"
  "al_State a \<noteq> ActualLRPStateRunning \<Longrightarrow> handleActualDelete E (Some a) h = h"
  by (simp_all add: handleActualCreate_def handleActualDelete_def)

lemma handleActualUpdate_handled:
  "handled_as E U (actual_update_ops before after) True h (fst (handleActualUpdate E U before after h))"
  using actual_update_performs [of E before after h U] handled_as_cache [of E "actual_update_ops before after" h _ U] by metis

lemma HandleEvent_handled: "handled_as E U (event_ops E ev) (event_emits E ev) h (HandleEvent E U ev h)"
proof (cases ev)
  case (ActualLRPInstanceCreatedEvent x lrp)
  then show ?thesis
    by (auto simp: handlers_handled(4) handled_as_none not_running_unhandled split: option.split)
next
  case (ActualLRPInstanceChangedEvent x before after key ikey)
  then show ?thesis by (auto simp: handleActualUpdate_handled handled_as_none Let_def split: option.split)
next
  case (ActualLRPInstanceRemovedEvent x lrp)
  then show ?thesis
    by (auto simp: handlers_handled(5) handled_as_none not_running_unhandled split: option.split)
qed (simp_all add: handlers_handled handled_as_none)

lemma HandleEvent_cases:
  obtains "HandleEvent E U ev h = h" "event_ops E ev = []" "\<not> event_emits E ev"
  | h1 m msgs where "HandleEvent E U ev h = emitMessages msgs m h1" "performs E (event_ops E ev) h (h1, m, msgs)"
      "event_emits E ev"
  | r where "HandleEvent E U ev h = fst (cache_and_emit U (snd (snd r)) (fst (snd r)) (fst r))"
      "performs E (event_ops E ev) h r" "event_emits E ev"
  using HandleEvent_handled [of E U ev h] unfolding handled_as_def by blast

lemma HandleEvent_table:
  "h_routingTable (HandleEvent E U ev h) = run_ops E (h_tcpTLSEnabled h) (event_ops E ev) (h_routingTable h)"
  "handler_config (HandleEvent E U ev h) = handler_config h"
proof -
  have "h_routingTable (HandleEvent E U ev h) = run_ops E (h_tcpTLSEnabled h) (event_ops E ev) (h_routingTable h) \<and>
      handler_config (HandleEvent E U ev h) = handler_config h"
  proof (cases rule: HandleEvent_cases [of E U ev h])
    case 1
    then show ?thesis by simp
  next
    case (2 h1 m msgs)
    from performs_emit(1,2) [OF 2(2)] show ?thesis unfolding 2(1) by blast
  next
    case (3 r)
    from performs_cache_emit(1,2) [OF 3(2)] show ?thesis unfolding 3(1) by blast
  qed
  then show "h_routingTable (HandleEvent E U ev h) = run_ops E (h_tcpTLSEnabled h) (event_ops E ev) (h_routingTable h)"
    "handler_config (HandleEvent E U ev h) = handler_config h" by blast+
qed

lemma HandleEvent_effect_emissions:
  assumes "hash_total U"
  shows "emissions (HandleEvent E U ev h) = emissions h @ (if event_emits E ev
    then emit_actions h (ops_output E (h_tcpTLSEnabled h) (event_ops E ev) (h_routingTable h)) else [])"
proof (cases rule: HandleEvent_cases [of E U ev h])
  case 1
  then show ?thesis by simp
next
  case (2 h1 m msgs)
  from performs_emit(3) [OF 2(2)] 2(3) show ?thesis unfolding 2(1) by simp
next
  case (3 r)
  from performs_cache_emit(3) [OF 3(2) assms] 3(3) show ?thesis unfolding 3(1) by simp
qed

text \<open>
  C12: with both emitters configured or not, handling an event hands to them exactly what the table
  operations of the event returned, in one call each, and nothing for events about instances that are
  missing or not running; this holds when messages can be hashed.
\<close>

theorem HandleEvent_emissions:
  assumes "hash_total U"
  shows "emissions (HandleEvent E U ev h) = emissions h @ (if event_emits E ev
    then emit_actions h (ops_output E (h_tcpTLSEnabled h) (event_ops E ev) (h_routingTable h)) else [])"
  by (rule HandleEvent_effect_emissions [OF assms])

definition example_hash_total :: hash_fn where
  "example_hash_total m = Inr (of_nat (length (concat (rm_URIs m))) + 256 * rm_EndpointUpdatedAtNs m)"

definition example_handler :: Handler where
  "example_handler = NewHandler example_table True True False False NewCache"

theorem HandleEvent_emissions_witness:
  "emissions (HandleEvent example_env example_hash_total
     (ActualLRPInstanceCreatedEvent ''t'' (Some (example_actual ''ig2'' 1 ActualLRP_Ordinary 1))) example_handler) =
   emit_actions example_handler (ops_output example_env False
     [OpAddEndpoint (example_actual ''ig2'' 1 ActualLRP_Ordinary 1)] example_table)"
proof -
  have total: "hash_total example_hash_total" by (simp add: hash_total_def example_hash_total_def)
  show ?thesis
    using HandleEvent_emissions [OF total, of example_env
        "ActualLRPInstanceCreatedEvent ''t'' (Some (example_actual ''ig2'' 1 ActualLRP_Ordinary 1))" example_handler]
    by (simp add: example_handler_def NewHandler_def emissions_def example_actual_def)
qed

section \<open>The handler refines the history of its table\<close>

text \<open>The operations that fill the table of a synchronisation.\<close>

definition sync_ops :: "bbs_env \<Rightarrow> DesiredLRP list \<Rightarrow> ActualLRP list \<Rightarrow> (string, Event) gomap \<Rightarrow> table_op list" where
  "sync_ops E desired actuals cachedEvents =
     map (\<lambda>lrp. OpSetRoutes None (Some lrp)) desired @ map OpAddEndpoint actuals @
     concat (map (event_ops E) (go_values cachedEvents))"

lemma fold_desired_ops:
  "fold (\<lambda>lrp t. fst (SetRoutes E t None (Some lrp))) desired t =
     run_ops E tls (map (\<lambda>lrp. OpSetRoutes None (Some lrp)) desired) t"
  by (induction desired arbitrary: t) auto

lemma fold_actual_ops:
  "fst (fold (\<lambda>lrp (t, cs). (let (t', _, cs') = AddEndpoint E t lrp in (t', cs @ cs'))) actuals (t, cs)) =
     run_ops E tls (map OpAddEndpoint actuals) t"
  by (induction actuals arbitrary: t cs) (auto split: prod.splits)

lemma fold_events_ops:
  "h_routingTable (fold (HandleEvent E U) evs h) =
     run_ops E (h_tcpTLSEnabled h) (concat (map (event_ops E) evs)) (h_routingTable h) \<and>
   handler_config (fold (HandleEvent E U) evs h) = handler_config h"
proof (induction evs arbitrary: h)
  case (Cons ev evs)
  have "h_tcpTLSEnabled (HandleEvent E U ev h) = h_tcpTLSEnabled h"
    using HandleEvent_table(2) [of E U ev h] by (simp add: handler_config_def)
  with Cons [of "HandleEvent E U ev h"] show ?case by (simp add: HandleEvent_table run_ops_append)
qed simp

lemma fold_events_silent:
  assumes "\<not> h_natsEmitter h" "\<not> h_routingAPIEmitter h"
  shows "emissions (fold (HandleEvent E U) evs h) = emissions h"
  using assms
proof (induction evs arbitrary: h)
  case (Cons ev evs)
  have flags: "handler_config (HandleEvent E U ev h) = handler_config h" by (rule HandleEvent_table(2))
  have quiet: "emit_actions g out = []" if "handler_config g = handler_config h" for g out
    using that Cons.prems by (simp add: emit_actions_def handler_config_def)
  have "emissions (HandleEvent E U ev h) = emissions h"
  proof (cases rule: HandleEvent_cases [of E U ev h])
    case (2 h1 m msgs)
    then have "handler_config h1 = handler_config h" "emissions h1 = emissions h" by (simp_all add: performs_def)
    then show ?thesis unfolding 2(1) by (simp add: quiet)
  next
    case (3 r)
    then have "handler_config (fst r) = handler_config h" "emissions (fst r) = emissions h" by (simp_all add: performs_def)
    then show ?thesis unfolding 3(1)
      by (auto simp: cache_and_emit_def quiet split: prod.splits option.splits)
  qed simp
  moreover have "\<not> h_natsEmitter (HandleEvent E U ev h)" "\<not> h_routingAPIEmitter (HandleEvent E U ev h)"
    using flags Cons.prems by (simp_all add: handler_config_def)
  ultimately show ?case using Cons.IH [of "HandleEvent E U ev h"] by simp
qed simp

lemma Sync_effect:
  "h_routingTable (Sync E U desired actuals domains cachedEvents h) =
      fst (apply_op E (h_tcpTLSEnabled h) (OpSwap (sync_ops E desired actuals cachedEvents) domains) (h_routingTable h)) \<and>
   handler_config (Sync E U desired actuals domains cachedEvents h) = handler_config h \<and>
   emissions (Sync E U desired actuals domains cachedEvents h) = emissions h @ emit_actions h
      (snd (apply_op E (h_tcpTLSEnabled h) (OpSwap (sync_ops E desired actuals cachedEvents) domains) (h_routingTable h)))"
proof -
  let ?tls = "h_tcpTLSEnabled h"
  define T0 where "T0 = fold (\<lambda>lrp t. fst (SetRoutes E t None (Some lrp))) desired (NewRoutingTable E False ?tls)"
  obtain T1 counters where T1: "sync_table E ?tls desired actuals = (T1, counters)" by (metis surj_pair)
  have T1_ops: "T1 = run_ops E ?tls (map OpAddEndpoint actuals) T0"
    using fold_actual_ops [of E actuals T0 "[]" ?tls] T1 unfolding sync_table_def T0_def [symmetric] Let_def by simp
  define h1 where "h1 = (act (map IncrementCounter counters) h)\<lparr>h_natsEmitter := False, h_routingAPIEmitter := False, h_routingTable := T1\<rparr>"
  define h2 where "h2 = fold (HandleEvent E U) (go_values cachedEvents) h1"
  have cfg1: "h_tcpTLSEnabled h1 = ?tls" "h_routingTable h1 = T1" "\<not> h_natsEmitter h1" "\<not> h_routingAPIEmitter h1"
    "h_localMode h1 = h_localMode h" by (simp_all add: h1_def)
  have h2: "h_routingTable h2 = run_ops E ?tls (sync_ops E desired actuals cachedEvents) (NewRoutingTable E False ?tls)"
    "handler_config h2 = handler_config h1"
    using fold_events_ops [of E U "go_values cachedEvents" h1] cfg1
    by (simp_all add: h2_def sync_ops_def run_ops_append T1_ops T0_def fold_desired_ops [where tls = ?tls])
  have quiet: "emissions h2 = emissions h"
    using fold_events_silent [OF cfg1(3,4), of E U "go_values cachedEvents"]
    by (simp add: h2_def h1_def emissions_def act_def)
  obtain t m msgs where sw: "Swap (h_routingTable h) (Some (h_routingTable h2)) domains = (t, m, msgs)" by (metis surj_pair)
  define h3 where "h3 = h2\<lparr>h_routingTable := h_routingTable h, h_natsEmitter := h_natsEmitter h, h_routingAPIEmitter := h_routingAPIEmitter h\<rparr>\<lparr>h_routingTable := t\<rparr>"
  have cfg3: "handler_config h3 = handler_config h"
    using h2(2) cfg1 by (simp add: h3_def handler_config_def)
  have emis3: "emissions h3 = emissions h" using quiet by (simp add: h3_def emissions_def)
  define c where "c = fst (cache_Remove U (RegistrationMessages msgs)
    (fst (cache_Add U (UnregistrationMessages msgs) (h_unregistrationCache h2))))"
  let ?h4 = "emitMessages msgs m (h3\<lparr>h_unregistrationCache := c\<rparr>)"
  have sync: "Sync E U desired actuals domains cachedEvents h =
      (if h_localMode ?h4 then act [SendMetric httpRouteCount (HTTPAssociationsCount (h_routingTable ?h4)),
        SendMetric tcpRouteCount (TCPAssociationsCount (h_routingTable ?h4))] ?h4 else ?h4)"
    using sw by (simp add: Sync_def T1 Let_def h1_def h2_def h3_def c_def)
  have "emit_actions (h3\<lparr>h_unregistrationCache := c\<rparr>) (m, msgs) = emit_actions h (m, msgs)"
    by (rule emit_actions_config) (simp add: cfg3)
  moreover have "apply_op E ?tls (OpSwap (sync_ops E desired actuals cachedEvents) domains) (h_routingTable h) = (t, m, msgs)"
    using sw h2(1) by simp
  moreover have "h_routingTable h3 = t" by (simp add: h3_def)
  ultimately show ?thesis unfolding sync by (simp add: cfg3 emis3)
qed

text \<open>
  C13: a synchronisation replaces the table by swapping in one built from the desired and actual LRPs
  and the cached events, emits exactly what the swap returned (the replay of the cached events emits
  nothing), and leaves the emitters as they were. This needs no assumption: errors of the cache do not
  stop it.
\<close>

theorem Sync_spec:
  "h_routingTable (Sync E U desired actuals domains cachedEvents h) =
      fst (apply_op E (h_tcpTLSEnabled h) (OpSwap (sync_ops E desired actuals cachedEvents) domains) (h_routingTable h)) \<and>
   handler_config (Sync E U desired actuals domains cachedEvents h) = handler_config h \<and>
   emissions (Sync E U desired actuals domains cachedEvents h) = emissions h @ emit_actions h
      (snd (apply_op E (h_tcpTLSEnabled h) (OpSwap (sync_ops E desired actuals cachedEvents) domains) (h_routingTable h)))"
  by (rule Sync_effect)

text \<open>The calls the watcher makes.\<close>

datatype handler_call =
    CallHandleEvent Event
  | CallSync "DesiredLRP list" "ActualLRP list" DomainSet "(string, Event) gomap"
  | CallRefreshDesired "DesiredLRP list"
  | CallEmitExternal
  | CallEmitInternal

fun do_call :: "bbs_env \<Rightarrow> hash_fn \<Rightarrow> handler_call \<Rightarrow> Handler \<Rightarrow> Handler" where
  "do_call E U (CallHandleEvent ev) h = HandleEvent E U ev h"
| "do_call E U (CallSync desired actuals domains cached) h = Sync E U desired actuals domains cached h"
| "do_call E U (CallRefreshDesired lrps) h = RefreshDesired E lrps h"
| "do_call E U CallEmitExternal h = EmitExternal h"
| "do_call E U CallEmitInternal h = EmitInternal h"

fun call_ops :: "bbs_env \<Rightarrow> handler_call \<Rightarrow> table_op list" where
  "call_ops E (CallHandleEvent ev) = event_ops E ev"
| "call_ops E (CallSync desired actuals domains cached) = [OpSwap (sync_ops E desired actuals cached) domains]"
| "call_ops E (CallRefreshDesired lrps) = map (\<lambda>lrp. OpSetRoutes None (Some lrp)) lrps"
| "call_ops E CallEmitExternal = []"
| "call_ops E CallEmitInternal = []"

lemma refresh_one_effect:
  "h_routingTable (refresh_one E lrp h) = run_ops E (h_tcpTLSEnabled h) [OpSetRoutes None (Some lrp)] (h_routingTable h) \<and>
   handler_config (refresh_one E lrp h) = handler_config h"
proof -
  obtain h1 m msgs where r: "table_SetRoutes E None (Some lrp) h = (h1, m, msgs)" by (metis surj_pair)
  have p: "performs E [OpSetRoutes None (Some lrp)] h (h1, m, msgs)"
    using table_calls_perform(3) [of E None "Some lrp" h] by (simp only: r)
  show ?thesis using performs_emit(1,2) [OF p] by (simp only: refresh_one_def r Let_def prod.case)
qed

lemma RefreshDesired_effect:
  "h_routingTable (RefreshDesired E lrps h) =
     run_ops E (h_tcpTLSEnabled h) (map (\<lambda>lrp. OpSetRoutes None (Some lrp)) lrps) (h_routingTable h) \<and>
   handler_config (RefreshDesired E lrps h) = handler_config h"
  unfolding RefreshDesired_def
proof (induction lrps arbitrary: h)
  case (Cons lrp lrps)
  have "h_tcpTLSEnabled (refresh_one E lrp h) = h_tcpTLSEnabled h"
    using refresh_one_effect [of E lrp h] by (simp add: handler_config_def)
  with Cons [of "refresh_one E lrp h"] refresh_one_effect [of E lrp h] show ?case by simp
qed simp

lemma handler_call_effect:
  "h_routingTable (do_call E U c h) = run_ops E (h_tcpTLSEnabled h) (call_ops E c) (h_routingTable h) \<and>
   handler_config (do_call E U c h) = handler_config h"
proof (cases c)
  case (CallHandleEvent ev)
  then show ?thesis by (simp add: HandleEvent_table)
next
  case (CallSync desired actuals domains cached)
  then show ?thesis using Sync_effect [of E U desired actuals domains cached h] by simp
next
  case (CallRefreshDesired lrps)
  then show ?thesis using RefreshDesired_effect by simp
qed (auto simp: EmitExternal_def EmitInternal_def Let_def split: prod.splits)

lemma handler_calls_effect:
  "h_routingTable (fold (do_call E U) cs h) = run_ops E (h_tcpTLSEnabled h) (concat (map (call_ops E) cs)) (h_routingTable h) \<and>
   handler_config (fold (do_call E U) cs h) = handler_config h"
proof (induction cs arbitrary: h)
  case (Cons c cs)
  have "h_tcpTLSEnabled (do_call E U c h) = h_tcpTLSEnabled h"
    using handler_call_effect [of E U c h] by (simp add: handler_config_def)
  with Cons [of "do_call E U c h"] handler_call_effect [of E U c h] show ?case by (simp add: run_ops_append)
qed simp

text \<open>
  Whatever calls the watcher makes, the handler's table is the one reached by the corresponding
  history of table operations; so it is always well formed and holds only routes of the right kinds,
  and no call changes which emitters are configured.
\<close>

theorem handler_refines_table:
  fixes E U cs direct nats api localMode tls
  defines "h0 \<equiv> NewHandler (NewRoutingTable E direct tls) nats api localMode tls NewCache"
  shows "h_routingTable (fold (do_call E U) cs h0) =
      run_ops E tls (concat (map (call_ops E) cs)) (NewRoutingTable E direct tls) \<and>
    wf_routing_table E tls (h_routingTable (fold (do_call E U) cs h0)) \<and>
    kinds_ok (h_routingTable (fold (do_call E U) cs h0)) \<and>
    handler_config (fold (do_call E U) cs h0) = (nats, api, localMode, tls)"
proof -
  have t: "h_routingTable (fold (do_call E U) cs h0) =
      run_ops E tls (concat (map (call_ops E) cs)) (NewRoutingTable E direct tls)"
    "handler_config (fold (do_call E U) cs h0) = (nats, api, localMode, tls)"
    using handler_calls_effect [of E U cs h0] by (simp_all add: h0_def NewHandler_def handler_config_def)
  then show ?thesis
    by (simp add: apply_op_run_ops_wf(2) [OF wf_NewRoutingTable]
        history_kinds(2) [OF wf_NewRoutingTable kinds_NewRoutingTable])
qed

section \<open>The unregistration cache\<close>

text \<open>
  When a message of a desired LRP update cannot be hashed, the update is in the table but nothing is
  sent to any emitter.
\<close>

theorem hash_failure_suppresses_emission:
  assumes "handleDesiredUpdate E U before after h = (h', Some err)"
  shows "h_routingTable h' = fst (SetRoutes E (h_routingTable h) before after) \<and> h_actions h' = h_actions h"
  using assms
  by (auto simp: handleDesiredUpdate_def table_SetRoutes_def cache_and_emit_def Let_def
      split: prod.splits option.splits)

theorem hash_failure_suppresses_emission_witness:
  "let h = NewHandler (run_ops example_env False [OpAddEndpoint (example_actual ''ig1'' 0 ActualLRP_Ordinary 1),
             OpSetRoutes None (Some (example_desired ''bad'' 2 1))] (NewRoutingTable example_env False False))
           True True False False NewCache;
       h' = fst (handleDesiredUpdate example_env example_hash (Some (example_desired ''bad'' 2 1))
              (Some (example_desired ''h2'' 2 2)) h) in
   h_actions h' = h_actions h \<and> HTTPAssociationsCount (h_routingTable h') = 1"
proof -
  let ?h = "NewHandler (run_ops example_env False [OpAddEndpoint (example_actual ''ig1'' 0 ActualLRP_Ordinary 1),
             OpSetRoutes None (Some (example_desired ''bad'' 2 1))] (NewRoutingTable example_env False False))
           True True False False NewCache"
  let ?r = "handleDesiredUpdate example_env example_hash (Some (example_desired ''bad'' 2 1)) (Some (example_desired ''h2'' 2 2)) ?h"
  have "snd ?r = Some ''cannot hash''" by code_simp
  then have r: "?r = (fst ?r, Some ''cannot hash'')" by (metis prod.collapse)
  have "HTTPAssociationsCount (h_routingTable (fst ?r)) = 1" by code_simp
  with hash_failure_suppresses_emission [OF r] show ?thesis unfolding Let_def by blast
qed


end
