(* ===== verification/Watcher.thy ===== *)
theory Watcher
  imports Handler
begin

text \<open>
  \<open>watcher/watcher.go\<close>: the event loop. The BBS client is the parameter record \<open>bbs_client\<close>; each step
  is given the client as it answers at that moment. The branches of the loop's \<open>select\<close> are the inputs
  of \<open>watcher_step\<close>; the goroutines it starts (a synchronisation, a listener on the event stream) are
  counted in the state. \<open>None\<close> as a result is a panic. Times and log lines are not modelled.
\<close>

section \<open>The BBS client\<close>

record bbs_client =
  bbs_ActualLRPs :: "string \<Rightarrow> go_error + ActualLRP list"
  bbs_DesiredLRPRoutingInfos :: "string list \<Rightarrow> go_error + DesiredLRP list"
  bbs_DesiredLRPs :: "string list \<Rightarrow> go_error + DesiredLRP list"
  bbs_Domains :: "go_error + string list"
  EndpointNotFoundErr :: go_error

definition getDesiredLRPs :: "bbs_client \<Rightarrow> string list \<Rightarrow> go_error + DesiredLRP list" where
  "getDesiredLRPs C guids =
     (let r = bbs_DesiredLRPRoutingInfos C guids in
      if r = Inl (EndpointNotFoundErr C) then bbs_DesiredLRPs C guids else r)"

section \<open>The watcher\<close>

text \<open>The watcher's own data, with a channel as its name; its clients and the handler are arguments.\<close>

record Watcher =
  wt_cellID :: string
  wt_syncCh :: string
  wt_emitExternalCh :: string
  wt_emitInternalCh :: string

definition NewWatcher :: "string \<Rightarrow> string \<Rightarrow> string \<Rightarrow> string \<Rightarrow> Watcher" where
  "NewWatcher cellID syncCh emitExternalCh emitInternalCh =
     \<lparr>wt_cellID = cellID, wt_syncCh = syncCh, wt_emitExternalCh = emitExternalCh, wt_emitInternalCh = emitInternalCh\<rparr>"

section \<open>Refreshing desired LRPs\<close>

fun foundInCurrentDesireds :: "string \<Rightarrow> DesiredLRP list \<Rightarrow> bool" where
  "foundInCurrentDesireds guid [] = False"
| "foundInCurrentDesireds guid (d # currentDesireds) =
     (if dl_ProcessGuid d = guid then True else foundInCurrentDesireds guid currentDesireds)"

text \<open>The instance an event is about, for the two kinds of events that may need a refresh.\<close>

fun event_actual :: "bbs_env \<Rightarrow> Event \<Rightarrow> ActualLRP option" where
  "event_actual E (ActualLRPInstanceCreatedEvent traceId actualLrp) = actualLrp"
| "event_actual E (ActualLRPInstanceChangedEvent traceId before after key ikey) = ToActualLRP E after key ikey"
| "event_actual E ev = None"

definition retrieveDesiredInternal :: "bbs_env \<Rightarrow> bbs_client \<Rightarrow> Event \<Rightarrow> DesiredLRP list \<Rightarrow> bool \<Rightarrow> Handler \<Rightarrow>
    DesiredLRP list option" where
  "retrieveDesiredInternal E C event currentDesireds syncing h =
     (case event_actual E event of
        None \<Rightarrow> Some []
      | Some actualLRP \<Rightarrow>
          if al_State actualLRP \<noteq> ActualLRPStateRunning then Some []
          else (case ShouldRefreshDesired actualLRP h of
             None \<Rightarrow> None
           | Some should \<Rightarrow>
               if should \<or> syncing \<and> \<not> foundInCurrentDesireds (al_ProcessGuid actualLRP) currentDesireds
               then (case getDesiredLRPs C [al_ProcessGuid actualLRP] of
                  Inl err \<Rightarrow> Some [] | Inr desiredLRPs \<Rightarrow> Some desiredLRPs)
               else Some []))"

definition retrieveDesired :: "bbs_env \<Rightarrow> bbs_client \<Rightarrow> Event \<Rightarrow> Handler \<Rightarrow> DesiredLRP list option" where
  "retrieveDesired E C event h = retrieveDesiredInternal E C event [] False h"

definition retrieveDesiredWhileSyncing :: "bbs_env \<Rightarrow> bbs_client \<Rightarrow> Event \<Rightarrow> DesiredLRP list \<Rightarrow> Handler \<Rightarrow>
    DesiredLRP list option" where
  "retrieveDesiredWhileSyncing E C event currentDesireds h =
     retrieveDesiredInternal E C event currentDesireds True h"

definition watcher_handleEvent :: "bbs_env \<Rightarrow> hash_fn \<Rightarrow> bbs_client \<Rightarrow> Event \<Rightarrow> Handler \<Rightarrow> Handler option" where
  "watcher_handleEvent E U C event h =
     (case retrieveDesired E C event h of
        None \<Rightarrow> None
      | Some desiredLRPs \<Rightarrow>
          (let h = (if length desiredLRPs > 0 then RefreshDesired E desiredLRPs h else h) in
           Some (HandleEvent E U event h)))"

section \<open>Reading the whole state\<close>

record syncEventResult =
  sr_desired :: "DesiredLRP list"
  sr_runningActual :: "ActualLRP list"
  sr_domains :: DomainSet
  sr_err :: "go_error option"

definition routable_running :: "ActualLRP \<Rightarrow> bool" where
  "routable_running actualLRP =
     (al_State actualLRP = ActualLRPStateRunning \<and> (\<not> al_RoutableExists actualLRP \<or> al_GetRoutable actualLRP))"

text \<open>\<open>%s\<close> of an error value, which may be nil.\<close>

definition show_err :: "go_error option \<Rightarrow> string" where
  "show_err e = (case e of None \<Rightarrow> ''%!s(<nil>)'' | Some err \<Rightarrow> err)"

text \<open>
  The three requests run in goroutines that write to variables of their own, so their order does not
  matter. With a cell id the desired LRPs are asked for only after the actual LRPs arrived, and only
  for their process guids.
\<close>

definition watcher_sync :: "bbs_env \<Rightarrow> bbs_client \<Rightarrow> string \<Rightarrow> syncEventResult" where
  "watcher_sync E C cellID =
     (let actuals = bbs_ActualLRPs C cellID;
          (actualErr, actualLRPs) = (case actuals of Inl err \<Rightarrow> (Some err, []) | Inr as \<Rightarrow> (None, as));
          runningActualLRPs = filter routable_running actualLRPs;
          guids = map al_ProcessGuid actualLRPs;
          (desiredErr, desiredLRPs) =
            (if cellID = '''' then
               (case getDesiredLRPs C [] of Inl err \<Rightarrow> (Some err, []) | Inr ds \<Rightarrow> (None, ds))
             else if actualErr = None \<and> length guids > 0 then
               (case getDesiredLRPs C guids of Inl err \<Rightarrow> (Some err, []) | Inr ds \<Rightarrow> (None, ds))
             else (None, []));
          (domainsErr, domains) =
            (case bbs_Domains C of Inl err \<Rightarrow> (Some err, NewDomainSet E []) | Inr ds \<Rightarrow> (None, NewDomainSet E ds));
          err = (if actualErr \<noteq> None \<or> desiredErr \<noteq> None \<or> domainsErr \<noteq> None
            then Some (''failed to sync: '' @ show_err actualErr @ '', '' @ show_err desiredErr @ '', '' @ show_err domainsErr)
            else None) in
      \<lparr>sr_desired = desiredLRPs, sr_runningActual = runningActualLRPs, sr_domains = domains, sr_err = err\<rparr>)"

section \<open>Listening to events\<close>

datatype next_error = ErrUnrecognizedEventType | EventSourceError go_error

text \<open>
  The loop of \<open>checkForEvents\<close> on the results of \<open>es.Next()\<close> so far: the events sent to the event
  channel, and the error sent to the resubscribe channel when the loop has ended.
\<close>

fun listen :: "(Event option \<times> next_error option) list \<Rightarrow> Event list \<times> go_error option" where
  "listen [] = ([], None)"
| "listen ((event, err) # rest) =
     (case err of
        Some (EventSourceError e) \<Rightarrow> ([], Some e)
      | _ \<Rightarrow> (case listen rest of (evs, e) \<Rightarrow> ((case event of None \<Rightarrow> evs | Some ev \<Rightarrow> ev # evs), e)))"

definition checkForEvents :: "go_error option \<Rightarrow> (Event option \<times> next_error option) list \<Rightarrow>
    Event list \<times> go_error option" where
  "checkForEvents subscribeErr results =
     (case subscribeErr of Some err \<Rightarrow> ([], Some err) | None \<Rightarrow> listen results)"

section \<open>The loop\<close>

record watcher_state =
  w_handler :: Handler
  w_cachedEvents :: "(string, Event) gomap"
  w_syncing :: bool
  w_syncs :: nat
  w_listeners :: nat
  w_stopped :: bool

datatype watcher_input =
    InEvent Event
  | InEmitExternal
  | InEmitInternal
  | InSyncEnd syncEventResult
  | InSync
  | InResubscribe go_error
  | InSignal

definition watcher_init :: "Handler \<Rightarrow> watcher_state" where
  "watcher_init h = \<lparr>w_handler = h, w_cachedEvents = [], w_syncing = False, w_syncs = 0, w_listeners = 1,
     w_stopped = False\<rparr>"

text \<open>The desired LRPs fetched for the cached events.\<close>

fun cached_desired :: "bbs_env \<Rightarrow> bbs_client \<Rightarrow> Event list \<Rightarrow> DesiredLRP list \<Rightarrow> Handler \<Rightarrow> DesiredLRP list option" where
  "cached_desired E C [] current h = Some []"
| "cached_desired E C (e # es) current h =
     (case retrieveDesiredWhileSyncing E C e current h of
        None \<Rightarrow> None
      | Some desired \<Rightarrow> map_option (\<lambda>rest. desired @ rest) (cached_desired E C es current h))"

fun watcher_step :: "bbs_env \<Rightarrow> hash_fn \<Rightarrow> bbs_client \<Rightarrow> watcher_input \<Rightarrow> watcher_state \<Rightarrow> watcher_state option" where
  "watcher_step E U C (InEvent event) w =
     (if w_syncing w then Some (w\<lparr>w_cachedEvents := go_put (w_cachedEvents w) (EventKey E event) event\<rparr>)
      else map_option (\<lambda>h. w\<lparr>w_handler := h\<rparr>) (watcher_handleEvent E U C event (w_handler w)))"
| "watcher_step E U C InEmitExternal w = Some (w\<lparr>w_handler := EmitExternal (w_handler w)\<rparr>)"
| "watcher_step E U C InEmitInternal w = Some (w\<lparr>w_handler := EmitInternal (w_handler w)\<rparr>)"
| "watcher_step E U C (InSyncEnd syncEvent) w =
     (let w = w\<lparr>w_syncing := False, w_syncs := w_syncs w - 1\<rparr> in
      case sr_err syncEvent of
        Some err \<Rightarrow> Some w
      | None \<Rightarrow>
          map_option (\<lambda>cachedDesired.
              w\<lparr>w_handler := Sync E U (sr_desired syncEvent @ cachedDesired) (sr_runningActual syncEvent)
                  (sr_domains syncEvent) (w_cachedEvents w) (w_handler w),
                w_cachedEvents := []\<rparr>)
            (cached_desired E C (go_values (w_cachedEvents w)) (sr_desired syncEvent) (w_handler w)))"
| "watcher_step E U C InSync w =
     (if w_syncing w then Some w else Some (w\<lparr>w_syncs := w_syncs w + 1, w_syncing := True\<rparr>))"
| "watcher_step E U C (InResubscribe err) w = Some (w\<lparr>w_listeners := w_listeners w - 1 + 1\<rparr>)"
| "watcher_step E U C InSignal w = Some (w\<lparr>w_stopped := True\<rparr>)"

text \<open>When an input can arrive: a result needs a running synchronisation, an error a listener.\<close>

fun watcher_enabled :: "watcher_input \<Rightarrow> watcher_state \<Rightarrow> bool" where
  "watcher_enabled (InSyncEnd r) w = (\<not> w_stopped w \<and> w_syncs w > 0)"
| "watcher_enabled (InResubscribe err) w = (\<not> w_stopped w \<and> w_listeners w > 0)"
| "watcher_enabled i w = (\<not> w_stopped w)"

inductive watcher_reachable :: "bbs_env \<Rightarrow> hash_fn \<Rightarrow> Handler \<Rightarrow> watcher_state \<Rightarrow> bool" for E U h0 where
  start: "watcher_reachable E U h0 (watcher_init h0)"
| step: "watcher_reachable E U h0 w \<Longrightarrow> watcher_enabled i w \<Longrightarrow> watcher_step E U C i w = Some w' \<Longrightarrow>
    watcher_reachable E U h0 w'"

inductive_cases watcher_reachableE: "watcher_reachable E U h0 w"

section \<open>Properties\<close>

text \<open>
  C14: at most one synchronisation runs at a time, and the loop knows: it is syncing exactly while one
  runs. There is always exactly one listener on the event stream.
\<close>

theorem one_sync_at_a_time:
  assumes "watcher_reachable E U h0 w"
  shows "w_syncs w = (if w_syncing w then 1 else 0) \<and> w_listeners w = 1"
  using assms
proof induction
  case start
  then show ?case by (simp add: watcher_init_def)
next
  case (step w i C w')
  then show ?case
    by (cases i) (auto simp: Let_def split: if_splits option.splits)
qed

definition example_client :: bbs_client where
  "example_client =
     \<lparr>bbs_ActualLRPs = (\<lambda>cell. Inr [example_actual ''ig1'' 0 ActualLRP_Ordinary 1]),
      bbs_DesiredLRPRoutingInfos = (\<lambda>guids. Inl ''not found''),
      bbs_DesiredLRPs = (\<lambda>guids. Inr [example_desired ''h1'' 2 1]),
      bbs_Domains = Inr [''tests''], EndpointNotFoundErr = ''not found''\<rparr>"

fun run_inputs :: "bbs_env \<Rightarrow> hash_fn \<Rightarrow> bbs_client \<Rightarrow> watcher_input list \<Rightarrow> watcher_state \<Rightarrow> watcher_state option" where
  "run_inputs E U C [] w = Some w"
| "run_inputs E U C (i # inputs) w =
     (if watcher_enabled i w
      then (case watcher_step E U C i w of None \<Rightarrow> None | Some w' \<Rightarrow> run_inputs E U C inputs w') else None)"

lemma run_inputs_reachable:
  "watcher_reachable E U h0 w \<Longrightarrow> run_inputs E U C inputs w = Some w' \<Longrightarrow> watcher_reachable E U h0 w'"
proof (induction E U C inputs w rule: run_inputs.induct)
  case (2 E U C i inputs w)
  then obtain w1 where "watcher_enabled i w" "watcher_step E U C i w = Some w1" "run_inputs E U C inputs w1 = Some w'"
    by (auto split: if_splits option.splits)
  with 2 show ?case by (meson watcher_reachable.step)
qed simp

definition example_start :: Handler where
  "example_start = NewHandler (NewRoutingTable example_env False False) True True False False NewCache"

theorem one_sync_at_a_time_witness:
  "\<exists>w. run_inputs example_env example_hash_total example_client [InSync, InSync] (watcher_init example_start) = Some w \<and>
     w_syncs w = 1"
proof -
  have run: "(case run_inputs example_env example_hash_total example_client [InSync, InSync] (watcher_init example_start) of
      None \<Rightarrow> False | Some w \<Rightarrow> w_syncing w)" by code_simp
  then obtain w where w: "run_inputs example_env example_hash_total example_client [InSync, InSync]
      (watcher_init example_start) = Some w" "w_syncing w"
    by (cases "run_inputs example_env example_hash_total example_client [InSync, InSync] (watcher_init example_start)") auto
  show ?thesis
    using one_sync_at_a_time [OF run_inputs_reachable [OF watcher_reachable.start w(1)]] w by simp
qed

text \<open>The calls on the handler that one input causes.\<close>

fun watcher_calls :: "bbs_env \<Rightarrow> bbs_client \<Rightarrow> watcher_input \<Rightarrow> watcher_state \<Rightarrow> handler_call list" where
  "watcher_calls E C (InEvent event) w =
     (if w_syncing w then []
      else (case retrieveDesired E C event (w_handler w) of
          None \<Rightarrow> []
        | Some lrps \<Rightarrow> (if length lrps > 0 then [CallRefreshDesired lrps] else []) @ [CallHandleEvent event]))"
| "watcher_calls E C InEmitExternal w = [CallEmitExternal]"
| "watcher_calls E C InEmitInternal w = [CallEmitInternal]"
| "watcher_calls E C (InSyncEnd r) w =
     (case sr_err r of
        Some err \<Rightarrow> []
      | None \<Rightarrow>
          (case cached_desired E C (go_values (w_cachedEvents w)) (sr_desired r) (w_handler w) of
             None \<Rightarrow> []
           | Some lrps \<Rightarrow> [CallSync (sr_desired r @ lrps) (sr_runningActual r) (sr_domains r) (w_cachedEvents w)]))"
| "watcher_calls E C i w = []"

lemma watcher_step_does_calls:
  assumes "watcher_step E U C i w = Some w'"
  shows "w_handler w' = fold (do_call E U) (watcher_calls E C i w) (w_handler w)"
  using assms
  by (cases i) (auto simp: watcher_handleEvent_def Let_def split: if_splits option.splits)

lemma watcher_step_calls:
  "watcher_step E U C i w = Some w' \<Longrightarrow> \<exists>cs. w_handler w' = fold (do_call E U) cs (w_handler w)"
  using watcher_step_does_calls by blast

lemma watcher_reachable_calls:
  assumes "watcher_reachable E U h0 w"
  shows "\<exists>cs. w_handler w = fold (do_call E U) cs h0"
  using assms
proof induction
  case start
  have "w_handler (watcher_init h0) = fold (do_call E U) [] h0" by (simp add: watcher_init_def)
  then show ?case by blast
next
  case (step w i C w')
  then obtain cs cs' where "w_handler w = fold (do_call E U) cs h0" "w_handler w' = fold (do_call E U) cs' (w_handler w)"
    using watcher_step_calls by blast
  then have "w_handler w' = fold (do_call E U) (cs @ cs') h0" by simp
  then show ?case by blast
qed

text \<open>
  Whatever inputs the watcher receives and whatever the BBS answers, the handler's table is reached
  by a history of table operations from the empty table: it is always well formed, with routes of the
  right kinds, and the emitters stay configured as they were.
\<close>

theorem watcher_table_wf:
  assumes "watcher_reachable E U (NewHandler (NewRoutingTable E direct tls) nats api localMode tls NewCache) w"
  shows "(\<exists>ops. h_routingTable (w_handler w) = run_ops E tls ops (NewRoutingTable E direct tls)) \<and>
    wf_routing_table E tls (h_routingTable (w_handler w)) \<and> kinds_ok (h_routingTable (w_handler w)) \<and>
    handler_config (w_handler w) = (nats, api, localMode, tls)"
proof -
  let ?h0 = "NewHandler (NewRoutingTable E direct tls) nats api localMode tls NewCache"
  obtain cs where cs: "w_handler w = fold (do_call E U) cs ?h0"
    using watcher_reachable_calls [OF assms] by blast
  have eff: "h_routingTable (w_handler w) = run_ops E tls (concat (map (call_ops E) cs)) (NewRoutingTable E direct tls)"
    "handler_config (w_handler w) = (nats, api, localMode, tls)"
    using handler_calls_effect [of E U cs ?h0] by (simp_all add: cs NewHandler_def handler_config_def)
  then show ?thesis
    using apply_op_run_ops_wf(2) [OF wf_NewRoutingTable, of E tls "concat (map (call_ops E) cs)" direct]
      history_kinds(2) [OF wf_NewRoutingTable kinds_NewRoutingTable, of E tls "concat (map (call_ops E) cs)" direct]
    by auto
qed

theorem watcher_table_wf_witness:
  "\<exists>w. run_inputs example_env example_hash_total example_client
      [InSync, InSyncEnd (watcher_sync example_env example_client '''')] (watcher_init example_start) = Some w \<and>
     wf_routing_table example_env False (h_routingTable (w_handler w)) \<and>
     HTTPAssociationsCount (h_routingTable (w_handler w)) = 1"
proof -
  let ?inputs = "[InSync, InSyncEnd (watcher_sync example_env example_client '''')]"
  have run: "(case run_inputs example_env example_hash_total example_client ?inputs (watcher_init example_start) of
      None \<Rightarrow> False | Some w \<Rightarrow> HTTPAssociationsCount (h_routingTable (w_handler w)) = 1)" by code_simp
  then obtain w where w: "run_inputs example_env example_hash_total example_client ?inputs (watcher_init example_start) = Some w"
    "HTTPAssociationsCount (h_routingTable (w_handler w)) = 1"
    by (cases "run_inputs example_env example_hash_total example_client ?inputs (watcher_init example_start)") auto
  show ?thesis
    using watcher_table_wf [OF run_inputs_reachable [OF watcher_reachable.start w(1), unfolded example_start_def]] w by blast
qed

section \<open>Events during a synchronisation\<close>

text \<open>The last event of a list with a given key.\<close>

fun last_with_key :: "bbs_env \<Rightarrow> string \<Rightarrow> Event list \<Rightarrow> Event option" where
  "last_with_key E k [] = None"
| "last_with_key E k (ev # evs) = (case last_with_key E k evs of Some e \<Rightarrow> Some e
     | None \<Rightarrow> if EventKey E ev = k then Some ev else None)"

definition cache_events :: "bbs_env \<Rightarrow> Event list \<Rightarrow> (string, Event) gomap \<Rightarrow> (string, Event) gomap" where
  "cache_events E evs m = go_collect (EventKey E) (\<lambda>e. e) evs m"

lemma cache_events_get:
  "go_get (cache_events E evs m) k = (case last_with_key E k evs of None \<Rightarrow> go_get m k | Some e \<Rightarrow> Some e)"
  unfolding cache_events_def go_collect_def
  by (induction evs arbitrary: m) (auto split: option.splits)

lemma events_while_syncing:
  "w_syncing w \<Longrightarrow> \<not> w_stopped w \<Longrightarrow>
     run_inputs E U C (map InEvent evs) w = Some (w\<lparr>w_cachedEvents := cache_events E evs (w_cachedEvents w)\<rparr>)"
proof (induction evs arbitrary: w)
  case Nil
  then show ?case by (simp add: cache_events_def go_collect_def)
next
  case (Cons ev evs)
  from Cons.IH [of "w\<lparr>w_cachedEvents := go_put (w_cachedEvents w) (EventKey E ev) ev\<rparr>"] Cons.prems show ?case
    by (simp add: cache_events_def go_collect_def)
qed

lemma run_inputs_append:
  "run_inputs E U C (xs @ ys) w = (case run_inputs E U C xs w of None \<Rightarrow> None | Some w' \<Rightarrow> run_inputs E U C ys w')"
  by (induction E U C xs w rule: run_inputs.induct) (auto split: option.splits)

text \<open>
  C15: events that arrive while a synchronisation runs are not handled at once; when the synchronisation
  succeeds, the new table is built from its result followed by the cached events, the last one of each
  key, so none is lost, and the cache is empty again.
\<close>

theorem sync_replays_cached_events:
  assumes "w_syncing w" "\<not> w_stopped w" "w_syncs w > 0" "sr_err r = None"
    and "cached_desired E C (go_values (cache_events E evs (w_cachedEvents w))) (sr_desired r) (w_handler w) = Some ds"
  shows "\<exists>w' ops. run_inputs E U C (map InEvent evs @ [InSyncEnd r]) w = Some w' \<and>
    ops = sync_ops E (sr_desired r @ ds) (sr_runningActual r) (cache_events E evs (w_cachedEvents w)) \<and>
    h_routingTable (w_handler w') = fst (apply_op E (h_tcpTLSEnabled (w_handler w)) (OpSwap ops (sr_domains r))
      (h_routingTable (w_handler w))) \<and>
    w_cachedEvents w' = [] \<and> \<not> w_syncing w' \<and>
    (\<forall>k. go_get (cache_events E evs (w_cachedEvents w)) k =
      (case last_with_key E k evs of None \<Rightarrow> go_get (w_cachedEvents w) k | Some e \<Rightarrow> Some e))"
proof -
  let ?cached = "cache_events E evs (w_cachedEvents w)"
  let ?w' = "w\<lparr>w_cachedEvents := [], w_syncing := False, w_syncs := w_syncs w - 1,
    w_handler := Sync E U (sr_desired r @ ds) (sr_runningActual r) (sr_domains r) ?cached (w_handler w)\<rparr>"
  have "run_inputs E U C (map InEvent evs @ [InSyncEnd r]) w = Some ?w'"
    using assms by (simp add: run_inputs_append events_while_syncing Let_def)
  moreover have "h_routingTable (w_handler ?w') = fst (apply_op E (h_tcpTLSEnabled (w_handler w))
      (OpSwap (sync_ops E (sr_desired r @ ds) (sr_runningActual r) ?cached) (sr_domains r)) (h_routingTable (w_handler w)))"
    using Sync_effect [of E U "sr_desired r @ ds" "sr_runningActual r" "sr_domains r" ?cached "w_handler w"] by simp
  ultimately show ?thesis
    by (intro exI [of _ ?w'] exI conjI refl allI cache_events_get) simp_all
qed

definition example_event :: Event where
  "example_event = ActualLRPInstanceCreatedEvent ''t'' (Some (example_actual ''ig2'' 1 ActualLRP_Ordinary 1))"

theorem sync_replays_cached_events_witness:
  "\<exists>w'. run_inputs example_env example_hash_total example_client
      (map InEvent [example_event] @ [InSyncEnd (watcher_sync example_env example_client '''')])
      ((watcher_init example_start)\<lparr>w_syncing := True, w_syncs := 1\<rparr>) = Some w' \<and> w_cachedEvents w' = []"
proof -
  let ?w = "(watcher_init example_start)\<lparr>w_syncing := True, w_syncs := 1\<rparr>"
  let ?r = "watcher_sync example_env example_client ''''"
  let ?cached = "cache_events example_env [example_event] (w_cachedEvents ?w)"
  have "sr_err ?r = None" by code_simp
  moreover have "cached_desired example_env example_client (go_values ?cached) (sr_desired ?r) (w_handler ?w) \<noteq> None"
    by code_simp
  then obtain ds where "cached_desired example_env example_client (go_values ?cached) (sr_desired ?r) (w_handler ?w) = Some ds"
    by auto
  moreover have "w_syncing ?w" "\<not> w_stopped ?w" "w_syncs ?w > 0" by (simp_all add: watcher_init_def)
  ultimately show ?thesis
    using sync_replays_cached_events [of ?w ?r example_env example_client "[example_event]" ds example_hash_total] by blast
qed

text \<open>
  C20: when the synchronisation fails, the events that arrived while it ran are neither handled nor
  dropped: they stay cached, unhandled, until a later synchronisation succeeds, while new events are
  handled at once and so overtake them.
\<close>

theorem failed_sync_keeps_events:
  assumes "w_syncing w" "\<not> w_stopped w" "w_syncs w > 0" "sr_err r = Some err"
  shows "\<exists>w'. run_inputs E U C (map InEvent evs @ [InSyncEnd r]) w = Some w' \<and>
    w_handler w' = w_handler w \<and> \<not> w_syncing w' \<and> w_cachedEvents w' = cache_events E evs (w_cachedEvents w) \<and>
    (\<forall>ev h. watcher_handleEvent E U C ev (w_handler w) = Some h \<longrightarrow>
      watcher_step E U C (InEvent ev) w' = Some (w'\<lparr>w_handler := h\<rparr>))"
proof -
  let ?w' = "w\<lparr>w_cachedEvents := cache_events E evs (w_cachedEvents w), w_syncing := False, w_syncs := w_syncs w - 1\<rparr>"
  have "run_inputs E U C (map InEvent evs @ [InSyncEnd r]) w = Some ?w'"
    using assms by (simp add: run_inputs_append events_while_syncing)
  then show ?thesis by (intro exI [of _ ?w'] conjI) simp_all
qed

theorem failed_sync_keeps_events_witness:
  "\<exists>w'. run_inputs example_env example_hash_total example_client
      (map InEvent [example_event] @ [InSyncEnd \<lparr>sr_desired = [], sr_runningActual = [], sr_domains = (\<lambda>_. False),
        sr_err = Some ''timeout''\<rparr>]) ((watcher_init example_start)\<lparr>w_syncing := True, w_syncs := 1\<rparr>) = Some w' \<and>
     w_cachedEvents w' = [(''ig2'', example_event)]"
proof -
  let ?w = "(watcher_init example_start)\<lparr>w_syncing := True, w_syncs := 1\<rparr>"
  let ?r = "\<lparr>sr_desired = [], sr_runningActual = [], sr_domains = (\<lambda>_. False), sr_err = Some ''timeout''\<rparr>"
  have pre: "w_syncing ?w" "\<not> w_stopped ?w" "w_syncs ?w > 0" "sr_err ?r = Some ''timeout''"
    by (simp_all add: watcher_init_def)
  have "cache_events example_env [example_event] (w_cachedEvents ?w) = [(''ig2'', example_event)]" by code_simp
  with failed_sync_keeps_events [OF pre, of example_env example_hash_total example_client "[example_event]"]
  show ?thesis by metis
qed


end
