(* ===== verification/Evacuation.thy ===== *)
theory Evacuation
  imports Watcher
begin

text \<open>
  Evacuation is seamless: when a running instance changes from ordinary to evacuating, the handler adds
  the evacuating record and removes the ordinary one, and together this sends nothing, because both
  records stand for the same container. The proof goes through the exactness of the emission: neither
  operation changes what the table announces.
\<close>

section \<open>Operations that announce no change\<close>

lemma exact_same_view_empty:
  assumes "entry_emission_exact d old new X" "entry_view new = entry_view old"
  shows "X = {}"
proof -
  have "(Hash r, endpoint_sig e) \<in> entry_view en" if "r \<in> set (re_Routes en)" "e \<in> entry_endpoints en" for r e en
    using that by (simp add: entry_view_def)
  with assms show ?thesis unfolding entry_emission_exact_def by blast
qed

lemma table_same_view_empty:
  assumes "table_emission_exact d t t' X" "\<And>k. entry_view (entry_at t' k) = entry_view (entry_at t k)"
  shows "X = {}"
  using assms unfolding table_emission_exact_def by (blast dest: exact_same_view_empty)

lemma emitted_set_empty:
  assumes "emitted_set m msgs = {}"
  shows "m = no_mappings \<and> msgs = no_messages"
proof -
  have "RegistrationMessages msgs = [] \<and> UnregistrationMessages msgs = [] \<and> InternalRegistrationMessages msgs = [] \<and>
      InternalUnregistrationMessages msgs = [] \<and> Registrations m = [] \<and> Unregistrations m = []"
    using assms by (simp add: emitted_set_def)
  then show ?thesis by (cases m; cases msgs) (simp add: no_mappings_def no_messages_def)
qed

section \<open>The two records of an evacuating instance\<close>

text \<open>The evacuating record of an instance: the same container with a new tag and time stamp.\<close>

definition evacuated :: "ModificationTag \<Rightarrow> int64 \<Rightarrow> ActualLRP \<Rightarrow> ActualLRP" where
  "evacuated tag since a = a\<lparr>al_Presence := ActualLRP_Evacuating, al_ModificationTag := tag, al_Since := since\<rparr>"

definition evacuated_endpoint :: "ModificationTag \<Rightarrow> int64 \<Rightarrow> Endpoint \<Rightarrow> Endpoint" where
  "evacuated_endpoint tag since e =
     e\<lparr>ep_Presence := ActualLRP_Evacuating, ep_ModificationTag := Some tag, ep_Since := since\<rparr>"

lemma evacuated_ports:
  "endpoints_for_ports (evacuated tag since a) ports = map (evacuated_endpoint tag since) (endpoints_for_ports a ports)"
proof (induction ports)
  case (Cons p ports)
  then show ?case
    by (cases p) (simp_all add: endpoint_for_port_def evacuated_def evacuated_endpoint_def)
qed simp

lemma evacuated_generators:
  "NewEndpointsFromActual (evacuated tag since a) = map (evacuated_endpoint tag since) (NewEndpointsFromActual a)"
  "internalEndpointsFromActualLRP (evacuated tag since a) =
     map (evacuated_endpoint tag since) (internalEndpointsFromActualLRP a)"
  by (simp_all add: NewEndpointsFromActual_def evacuated_ports internalEndpointsFromActualLRP_def evacuated_def
      evacuated_endpoint_def) (simp add: evacuated_ports [unfolded evacuated_def])

lemma evacuated_endpoint_simps [simp]:
  "endpoint_sig (evacuated_endpoint tag since e) = endpoint_sig e"
  "lrp_key (evacuated tag since a) (evacuated_endpoint tag since e) = lrp_key a e"
  "ep_Index (evacuated_endpoint tag since e) = ep_Index e"
  "ep_ContainerPort (evacuated_endpoint tag since e) = ep_ContainerPort e"
  by (simp_all add: evacuated_endpoint_def endpoint_sig_def lrp_key_def evacuated_def)

lemma evacuated_key:
  "endpoint_key (evacuated_endpoint tag since e) = \<lparr>ek_InstanceGUID = ep_InstanceGUID e, ek_Evacuating = True\<rparr>"
  "ep_Presence e = ActualLRP_Ordinary \<Longrightarrow> endpoint_key e = \<lparr>ek_InstanceGUID = ep_InstanceGUID e, ek_Evacuating = False\<rparr>"
  by (simp_all add: evacuated_endpoint_def endpoint_key_def)

text \<open>
  A table that is ready for the evacuation of an instance: it has the instance's ordinary record at each
  of its keys, as announced by the instance, and the instance's index is still desired.
\<close>

definition ready_at :: "internalRoutingTable \<Rightarrow> ActualLRP \<Rightarrow> bool" where
  "ready_at t a = (ports_distinct t a \<and> list_all (\<lambda>e.
     (case go_get (re_Endpoints (entry_at t (lrp_key a e))) (endpoint_key e) of
        None \<Rightarrow> False | Some cur \<Rightarrow> endpoint_sig cur = endpoint_sig e) \<and>
     \<not> (sint (re_DesiredInstances (entry_at t (lrp_key a e))) > 0 \<and>
        sint (ep_Index e) \<ge> sint (re_DesiredInstances (entry_at t (lrp_key a e))))) (it_endpointGenerator t a))"

definition evacuation_ready :: "routingTable \<Rightarrow> ActualLRP \<Rightarrow> bool" where
  "evacuation_ready t a = (ready_at (httpRoutesRoutingTable t) a \<and> ready_at (tcpRoutesRoutingTable t) a \<and>
     ready_at (internalRoutesRoutingTable t) a)"

lemma flip_evacuated:
  "ep_Presence e = ActualLRP_Ordinary \<Longrightarrow>
     flip_evacuating (endpoint_key (evacuated_endpoint tag since e)) = endpoint_key e"
  by (simp add: evacuated_key flip_evacuating_def)

text \<open>Adding the evacuating record beside the ordinary one.\<close>

lemma add_evacuated_view:
  assumes "wf_entry en" "same_instance_agrees (entry_endpoints en)" "ep_Presence e = ActualLRP_Ordinary"
    and "go_get (re_Endpoints en) (endpoint_key e) = Some cur" "endpoint_sig cur = endpoint_sig e"
    and "add_entry E (evacuated_endpoint tag since e) en = Some en'"
  shows "entry_view en' = entry_view en"
proof -
  let ?e = "evacuated_endpoint tag since e"
  have en': "en' = en\<lparr>re_Endpoints := go_put (re_Endpoints en) (endpoint_key ?e) ?e\<rparr>"
    using assms(6) by (simp add: add_entry_def split: if_splits)
  have keys: "endpoint_key e \<noteq> endpoint_key ?e" using assms(3) by (simp add: evacuated_key)
  have guid: "ep_InstanceGUID ?e = ep_InstanceGUID e" "ep_InstanceGUID cur = ep_InstanceGUID e"
    using endpoint_sig_guid [OF assms(5)] by (simp_all add: evacuated_endpoint_def)
  have cur_in: "cur \<in> entry_endpoints en" using assms(1,4) by (auto simp: entry_endpoints_ran ran_def)
  have "endpoint_sig ` entry_endpoints en' = endpoint_sig ` entry_endpoints en"
  proof -
    have eps: "entry_endpoints en' = insert ?e {e'. \<exists>k'. k' \<noteq> endpoint_key ?e \<and> go_get (re_Endpoints en) k' = Some e'}"
      unfolding en' by (rule entry_endpoints_put [OF assms(1)])
    have cur': "cur \<in> entry_endpoints en'" using assms(4) keys by (auto simp: eps)
    have old: "e' \<in> entry_endpoints en' \<or> endpoint_sig e' = endpoint_sig cur" if e': "e' \<in> entry_endpoints en" for e'
    proof (cases "endpoint_key e' = endpoint_key ?e")
      case True
      then have "ep_InstanceGUID e' = ep_InstanceGUID cur"
        using guid by (simp add: endpoint_key_def)
      then show ?thesis using same_instance_agreesD [OF assms(2) e' cur_in] by blast
    next
      case False
      obtain k' where k': "go_get (re_Endpoints en) k' = Some e'"
        using e' assms(1) by (auto simp: entry_endpoints_ran ran_def)
      then have "k' = endpoint_key e'" using wf_entryD(2) [OF assms(1)] by blast
      with False k' show ?thesis by (auto simp: eps)
    qed
    have new: "e' \<in> entry_endpoints en \<or> endpoint_sig e' = endpoint_sig cur" if "e' \<in> entry_endpoints en'" for e'
      using that assms(1,5) by (auto simp: eps entry_endpoints_ran ran_def)
    from old new cur_in cur' show ?thesis by (auto simp: image_iff)
  qed
  then show ?thesis by (simp add: entry_view_def en')
qed

text \<open>Removing the ordinary record when the evacuating one is there.\<close>

lemma remove_ordinary_view:
  assumes "wf_entry en" "same_instance_agrees (entry_endpoints en)" "ep_Presence e = ActualLRP_Ordinary"
    and "go_get (re_Endpoints en) (endpoint_key (evacuated_endpoint tag since e)) = Some ev"
    and "remove_entry E e en = Some en'"
  shows "entry_view (drop_empty en') = entry_view en"
proof -
  let ?k = "endpoint_key e"
  have en': "en' = en\<lparr>re_Endpoints := go_del (re_Endpoints en) ?k\<rparr>"
    using assms(5) by (auto simp: remove_entry_def split: option.splits if_splits)
  have keys: "?k \<noteq> endpoint_key (evacuated_endpoint tag since e)" using assms(3) by (simp add: evacuated_key)
  have guid: "ep_InstanceGUID ev = ep_InstanceGUID e"
    using wf_entryD(2) [OF assms(1,4)] by (simp add: endpoint_key_def evacuated_endpoint_def)
  have ev_in: "ev \<in> entry_endpoints en" using assms(1,4) by (auto simp: entry_endpoints_ran ran_def)
  have wf': "wf_entry en'" unfolding en' by (rule wf_entry_del [OF assms(1)])
  have mem: "e' \<in> entry_endpoints en' \<longleftrightarrow> (\<exists>k'. k' \<noteq> ?k \<and> go_get (re_Endpoints en) k' = Some e')" for e'
    using wf' by (auto simp: entry_endpoints_ran ran_def en' split: if_splits)
  have ev': "ev \<in> entry_endpoints en'" unfolding mem using assms(4) keys by metis
  have "endpoint_sig ` entry_endpoints en' = endpoint_sig ` entry_endpoints en"
  proof -
    have old: "e' \<in> entry_endpoints en' \<or> endpoint_sig e' = endpoint_sig ev" if e': "e' \<in> entry_endpoints en" for e'
    proof -
      obtain k' where k': "go_get (re_Endpoints en) k' = Some e'"
        using e' assms(1) by (auto simp: entry_endpoints_ran ran_def)
      show ?thesis
      proof (cases "k' = ?k")
        case True
        then have "ep_InstanceGUID e' = ep_InstanceGUID ev"
          using wf_entryD(2) [OF assms(1) k'] guid by (simp add: endpoint_key_def)
        then show ?thesis using same_instance_agreesD [OF assms(2) e' ev_in] by blast
      next
        case False
        with k' show ?thesis by (auto simp: mem)
      qed
    qed
    have new: "e' \<in> entry_endpoints en" if "e' \<in> entry_endpoints en'" for e'
      using that assms(1) by (auto simp: mem entry_endpoints_ran ran_def)
    from old new ev' show ?thesis by (auto simp: image_iff)
  qed
  moreover have "entry_view (drop_empty en') = entry_view en'"
    by (simp add: entry_view_def)
  ultimately show ?thesis by (simp add: entry_view_def en')
qed

section \<open>Both operations on one table\<close>

lemma ready_entry:
  assumes "ready_at t b" "e \<in> set (it_endpointGenerator t b)"
  obtains cur where "go_get (re_Endpoints (entry_at t (lrp_key b e))) (endpoint_key e) = Some cur"
    "endpoint_sig cur = endpoint_sig e"
    "\<not> (sint (re_DesiredInstances (entry_at t (lrp_key b e))) > 0 \<and>
        sint (ep_Index e) \<ge> sint (re_DesiredInstances (entry_at t (lrp_key b e))))"
proof -
  have "(case go_get (re_Endpoints (entry_at t (lrp_key b e))) (endpoint_key e) of
      None \<Rightarrow> False | Some cur \<Rightarrow> endpoint_sig cur = endpoint_sig e)"
    "\<not> (sint (re_DesiredInstances (entry_at t (lrp_key b e))) > 0 \<and>
        sint (ep_Index e) \<ge> sint (re_DesiredInstances (entry_at t (lrp_key b e))))"
    using assms by (auto simp: ready_at_def list_all_iff)
  then show thesis using that by (cases "go_get (re_Endpoints (entry_at t (lrp_key b e))) (endpoint_key e)") auto
qed

text \<open>What the generators promise about the two records of an instance.\<close>

definition evacuates :: "internalRoutingTable \<Rightarrow> ModificationTag \<Rightarrow> int64 \<Rightarrow> ActualLRP \<Rightarrow> bool" where
  "evacuates t tag since b =
     (it_endpointGenerator t (evacuated tag since b) = map (evacuated_endpoint tag since) (it_endpointGenerator t b) \<and>
      (\<forall>e \<in> set (it_endpointGenerator t b). ep_Presence e = ActualLRP_Ordinary))"

lemma evacuation_consistent:
  assumes "ready_at t b" "evacuates t tag since b"
  shows "consistent_at t (evacuated tag since b)"
proof -
  have "new_endpoint_agrees t (evacuated tag since b) (evacuated_endpoint tag since e)"
    if gen: "e \<in> set (it_endpointGenerator t b)" for e
  proof -
    have "ep_Presence e = ActualLRP_Ordinary" using assms(2) gen by (simp add: evacuates_def)
    moreover obtain cur where "go_get (re_Endpoints (entry_at t (lrp_key b e))) (endpoint_key e) = Some cur"
      "endpoint_sig cur = endpoint_sig e"
      using ready_entry [OF assms(1) gen] by metis
    ultimately show ?thesis by (simp add: new_endpoint_agrees_def flip_evacuated)
  qed
  moreover have "ports_distinct t (evacuated tag since b)"
    using assms by (simp add: ready_at_def ports_distinct_def evacuates_def comp_def)
  ultimately show ?thesis using assms(2) by (auto simp: consistent_at_def list_all_iff evacuates_def)
qed

text \<open>Adding the evacuating record changes no entry's view, and leaves that record in the table.\<close>

lemma evacuation_add_view:
  assumes "wf_table t" "agreeing t" "ready_at t b" "evacuates t tag since b"
    and "Internal_AddEndpoint E t (evacuated tag since b) = ((t1, m1, s1, c1), cs)"
  shows "entry_view (entry_at t1 k) = entry_view (entry_at t k)"
    and "e \<in> set (it_endpointGenerator t b) \<Longrightarrow>
      \<exists>ev. go_get (re_Endpoints (entry_at t1 (lrp_key b e))) (endpoint_key (evacuated_endpoint tag since e)) = Some ev"
proof -
  let ?a = "evacuated tag since b" and ?ev = "evacuated_endpoint tag since"
  have gen: "it_endpointGenerator t ?a = map ?ev (it_endpointGenerator t b)"
    using assms(4) by (simp add: evacuates_def)
  have pd: "ports_distinct t ?a" using evacuation_consistent [OF assms(3,4)] by (simp add: consistent_at_def)
  note add = Internal_AddEndpoint_loop [OF assms(1) pd assms(5)]
  have at1: "entry_at t1 (lrp_key b e) = (case add_entry E (?ev e) (entry_at t (lrp_key b e)) of
      None \<Rightarrow> entry_at t (lrp_key b e) | Some en \<Rightarrow> en)" if "e \<in> set (it_endpointGenerator t b)" for e
    using add(3) [of "?ev e", unfolded evacuated_endpoint_simps] that by (simp add: gen)
  have keys: "lrp_key ?a ` set (it_endpointGenerator t ?a) = lrp_key b ` set (it_endpointGenerator t b)"
    by (force simp: gen)
  show "entry_view (entry_at t1 k) = entry_view (entry_at t k)"
  proof (cases "k \<in> lrp_key b ` set (it_endpointGenerator t b)")
    case False
    then show ?thesis using add(2) by (simp add: keys)
  next
    case True
    then obtain e where e: "e \<in> set (it_endpointGenerator t b)" "k = lrp_key b e" by blast
    obtain cur where cur: "go_get (re_Endpoints (entry_at t k)) (endpoint_key e) = Some cur" "endpoint_sig cur = endpoint_sig e"
      using ready_entry [OF assms(3) e(1)] e(2) by metis
    have ord: "ep_Presence e = ActualLRP_Ordinary" using assms(4) e(1) by (simp add: evacuates_def)
    have agree: "same_instance_agrees (entry_endpoints (entry_at t k))"
      using assms(1,2) by (simp add: agreeing_iff agrees_at_def)
    show ?thesis
      using at1 [OF e(1)] e(2) add_evacuated_view [OF wf_table_entry [OF assms(1)] agree ord cur]
      by (simp split: option.splits)
  qed
  assume e: "e \<in> set (it_endpointGenerator t b)"
  show "\<exists>ev. go_get (re_Endpoints (entry_at t1 (lrp_key b e))) (endpoint_key (?ev e)) = Some ev"
    using at1 [OF e] ready_entry [OF assms(3) e]
    by (fastforce simp: add_entry_def split: if_splits option.splits)
qed

text \<open>Removing the ordinary record then changes no view either.\<close>

lemma evacuation_remove_view:
  assumes "wf_table t" "agreeing t" "ports_distinct t b"
    and "\<And>e. e \<in> set (it_endpointGenerator t b) \<Longrightarrow> ep_Presence e = ActualLRP_Ordinary \<and>
      (\<exists>ev. go_get (re_Endpoints (entry_at t (lrp_key b e))) (endpoint_key (evacuated_endpoint tag since e)) = Some ev)"
    and "Internal_RemoveEndpoint E t b = (t2, m2, s2, c2)"
  shows "entry_view (entry_at t2 k) = entry_view (entry_at t k)"
proof (cases "k \<in> lrp_key b ` set (it_endpointGenerator t b)")
  case False
  then show ?thesis using Internal_RemoveEndpoint_loop(2) [OF assms(1,3,5)] by simp
next
  case True
  then obtain e where e: "e \<in> set (it_endpointGenerator t b)" "k = lrp_key b e" by blast
  with assms(4) obtain ev where ev: "ep_Presence e = ActualLRP_Ordinary"
    "go_get (re_Endpoints (entry_at t k)) (endpoint_key (evacuated_endpoint tag since e)) = Some ev" by blast
  have agree: "same_instance_agrees (entry_endpoints (entry_at t k))"
    using assms(1,2) by (simp add: agreeing_iff agrees_at_def)
  show ?thesis
    using Internal_RemoveEndpoint_loop(3) [OF assms(1,3,5) e(1)] e(2)
      remove_ordinary_view [OF wf_table_entry [OF assms(1)] agree ev] by (simp split: option.splits)
qed

lemma Internal_evacuation:
  assumes "wf_table t" "agreeing t" "ready_at t b" "evacuates t tag since b"
    and "Internal_AddEndpoint E t (evacuated tag since b) = ((t1, m1, s1, c1), cs)"
    and "Internal_RemoveEndpoint E t1 b = (t2, m2, s2, c2)"
  shows "m1 = no_mappings \<and> s1 = no_messages \<and> m2 = no_mappings \<and> s2 = no_messages"
proof -
  have one: "wf_table t1" "config t1 = config t" "agreeing t1"
    "table_emission_exact (it_directInstanceRoute t) t t1 (emitted_set m1 s1)"
    using Internal_AddEndpoint_correct [OF assms(1,2) evacuation_consistent [OF assms(3,4)] assms(5)]
    by (simp_all add: part_correct_def)
  have gen1: "it_endpointGenerator t1 = it_endpointGenerator t" by (rule config_generator [OF one(2)])
  have pd1: "ports_distinct t1 b" using assms(3) by (simp add: ready_at_def ports_distinct_def gen1)
  have two: "table_emission_exact (it_directInstanceRoute t1) t1 t2 (emitted_set m2 s2)"
    using Internal_RemoveEndpoint_correct [OF one(1,3) pd1 assms(6)] by (simp add: part_correct_def)
  have evs: "ep_Presence e = ActualLRP_Ordinary \<and>
      (\<exists>ev. go_get (re_Endpoints (entry_at t1 (lrp_key b e))) (endpoint_key (evacuated_endpoint tag since e)) = Some ev)"
    if "e \<in> set (it_endpointGenerator t1 b)" for e
    using that assms(4) evacuation_add_view(2) [OF assms(1-5)] by (simp add: gen1 evacuates_def)
  show ?thesis
    using emitted_set_empty [OF table_same_view_empty [OF one(4) evacuation_add_view(1) [OF assms(1-5)]]]
      emitted_set_empty [OF table_same_view_empty [OF two evacuation_remove_view [OF one(1,3) pd1 evs assms(6)]]] by blast
qed

section \<open>Evacuation through the handler\<close>

lemma evacuates_generators:
  assumes "wf_routing_table E tls t" "al_Presence b = ActualLRP_Ordinary"
  shows "evacuates (httpRoutesRoutingTable t) tag since b" "evacuates (tcpRoutesRoutingTable t) tag since b"
    "evacuates (internalRoutesRoutingTable t) tag since b"
proof -
  have "ep_Presence e = ActualLRP_Ordinary" if "e \<in> set (NewEndpointsFromActual b)" for e
    using that assms(2) by (auto simp: NewEndpointsFromActual_def set_endpoints_for_ports endpoint_for_port_def)
  moreover have "ep_Presence e = ActualLRP_Ordinary" if "e \<in> set (internalEndpointsFromActualLRP b)" for e
    using that assms(2) by (simp add: internalEndpointsFromActualLRP_def)
  ultimately show "evacuates (httpRoutesRoutingTable t) tag since b" "evacuates (tcpRoutesRoutingTable t) tag since b"
    "evacuates (internalRoutesRoutingTable t) tag since b"
    using assms(1) by (simp_all add: evacuates_def wf_routing_table_def evacuated_generators)
qed

lemma evacuation_outputs:
  assumes "wf_routing_table E tls t" "agreeing_table t" "evacuation_ready t b" "al_Presence b = ActualLRP_Ordinary"
  shows "ops_output E tls [OpAddEndpoint (evacuated tag since b), OpRemoveEndpoint b] t = (no_mappings, no_messages)"
proof -
  let ?a = "evacuated tag since b"
  obtain h hm hs hc c1 where h: "Internal_AddEndpoint E (httpRoutesRoutingTable t) ?a = ((h, hm, hs, hc), c1)"
    by (metis surj_pair)
  obtain tc tm ts tcc c2 where tc: "Internal_AddEndpoint E (tcpRoutesRoutingTable t) ?a = ((tc, tm, ts, tcc), c2)"
    by (metis surj_pair)
  obtain i im il ic c3 where i: "Internal_AddEndpoint E (internalRoutesRoutingTable t) ?a = ((i, im, il, ic), c3)"
    by (metis surj_pair)
  let ?t1 = "\<lparr>tcpRoutesRoutingTable = tc, httpRoutesRoutingTable = h, internalRoutesRoutingTable = i\<rparr>"
  obtain h' hm' hs' hc' where h': "Internal_RemoveEndpoint E (httpRoutesRoutingTable ?t1) b = (h', hm', hs', hc')"
    by (metis surj_pair)
  obtain tc' tm' ts' tcc' where tc': "Internal_RemoveEndpoint E (tcpRoutesRoutingTable ?t1) b = (tc', tm', ts', tcc')"
    by (metis surj_pair)
  obtain i' im' il' ic' where i': "Internal_RemoveEndpoint E (internalRoutesRoutingTable ?t1) b = (i', im', il', ic')"
    by (metis surj_pair)
  note wf = wf_routing_table_tables [OF assms(1)] and ev = evacuates_generators [OF assms(1,4)]
  note facts = wf assms(2) [unfolded agreeing_table_def] assms(3) [unfolded evacuation_ready_def]
  have H: "hm = no_mappings \<and> hs = no_messages \<and> hm' = no_mappings \<and> hs' = no_messages"
    by (rule Internal_evacuation [OF _ _ _ ev(1) h h' [simplified]]) (use facts in simp_all)
  have T: "tm = no_mappings \<and> ts = no_messages \<and> tm' = no_mappings \<and> ts' = no_messages"
    by (rule Internal_evacuation [OF _ _ _ ev(2) tc tc' [simplified]]) (use facts in simp_all)
  have I: "im = no_mappings \<and> il = no_messages \<and> im' = no_mappings \<and> il' = no_messages"
    by (rule Internal_evacuation [OF _ _ _ ev(3) i i' [simplified]]) (use facts in simp_all)
  have two: "RemoveEndpoint E ?t1 b =
      (\<lparr>tcpRoutesRoutingTable = tc', httpRoutesRoutingTable = h', internalRoutesRoutingTable = i'\<rparr>,
       merge3 (hm', hs') (tm', ts') (im', il'))"
    by (rule RemoveEndpoint_tables [OF h' tc' i'])
  show ?thesis
    using H T I by (simp add: AddEndpoint_tables [OF h tc i] two merge3_none)
qed

text \<open>
  C16: when a running instance the table knows starts to evacuate, handling the event sends no
  registration and no unregistration: the route stays up while the record changes from ordinary to
  evacuating, whatever the modification tags say.
\<close>

theorem evacuation_is_seamless:
  assumes "wf_routing_table E (h_tcpTLSEnabled h) (h_routingTable h)" "agreeing_table (h_routingTable h)"
    and "evacuation_ready (h_routingTable h) b" "al_Presence b = ActualLRP_Ordinary"
    and "al_State b = ActualLRPStateRunning" "\<not> al_RoutableExists b \<or> al_GetRoutable b" "hash_total U"
  shows "emissions (fst (handleActualUpdate E U b (evacuated tag since b) h)) =
    emissions h @ emit_actions h (no_mappings, no_messages)"
proof -
  let ?a = "evacuated tag since b"
  have ops: "actual_update_ops b ?a = [OpAddEndpoint ?a, OpRemoveEndpoint b]"
    using assms(4-6) by (simp add: actual_update_ops_def evacuated_def)
  obtain r where r: "performs E (actual_update_ops b ?a) h r"
    "handleActualUpdate E U b ?a h = cache_and_emit U (snd (snd r)) (fst (snd r)) (fst r)"
    using actual_update_performs by blast
  from performs_cache_emit(3) [OF r(1) assms(7)] evacuation_outputs [OF assms(1-4)]
  show ?thesis unfolding r(2) ops by simp
qed

theorem evacuation_is_seamless_witness:
  "emissions (fst (handleActualUpdate example_env example_hash_total (example_actual ''ig1'' 0 ActualLRP_Ordinary 1)
     (evacuated (example_tag 2) 9 (example_actual ''ig1'' 0 ActualLRP_Ordinary 1)) example_handler)) =
   emissions example_handler @ emit_actions example_handler (no_mappings, no_messages)"
proof (rule evacuation_is_seamless)
  show "wf_routing_table example_env (h_tcpTLSEnabled example_handler) (h_routingTable example_handler)"
    using wf_example_table by (simp add: example_handler_def NewHandler_def)
  show "agreeing_table (h_routingTable example_handler)"
    using agreeing_example_table by (simp add: example_handler_def NewHandler_def)
  show "evacuation_ready (h_routingTable example_handler) (example_actual ''ig1'' 0 ActualLRP_Ordinary 1)" by code_simp
qed (simp_all add: example_actual_def hash_total_def example_hash_total_def)

end
