(* ===== verification/Resync.thy ===== *)
theory Resync
  imports Evacuation
begin

text \<open>
  Synchronisation settles: swapping in the same freshly read state a second time changes no entry and
  sends nothing, whatever the table held before the first time. So the periodic synchronisation is
  silent while nothing changes, and one successful synchronisation repairs any difference.
\<close>

section \<open>One table\<close>

lemma swap_entry_domain:
  assumes "re_Routes (swap_entry t u domains k) \<noteq> []" "go_get (it_entries t) k = Some existing"
  shows "re_Domain (swap_entry t u domains k) = re_Domain existing"
  using assms by (auto simp: swap_entry_def drop_empty_def mergeUnfreshRoutes_def Let_def zero_entry_def)

lemma swap_content_again:
  assumes "wf_table u" "\<And>k. entry_at t1 k = swap_entry t u domains k"
  shows "swap_content t1 u domains k = swap_content t u domains k"
proof (cases "go_get (it_entries t) k")
  case None
  then have "entry_at t1 k = entry_at u k" "re_Routes (entry_at t k) = []"
    using assms(2) by (simp_all add: swap_entry_def entry_at_def zero_entry_def)
  then show ?thesis by (simp add: swap_content_def filter_empty_conv)
next
  case (Some existing)
  have rs: "re_Routes (entry_at t1 k) = fst (swap_content t u domains k)"
    using swap_entry_content [OF assms(1), of t domains k] unfolding assms(2) by (metis fst_conv)
  show ?thesis
  proof (cases "re_Routes (entry_at t1 k) = []")
    case True
    with rs show ?thesis by (simp add: swap_content_def)
  next
    case False
    then have "re_Domain (entry_at t1 k) = re_Domain (entry_at t k)"
      using swap_entry_domain Some unfolding assms(2) by (simp add: entry_at_def [of t])
    with rs show ?thesis by (simp add: swap_content_def filter_empty_conv)
  qed
qed

lemma Internal_Swap_again:
  assumes "wf_table t" "wf_table u"
  shows "content (fst (Internal_Swap (fst (Internal_Swap t u domains)) u domains)) k = content (fst (Internal_Swap t u domains)) k"
proof -
  obtain t1 m msgs where s: "Internal_Swap t u domains = (t1, m, msgs)" by (metis surj_pair)
  note loop = Internal_Swap_loop [OF assms s]
  have "wf_table t1" using loop(1) by (simp add: table_ok_def)
  then show ?thesis
    using Internal_Swap_content [of t1 u domains k] Internal_Swap_content [OF assms, of domains k] assms(2)
      swap_content_again [OF assms(2) loop(2)] by (simp add: s)
qed

lemma content_view:
  assumes "content t' k = content t k"
  shows "entry_view (entry_at t' k) = entry_view (entry_at t k)"
  using assms by (simp add: content_def entry_view_def entry_endpoints_def)

section \<open>The routing table and the handler\<close>

lemma Swap_tables:
  "httpRoutesRoutingTable (fst (Swap t (Some u) domains)) =
     fst (Internal_Swap (httpRoutesRoutingTable t) (httpRoutesRoutingTable u) domains)"
  "tcpRoutesRoutingTable (fst (Swap t (Some u) domains)) =
     fst (Internal_Swap (tcpRoutesRoutingTable t) (tcpRoutesRoutingTable u) domains)"
  "internalRoutesRoutingTable (fst (Swap t (Some u) domains)) =
     fst (Internal_Swap (internalRoutesRoutingTable t) (internalRoutesRoutingTable u) domains)"
  by (simp_all add: Swap_def Let_def split: prod.splits)

lemma Swap_again:
  fixes domains :: DomainSet
  assumes "wf_routing_table E tls t" "agreeing_table t" "wf_routing_table E tls u" "agreeing_table u"
  defines "t1 \<equiv> fst (Swap t (Some u) domains)"
  shows "contents (fst (Swap t1 (Some u) domains)) k = contents t1 k"
    "snd (Swap t1 (Some u) domains) = (no_mappings, no_messages)"
proof -
  note wf = wf_routing_table_tables [OF assms(1)] wf_routing_table_tables [OF assms(3)]
  let ?t2 = "fst (Swap t1 (Some u) domains)" and ?out = "snd (Swap t1 (Some u) domains)"
  have same: "content (httpRoutesRoutingTable ?t2) k = content (httpRoutesRoutingTable t1) k"
    "content (tcpRoutesRoutingTable ?t2) k = content (tcpRoutesRoutingTable t1) k"
    "content (internalRoutesRoutingTable ?t2) k = content (internalRoutesRoutingTable t1) k" for k
    unfolding t1_def Swap_tables using wf by (simp_all add: Internal_Swap_again)
  show "contents ?t2 k = contents t1 k" by (simp add: contents_def same)
  have first: "routing_correct E tls t t1 (snd (Swap t (Some u) domains))"
    unfolding t1_def by (rule Swap_correct [OF assms(1-4)])
  then have "routing_correct E tls t1 ?t2 ?out"
    by (intro Swap_correct assms(3,4)) (simp_all add: routing_correct_def)
  then obtain H T I where exact: "emitted_set (fst ?out) (snd ?out) = H \<union> T \<union> I"
    "table_emission_exact (it_directInstanceRoute (httpRoutesRoutingTable t1)) (httpRoutesRoutingTable t1) (httpRoutesRoutingTable ?t2) H"
    "table_emission_exact (it_directInstanceRoute (tcpRoutesRoutingTable t1)) (tcpRoutesRoutingTable t1) (tcpRoutesRoutingTable ?t2) T"
    "table_emission_exact (it_directInstanceRoute (internalRoutesRoutingTable t1)) (internalRoutesRoutingTable t1)
       (internalRoutesRoutingTable ?t2) I"
    unfolding routing_correct_def routing_emission_exact_def by blast
  have "H = {}" "T = {}" "I = {}"
    by (rule table_same_view_empty [OF exact(2) content_view [OF same(1)]]
        table_same_view_empty [OF exact(3) content_view [OF same(2)]]
        table_same_view_empty [OF exact(4) content_view [OF same(3)]])+
  with exact(1) have "fst ?out = no_mappings \<and> snd ?out = no_messages" by (intro emitted_set_empty) simp
  then show "?out = (no_mappings, no_messages)" by (metis surjective_pairing)
qed



end
