(* ===== verification/Scheduler.thy ===== *)
theory Scheduler
  imports Registry_Message
begin

text \<open>
  \<open>scheduler/routebroadcastscheduler.go\<close>: greeting the router until it answers, then asking for an
  emission at the interval the router wants, and \<open>syncer/syncer.go\<close>: asking for a synchronisation at a
  fixed interval. Both talk to the watcher through a channel with room for one request.

  The NATS client, the clock, JSON decoding and the value of the floating point product that bounds the
  jitter are parameters. The branches of a \<open>select\<close> that fired are a list of inputs.
\<close>

section \<open>Greeting the external service\<close>

record nats_conn =
  nc_Subscribe :: "string \<Rightarrow> go_error option"
  nc_PublishRequest :: "nat \<Rightarrow> string \<Rightarrow> string \<Rightarrow> go_error option"

text \<open>The subjects subscribed to, and the error that stopped it.\<close>

definition listenForExternalService :: "nats_conn \<Rightarrow> string \<Rightarrow> string \<Rightarrow> string list \<times> go_error option" where
  "listenForExternalService N externalServiceName replyUUID =
     (case nc_Subscribe N (externalServiceName @ ''.start'') of
        Some err \<Rightarrow> ([externalServiceName @ ''.start''], Some err)
      | None \<Rightarrow> ([externalServiceName @ ''.start'', replyUUID], nc_Subscribe N replyUUID))"

text \<open>The first argument counts the requests, so that an answer may depend on it.\<close>

definition greetExternalService :: "nats_conn \<Rightarrow> string \<Rightarrow> string \<Rightarrow> nat \<Rightarrow> go_error option" where
  "greetExternalService N externalServiceName replyUUID attempt =
     nc_PublishRequest N attempt (externalServiceName @ ''.greet'') replyUUID"

datatype greet_input = GreetReply int64 | GreetRetry | GreetSignal

datatype greet_result =
    Greeted int64
  | GreetFailed go_error
  | GaveUp
  | GreetStopped
  | GreetWaiting

text \<open>
  The loop, on the branches of its \<open>select\<close> that fired: the number of greetings sent and how the loop
  ended, \<open>GreetWaiting\<close> when it still waits in the \<open>select\<close>.
\<close>

fun greet_loop :: "nats_conn \<Rightarrow> string \<Rightarrow> string \<Rightarrow> nat \<Rightarrow> nat \<Rightarrow> greet_input list \<Rightarrow> nat \<times> greet_result" where
  "greet_loop N name reply maxGreetAttempts greetAttempt inputs =
     (let greetAttempt = greetAttempt + 1 in
      case greetExternalService N name reply greetAttempt of
        Some err \<Rightarrow> (greetAttempt, GreetFailed err)
      | None \<Rightarrow>
          if greetAttempt = maxGreetAttempts then (greetAttempt, GaveUp)
          else (case inputs of
             [] \<Rightarrow> (greetAttempt, GreetWaiting)
           | GreetReply interval # _ \<Rightarrow> (greetAttempt, Greeted interval)
           | GreetRetry # inputs' \<Rightarrow> greet_loop N name reply maxGreetAttempts greetAttempt inputs'
           | GreetSignal # _ \<Rightarrow> (greetAttempt, GreetStopped)))"

declare greet_loop.simps [simp del]

text \<open>
  The scheduler's own data; a channel is its name. The clients it holds are parameters of its operations.
\<close>

record RouteBroadcastScheduler =
  rb_externalServiceName :: string
  rb_emitCh :: string
  rb_MaxGreetAttempts :: nat

definition NewRouteBroadcastScheduler :: "string \<Rightarrow> string \<Rightarrow> RouteBroadcastScheduler" where
  "NewRouteBroadcastScheduler externalServiceName emitCh =
     \<lparr>rb_externalServiceName = externalServiceName, rb_emitCh = emitCh, rb_MaxGreetAttempts = 30\<rparr>"

definition EmitCh :: "RouteBroadcastScheduler \<Rightarrow> string" where
  "EmitCh s = rb_emitCh s"

section \<open>The answer of the external service\<close>

text \<open>
  \<open>time.Duration(greetInterval) * time.Second\<close> in nanoseconds, as a 64 bit integer. A message that does
  not decode is logged and dropped.
\<close>

definition second_ns :: int64 where
  "second_ns = 1000000000"

definition handleExternalServiceStart :: "(string \<Rightarrow> go_error + ExternalServiceGreetingMessage) \<Rightarrow> string \<Rightarrow> int64 option" where
  "handleExternalServiceStart unmarshal payload =
     (case unmarshal payload of
        Inl err \<Rightarrow> None
      | Inr response \<Rightarrow> Some (of_int (esg_MinimumRegisterInterval response) * second_ns))"

section \<open>The emit loop\<close>

record sched_state =
  sc_interval :: int64
  sc_pending :: bool
  sc_sent :: nat
  sc_received :: nat
  sc_slept :: "int64 list"

datatype sched_input = ServiceStart int64 | EmitTick | EmitReceived | SchedSignal

text \<open>
  What \<open>Run\<close> relies on besides NATS: the fresh UUID, the value of
  \<open>int64(s.cfg.JitterFactor * float64(registerInterval))\<close>, the random source's \<open>Int63n\<close> for a positive bound
  (it panics on another one), and whether the clock makes a ticker for an interval or panics.
\<close>

record sched_env =
  se_uuid :: "go_error + string"
  se_conn :: nats_conn
  se_jitterBound :: "int64 \<Rightarrow> int64"
  se_Int63n :: "int64 \<Rightarrow> int64"
  se_NewTicker :: "int64 \<Rightarrow> bool"

datatype sched_result =
    SchedReturned "go_error option"
  | SchedPanicked
  | SchedGreeting nat
  | SchedRunning sched_state

text \<open>The non-blocking send on the channel with room for one.\<close>

definition sched_emit :: "sched_state \<Rightarrow> sched_state" where
  "sched_emit s = (if sc_pending s then s else s\<lparr>sc_pending := True, sc_sent := sc_sent s + 1\<rparr>)"

text \<open>
  The loop, on the branches that fired. \<open>EmitReceived\<close> is the watcher's receive, which takes nothing
  from an empty channel.
\<close>

fun sched_loop :: "sched_env \<Rightarrow> sched_input list \<Rightarrow> sched_state \<Rightarrow> sched_result" where
  "sched_loop S [] s = SchedRunning s"
| "sched_loop S (ServiceStart registerInterval # inputs) s =
     (if sint (se_jitterBound S registerInterval) \<le> 0 then SchedPanicked
      else (let s = s\<lparr>sc_slept := sc_slept s @ [se_Int63n S (se_jitterBound S registerInterval)]\<rparr> in
        if \<not> se_NewTicker S registerInterval then SchedPanicked
        else sched_loop S inputs (sched_emit (s\<lparr>sc_interval := registerInterval\<rparr>))))"
| "sched_loop S (EmitTick # inputs) s = sched_loop S inputs (sched_emit s)"
| "sched_loop S (EmitReceived # inputs) s =
     sched_loop S inputs (if sc_pending s then s\<lparr>sc_pending := False, sc_received := sc_received s + 1\<rparr> else s)"
| "sched_loop S (SchedSignal # inputs) s = SchedReturned None"

definition give_up_error :: "RouteBroadcastScheduler \<Rightarrow> go_error" where
  "give_up_error s = ''attempted to greet '' @ [CHR 0x27] @ rb_externalServiceName s @ [CHR 0x27] @ '' '' @
     itoa (int (rb_MaxGreetAttempts s)) @ '' times without success''"

definition sched_Run :: "sched_env \<Rightarrow> RouteBroadcastScheduler \<Rightarrow> greet_input list \<Rightarrow> sched_input list \<Rightarrow> sched_result" where
  "sched_Run S s greets inputs =
     (case se_uuid S of
        Inl err \<Rightarrow> SchedReturned (Some err)
      | Inr replyUuid \<Rightarrow>
          (case snd (listenForExternalService (se_conn S) (rb_externalServiceName s) replyUuid) of
             Some err \<Rightarrow> SchedReturned (Some err)
           | None \<Rightarrow>
               (case greet_loop (se_conn S) (rb_externalServiceName s) replyUuid (rb_MaxGreetAttempts s) 0 greets of
                  (n, Greeted registerInterval) \<Rightarrow>
                    if se_NewTicker S registerInterval
                    then sched_loop S inputs \<lparr>sc_interval = registerInterval, sc_pending = False, sc_sent = 0,
                           sc_received = 0, sc_slept = []\<rparr>
                    else SchedPanicked
                | (n, GreetFailed err) \<Rightarrow> SchedReturned (Some err)
                | (n, GaveUp) \<Rightarrow> SchedReturned (Some (give_up_error s))
                | (n, GreetStopped) \<Rightarrow> SchedReturned None
                | (n, GreetWaiting) \<Rightarrow> SchedGreeting n)))"

section \<open>The syncer\<close>

record NatsSyncer =
  ns_syncInterval :: int64
  ns_syncCh :: string

definition NewSyncer :: "int64 \<Rightarrow> NatsSyncer" where
  "NewSyncer syncInterval = \<lparr>ns_syncInterval = syncInterval, ns_syncCh = ''syncCh''\<rparr>"

definition SyncCh :: "NatsSyncer \<Rightarrow> string" where
  "SyncCh s = ns_syncCh s"

text \<open>
  \<open>sync\<close> blocks while the channel is full; the syncer is then in \<open>SyncerSending\<close> and reacts to nothing
  else. The watcher's receive is a step of the environment.
\<close>

datatype syncer_pc = SyncerSending | SyncerIdle | SyncerStopped

record syncer_state =
  sy_pc :: syncer_pc
  sy_channel :: nat
  sy_received :: nat

datatype syncer_event = SyncSend | SyncTick | SyncSignal | SyncReceive

definition syncer_init :: syncer_state where
  "syncer_init = \<lparr>sy_pc = SyncerSending, sy_channel = 0, sy_received = 0\<rparr>"

fun syncer_step :: "syncer_event \<Rightarrow> syncer_state \<Rightarrow> syncer_state option" where
  "syncer_step SyncSend s =
     (if sy_pc s = SyncerSending \<and> sy_channel s < 1
      then Some (s\<lparr>sy_channel := sy_channel s + 1, sy_pc := SyncerIdle\<rparr>) else None)"
| "syncer_step SyncTick s = (if sy_pc s = SyncerIdle then Some (s\<lparr>sy_pc := SyncerSending\<rparr>) else None)"
| "syncer_step SyncSignal s = (if sy_pc s = SyncerIdle then Some (s\<lparr>sy_pc := SyncerStopped\<rparr>) else None)"
| "syncer_step SyncReceive s =
     (if sy_channel s > 0 then Some (s\<lparr>sy_channel := sy_channel s - 1, sy_received := sy_received s + 1\<rparr>) else None)"

inductive syncer_reachable :: "syncer_state \<Rightarrow> nat \<Rightarrow> bool" where
  init: "syncer_reachable syncer_init 0"
| step: "syncer_reachable s n \<Longrightarrow> syncer_step ev s = Some s' \<Longrightarrow>
    syncer_reachable s' (if ev = SyncTick then n + 1 else n)"

section \<open>Properties\<close>

lemma greet_loop_bound:
  assumes "greet_loop N name reply m a inputs = (n, r)" "a < m"
  shows "a < n \<and> n \<le> m \<and> n \<le> a + 1 + length (takeWhile (\<lambda>i. i = GreetRetry) inputs) \<and> (r = GaveUp \<longrightarrow> n = m)"
  using assms
proof (induction inputs arbitrary: a)
  case Nil
  then show ?case by (subst (asm) greet_loop.simps) (auto simp: Let_def split: option.splits if_splits)
next
  case (Cons i inputs)
  show ?case
  proof (cases "i = GreetRetry \<and> greetExternalService N name reply (a + 1) = None \<and> a + 1 \<noteq> m")
    case True
    then have "greet_loop N name reply m (a + 1) inputs = (n, r)" "a + 1 < m"
      using Cons.prems by (subst (asm) greet_loop.simps, simp add: Let_def, simp)
    from Cons.IH [OF this] show ?thesis using True by auto
  next
    case False
    then show ?thesis
      using Cons.prems by (subst (asm) greet_loop.simps)
        (auto simp: Let_def split: option.splits if_splits greet_input.splits)
  qed
qed

text \<open>
  The scheduler greets the external service at least once and at most thirty times,
  once more per retry tick, and gives up exactly with the last greeting, for whose answer it no longer
  waits.
\<close>

theorem greeting_is_bounded:
  assumes "greet_loop N name reply (rb_MaxGreetAttempts (NewRouteBroadcastScheduler name ch)) 0 inputs = (n, r)"
  shows "1 \<le> n \<and> n \<le> 30 \<and> n \<le> 1 + length (takeWhile (\<lambda>i. i = GreetRetry) inputs) \<and> (r = GaveUp \<longrightarrow> n = 30)"
  using greet_loop_bound [OF assms] by (simp add: NewRouteBroadcastScheduler_def)

theorem greeting_is_bounded_witness:
  "fst (greet_loop \<lparr>nc_Subscribe = (\<lambda>s. None), nc_PublishRequest = (\<lambda>n s r. None)\<rparr> ''router'' ''uuid''
     (rb_MaxGreetAttempts (NewRouteBroadcastScheduler ''router'' ''ch'')) 0 [GreetRetry, GreetReply 5]) \<le> 30"
proof -
  let ?N = "\<lparr>nc_Subscribe = (\<lambda>s. None), nc_PublishRequest = (\<lambda>n s r. None)\<rparr> :: nats_conn"
  obtain n r where g: "greet_loop ?N ''router'' ''uuid''
      (rb_MaxGreetAttempts (NewRouteBroadcastScheduler ''router'' ''ch'')) 0 [GreetRetry, GreetReply 5] = (n, r)"
    by (metis surj_pair)
  from greeting_is_bounded [OF g] show ?thesis by (simp add: g)
qed

text \<open>
  The syncer has at most one request waiting, every tick it took and the start lead to exactly one
  request, and no request is lost.
\<close>

theorem syncer_requests:
  assumes "syncer_reachable s ticks"
  shows "sy_channel s \<le> 1 \<and> sy_channel s + sy_received s + (if sy_pc s = SyncerSending then 1 else 0) = ticks + 1"
  using assms
proof induction
  case init
  then show ?case by (simp add: syncer_init_def)
next
  case (step s n ev s')
  then show ?case by (cases ev) (auto split: if_splits)
qed

theorem syncer_requests_witness:
  "\<exists>s. syncer_reachable s 0 \<and> sy_channel s = 1"
proof -
  have "syncer_step SyncSend syncer_init = Some (syncer_init\<lparr>sy_channel := 1, sy_pc := SyncerIdle\<rparr>)"
    by (simp add: syncer_init_def)
  from syncer_reachable.step [OF syncer_reachable.init this]
  have r: "syncer_reachable (syncer_init\<lparr>sy_channel := 1, sy_pc := SyncerIdle\<rparr>) 0" by simp
  from syncer_requests [OF r] r show ?thesis by (intro exI conjI) auto
qed

section \<open>The scheduler's run\<close>

definition announced :: "sched_input list \<Rightarrow> int64 list" where
  "announced inputs = [d. ServiceStart d \<leftarrow> inputs]"

lemma announced_simps [simp]:
  "announced [] = []" "announced (ServiceStart d # inputs) = d # announced inputs"
  "announced (EmitTick # inputs) = announced inputs" "announced (EmitReceived # inputs) = announced inputs"
  "announced (SchedSignal # inputs) = announced inputs"
  by (simp_all add: announced_def)

definition channel_ok :: "sched_state \<Rightarrow> bool" where
  "channel_ok s = (sc_sent s = sc_received s + (if sc_pending s then 1 else 0))"

lemma channel_ok_emit [simp]:
  "channel_ok s \<Longrightarrow> channel_ok (sched_emit s)" "sc_interval (sched_emit s) = sc_interval s"
  by (simp_all add: channel_ok_def sched_emit_def)

lemma sched_loop_running:
  assumes "sched_loop S inputs s = SchedRunning s'" "channel_ok s"
  shows "channel_ok s' \<and> sc_interval s' = last (sc_interval s # announced inputs)"
  using assms
  by (induction S inputs s rule: sched_loop.induct)
    (auto simp: Let_def channel_ok_def sched_emit_def split: if_splits)

lemma sched_loop_panic:
  assumes "sched_loop S inputs s = SchedPanicked"
  shows "\<exists>d \<in> set (announced inputs). sint (se_jitterBound S d) \<le> 0 \<or> \<not> se_NewTicker S d"
  using assms by (induction S inputs s rule: sched_loop.induct) (auto simp: Let_def split: if_splits)

lemma greet_loop_greeted:
  assumes "greet_loop N name reply m a inputs = (n, Greeted d)" "a < m"
  shows "(\<exists>rest. dropWhile (\<lambda>i. i = GreetRetry) inputs = GreetReply d # rest) \<and>
    n = a + 1 + length (takeWhile (\<lambda>i. i = GreetRetry) inputs) \<and> n < m"
  using assms
proof (induction inputs arbitrary: a)
  case Nil
  then show ?case by (subst (asm) greet_loop.simps) (auto simp: Let_def split: option.splits if_splits)
next
  case (Cons i inputs)
  have go: "greetExternalService N name reply (Suc a) = None" "Suc a \<noteq> m"
    using Cons.prems(1) by (subst (asm) greet_loop.simps, auto simp: Let_def split: option.splits if_splits)+
  show ?case
  proof (cases i)
    case GreetRetry
    then have "greet_loop N name reply m (Suc a) inputs = (n, Greeted d)" "Suc a < m"
      using Cons.prems go by (subst (asm) greet_loop.simps, simp add: Let_def, simp)
    from Cons.IH [OF this] GreetRetry show ?thesis by simp
  qed (use Cons.prems go in \<open>(subst (asm) greet_loop.simps, simp add: Let_def)+\<close>)
qed

text \<open>
  C37: a scheduler that runs was answered after fewer than thirty greetings, emits at the interval
  announced last, and has asked for at most one emission more than the watcher took.
\<close>

theorem sched_Run_running:
  assumes "sched_Run S (NewRouteBroadcastScheduler name ch) greets inputs = SchedRunning s"
  shows "(\<exists>d rest. dropWhile (\<lambda>i. i = GreetRetry) greets = GreetReply d # rest \<and>
        length (takeWhile (\<lambda>i. i = GreetRetry) greets) + 1 < 30 \<and> sc_interval s = last (d # announced inputs)) \<and>
     sc_sent s = sc_received s + (if sc_pending s then 1 else 0)"
proof -
  obtain reply n d where g: "greet_loop (se_conn S) name reply 30 0 greets = (n, Greeted d)"
    and loop: "sched_loop S inputs \<lparr>sc_interval = d, sc_pending = False, sc_sent = 0, sc_received = 0, sc_slept = []\<rparr> =
      SchedRunning s"
    using assms by (auto simp: sched_Run_def NewRouteBroadcastScheduler_def split: sum.splits option.splits prod.splits greet_result.splits if_splits)
  from greet_loop_greeted [OF g] sched_loop_running [OF loop] show ?thesis
    by (auto simp: NewRouteBroadcastScheduler_def channel_ok_def)
qed

definition example_sched :: sched_env where
  "example_sched = \<lparr>se_uuid = Inr ''uuid'',
     se_conn = \<lparr>nc_Subscribe = (\<lambda>s. None), nc_PublishRequest = (\<lambda>n s r. None)\<rparr>,
     se_jitterBound = (\<lambda>d. d), se_Int63n = (\<lambda>b. 0), se_NewTicker = (\<lambda>d. sint d > 0)\<rparr>"

theorem sched_Run_running_witness:
  "\<exists>s. sched_Run example_sched (NewRouteBroadcastScheduler ''router'' ''ch'') [GreetRetry, GreetReply 5] [EmitTick, EmitTick, ServiceStart 7] = SchedRunning s \<and>
     sc_interval s = 7 \<and> sc_sent s = 1"
proof -
  have "(case sched_Run example_sched (NewRouteBroadcastScheduler ''router'' ''ch'') [GreetRetry, GreetReply 5] [EmitTick, EmitTick, ServiceStart 7] of
      SchedRunning s \<Rightarrow> sc_pending s \<and> sc_received s = 0 | _ \<Rightarrow> False)" by code_simp
  then obtain s where s: "sched_Run example_sched (NewRouteBroadcastScheduler ''router'' ''ch'') [GreetRetry, GreetReply 5] [EmitTick, EmitTick, ServiceStart 7] =
      SchedRunning s" "sc_pending s" "sc_received s = 0"
    by (auto split: sched_result.splits)
  from sched_Run_running [OF s(1)] s show ?thesis by auto
qed

text \<open>
  The scheduler panics only on an announced interval for which the jitter bound is not positive or
  no ticker can be made, as for an interval or a jitter factor of zero.
\<close>

theorem sched_Run_panic:
  assumes "sched_Run S (NewRouteBroadcastScheduler name ch) greets inputs = SchedPanicked"
  shows "\<exists>d. (GreetReply d \<in> set greets \<and> \<not> se_NewTicker S d) \<or>
    (d \<in> set (announced inputs) \<and> (sint (se_jitterBound S d) \<le> 0 \<or> \<not> se_NewTicker S d))"
proof -
  obtain reply n d s where g: "greet_loop (se_conn S) name reply 30 0 greets = (n, Greeted d)"
    and loop: "\<not> se_NewTicker S d \<or> sched_loop S inputs s = SchedPanicked"
    using assms by (auto simp: sched_Run_def NewRouteBroadcastScheduler_def split: sum.splits option.splits prod.splits greet_result.splits if_splits)
  have "0 < (30::nat)" by simp
  from greet_loop_greeted [OF g this] have "GreetReply d \<in> set greets"
    by (metis list.set_intros(1) set_dropWhileD)
  with loop sched_loop_panic [of S inputs s] show ?thesis by blast
qed

theorem sched_Run_panic_witness:
  "sched_Run example_sched (NewRouteBroadcastScheduler ''router'' ''ch'') [GreetReply 5] [EmitTick, ServiceStart 0] = SchedPanicked"
proof -
  have p: "sched_Run example_sched (NewRouteBroadcastScheduler ''router'' ''ch'') [GreetReply 5] [EmitTick, ServiceStart 0] = SchedPanicked" by code_simp
  from sched_Run_panic [OF p] p show ?thesis by blast
qed

section \<open>The scheduler ends\<close>

lemma greet_loop_waiting:
  assumes "greet_loop N name reply m a inputs = (n, GreetWaiting)" "a < m"
  shows "(\<forall>i \<in> set inputs. i = GreetRetry) \<and> a + 1 + length inputs < m"
  using assms
proof (induction inputs arbitrary: a)
  case Nil
  then show ?case by (subst (asm) greet_loop.simps) (auto simp: Let_def split: option.splits if_splits)
next
  case (Cons i inputs)
  have go: "greetExternalService N name reply (Suc a) = None" "Suc a \<noteq> m"
    using Cons.prems(1) by (subst (asm) greet_loop.simps, auto simp: Let_def split: option.splits if_splits)+
  then have "i = GreetRetry" "greet_loop N name reply m (Suc a) inputs = (n, GreetWaiting)"
    using Cons.prems(1) by (subst (asm) greet_loop.simps, auto simp: Let_def split: greet_input.splits)+
  with Cons.IH [of "Suc a"] Cons.prems(2) go show ?case by simp
qed

lemma sched_loop_stops:
  "SchedSignal \<in> set inputs \<Longrightarrow> sched_loop S inputs s = SchedReturned None \<or> sched_loop S inputs s = SchedPanicked"
  by (induction S inputs s rule: sched_loop.induct) (auto simp: Let_def)



end
