(* ===== verification/Requests.thy ===== *)
theory Requests
  imports Watcher Scheduler
begin

text \<open>
  The syncer and the watcher on their channel: \<open>main.go\<close> passes \<open>syncer.SyncCh()\<close> to the watcher. A receive
  on the channel and the branch of the watcher's \<open>select\<close> it fires are one step. Everything else the
  watcher receives interleaves.
\<close>

record request_state =
  rq_syncer :: syncer_state
  rq_watcher :: watcher_state
  rq_started :: nat

datatype request_event =
    SyncerMove syncer_event
  | TakeSync bbs_client
  | WatcherMove bbs_client watcher_input

fun request_step :: "bbs_env \<Rightarrow> hash_fn \<Rightarrow> request_event \<Rightarrow> request_state \<Rightarrow> request_state option" where
  "request_step E U (SyncerMove ev) s =
     (if ev = SyncReceive then None
      else map_option (\<lambda>y. s\<lparr>rq_syncer := y\<rparr>) (syncer_step ev (rq_syncer s)))"
| "request_step E U (TakeSync C) s =
     (if watcher_enabled InSync (rq_watcher s)
      then (case syncer_step SyncReceive (rq_syncer s) of
         None \<Rightarrow> None
       | Some y \<Rightarrow> map_option (\<lambda>w. s\<lparr>rq_syncer := y, rq_watcher := w,
             rq_started := (if w_syncing (rq_watcher s) then rq_started s else rq_started s + 1)\<rparr>)
           (watcher_step E U C InSync (rq_watcher s)))
      else None)"
| "request_step E U (WatcherMove C i) s =
     (if i \<noteq> InSync \<and> watcher_enabled i (rq_watcher s)
      then map_option (\<lambda>w. s\<lparr>rq_watcher := w\<rparr>) (watcher_step E U C i (rq_watcher s)) else None)"

definition request_init :: "Handler \<Rightarrow> request_state" where
  "request_init h = \<lparr>rq_syncer = syncer_init, rq_watcher = watcher_init h, rq_started = 0\<rparr>"

text \<open>The second argument counts the ticks of the syncer.\<close>

inductive request_reachable :: "bbs_env \<Rightarrow> hash_fn \<Rightarrow> Handler \<Rightarrow> request_state \<Rightarrow> nat \<Rightarrow> bool" for E U h0 where
  start: "request_reachable E U h0 (request_init h0) 0"
| step: "request_reachable E U h0 s n \<Longrightarrow> request_step E U ev s = Some s' \<Longrightarrow>
    request_reachable E U h0 s' (if ev = SyncerMove SyncTick then n + 1 else n)"

definition requests_inv :: "request_state \<Rightarrow> nat \<Rightarrow> bool" where
  "requests_inv s n =
     (sy_channel (rq_syncer s) \<le> 1 \<and>
      sy_channel (rq_syncer s) + sy_received (rq_syncer s) + (if sy_pc (rq_syncer s) = SyncerSending then 1 else 0) = n + 1 \<and>
      w_syncs (rq_watcher s) = (if w_syncing (rq_watcher s) then 1 else 0) \<and>
      rq_started s \<le> sy_received (rq_syncer s) \<and> (sy_received (rq_syncer s) > 0 \<longrightarrow> rq_started s > 0) \<and>
      (w_syncing (rq_watcher s) \<longrightarrow> rq_started s > 0))"

lemma watcher_step_syncing:
  assumes "watcher_step E U C i w = Some w'" "i \<noteq> InSync" "w_syncs w = (if w_syncing w then 1 else 0)"
  shows "w_syncs w' = (if w_syncing w' then 1 else 0)" "w_syncing w' \<Longrightarrow> w_syncing w"
  using assms by (cases i; auto simp: Let_def split: if_splits option.splits)+

lemma requests_inv_step:
  assumes "requests_inv s n" "request_step E U ev s = Some s'"
  shows "requests_inv s' (if ev = SyncerMove SyncTick then n + 1 else n)"
proof (cases ev)
  case (SyncerMove sev)
  with assms show ?thesis
    by (cases sev) (auto simp: requests_inv_def split: if_splits)
next
  case (TakeSync C)
  with assms show ?thesis by (auto simp: requests_inv_def split: if_splits)
next
  case (WatcherMove C i)
  then obtain w where w: "watcher_step E U C i (rq_watcher s) = Some w" "i \<noteq> InSync" "s' = s\<lparr>rq_watcher := w\<rparr>"
    using assms(2) by (auto split: if_splits)
  have "w_syncs (rq_watcher s) = (if w_syncing (rq_watcher s) then 1 else 0)" using assms(1) by (simp add: requests_inv_def)
  from watcher_step_syncing [OF w(1,2) this] assms(1) w(3) WatcherMove show ?thesis by (simp add: requests_inv_def)
qed

lemma requests_inv_reachable: "request_reachable E U h0 s n \<Longrightarrow> requests_inv s n"
proof (induction rule: request_reachable.induct)
  case start
  then show ?case by (simp add: requests_inv_def request_init_def syncer_init_def watcher_init_def)
next
  case (step s n ev s')
  then show ?case using requests_inv_step by blast
qed


fun request_run :: "bbs_env \<Rightarrow> hash_fn \<Rightarrow> request_event list \<Rightarrow> request_state \<times> nat \<Rightarrow> (request_state \<times> nat) option" where
  "request_run E U [] sn = Some sn"
| "request_run E U (ev # evs) (s, n) =
     (case request_step E U ev s of
        None \<Rightarrow> None
      | Some s' \<Rightarrow> request_run E U evs (s', if ev = SyncerMove SyncTick then n + 1 else n))"

lemma request_run_reachable:
  "request_reachable E U h0 s n \<Longrightarrow> request_run E U evs (s, n) = Some (s', n') \<Longrightarrow> request_reachable E U h0 s' n'"
proof (induction evs arbitrary: s n)
  case (Cons ev evs)
  then show ?case by (auto split: option.splits dest: request_reachable.step)
qed simp


end
