(* ===== verification/NATS_Client.thy ===== *)
theory NATS_Client
  imports RE_Prelude
begin

text \<open>
  \<open>diegonats/nats_client.go\<close> and \<open>diegonats/nats_client_runner.go\<close>: the client that all processes share and
  the process that connects it. The NATS library is the parameter \<open>nats_lib\<close>; a connection is the number
  the library returns. Of Go's \<open>net/url\<close> the file has what \<open>URL.String\<close> does for a URL with a scheme, a
  user with a password and a host.
\<close>

section \<open>The URL of a server\<close>

definition url_unreserved :: "char \<Rightarrow> bool" where
  "url_unreserved c = (c \<in> set ''abcdefghijklmnopqrstuvwxyzABCDEFGHIJKLMNOPQRSTUVWXYZ0123456789-_.~'')"

text \<open>\<open>shouldEscape\<close> of \<open>net/url\<close> in the modes \<open>encodeUserPassword\<close> and \<open>encodeHost\<close>.\<close>

definition should_escape_user :: "char \<Rightarrow> bool" where
  "should_escape_user c =
     (if url_unreserved c then False
      else if c \<in> set ''$&+,/:;=?@'' then c \<in> set ''@/?:''
      else True)"

definition should_escape_host :: "char \<Rightarrow> bool" where
  "should_escape_host c =
     (if c = CHR 0x27 \<or> c = CHR 0x22 \<or> c \<in> set ''!$&()*+,;=:[]<>'' then False
      else if url_unreserved c then False
      else True)"

definition hex_digit :: "nat \<Rightarrow> char" where
  "hex_digit n = (if n < 10 then char_of (48 + n) else char_of (55 + n))"

fun url_escape :: "(char \<Rightarrow> bool) \<Rightarrow> string \<Rightarrow> string" where
  "url_escape should [] = []"
| "url_escape should (c # s) =
     (if should c then CHR ''%'' # hex_digit (of_char c div 16) # hex_digit (of_char c mod 16) # url_escape should s
      else c # url_escape should s)"

definition nats_uri :: "string \<Rightarrow> string \<Rightarrow> string \<Rightarrow> string" where
  "nats_uri username password addr =
     ''nats://'' @ url_escape should_escape_user username @ '':'' @ url_escape should_escape_user password @
     ''@'' @ url_escape should_escape_host addr"

text \<open>\<open>strings.Split(s, sep)\<close> for a separator of one character.\<close>

fun split_on :: "char \<Rightarrow> string \<Rightarrow> string list" where
  "split_on sep [] = [[]]"
| "split_on sep (c # s) =
     (if c = sep then [] # split_on sep s
      else (case split_on sep s of [] \<Rightarrow> [[c]] | w # ws \<Rightarrow> (c # w) # ws))"

section \<open>The client\<close>

record nats_options =
  no_Servers :: "string list"
  no_ReconnectWait :: int64
  no_MaxReconnect :: int64
  no_PingInterval :: int64
  no_TLSConfig :: "string option"

record nats_lib =
  nl_DefaultPingInterval :: int64
  nl_GetDefaultOptions :: nats_options
  nl_Connect :: "nats_options \<Rightarrow> go_error + nat"
  nl_FlushTimeout :: "nat option \<Rightarrow> int64 \<Rightarrow> go_error option"

record natsClient =
  nc_Conn :: "nat option"
  nc_pingInterval :: int64
  nc_tlsConfig :: "string option"

definition NewClient :: "nats_lib \<Rightarrow> natsClient" where
  "NewClient L = \<lparr>nc_Conn = None, nc_pingInterval = nl_DefaultPingInterval L, nc_tlsConfig = None\<rparr>"

definition NewClientWithTLSConfig :: "nats_lib \<Rightarrow> string \<Rightarrow> natsClient" where
  "NewClientWithTLSConfig L tlsConfig =
     \<lparr>nc_Conn = None, nc_pingInterval = nl_DefaultPingInterval L, nc_tlsConfig = Some tlsConfig\<rparr>"

definition SetPingInterval :: "int64 \<Rightarrow> natsClient \<Rightarrow> natsClient" where
  "SetPingInterval interval nc = nc\<lparr>nc_pingInterval := interval\<rparr>"

definition connect_options :: "nats_lib \<Rightarrow> string list \<Rightarrow> natsClient \<Rightarrow> nats_options" where
  "connect_options L urls nc =
     (nl_GetDefaultOptions L)\<lparr>no_Servers := urls, no_ReconnectWait := 500000000, no_MaxReconnect := -1,
        no_PingInterval := nc_pingInterval nc, no_TLSConfig := nc_tlsConfig nc\<rparr>"

definition nats_Connect :: "nats_lib \<Rightarrow> string list \<Rightarrow> natsClient \<Rightarrow> natsClient \<times> go_error option" where
  "nats_Connect L urls nc =
     (case nl_Connect L (connect_options L urls nc) of
        Inl err \<Rightarrow> (nc, Some err)
      | Inr conn \<Rightarrow> (nc\<lparr>nc_Conn := Some conn\<rparr>, None))"

text \<open>The connections the client closed. Closing keeps the pointer to the connection.\<close>

definition nats_Close :: "natsClient \<Rightarrow> nat list" where
  "nats_Close nc = (case nc_Conn nc of None \<Rightarrow> [] | Some conn \<Rightarrow> [conn])"

definition nats_Ping :: "nats_lib \<Rightarrow> natsClient \<Rightarrow> bool" where
  "nats_Ping L nc = (nl_FlushTimeout L (nc_Conn nc) 500000000 = None)"

text \<open>A subscription ends itself; the client only passes the call on.\<close>

definition nats_Unsubscribe :: "('sub \<Rightarrow> go_error option) \<Rightarrow> 'sub \<Rightarrow> go_error option" where
  "nats_Unsubscribe Subscription_Unsubscribe sub = Subscription_Unsubscribe sub"

section \<open>The process\<close>

record NATSClientRunner =
  nr_addresses :: string
  nr_username :: string
  nr_password :: string

definition NewClientRunner :: "string \<Rightarrow> string \<Rightarrow> string \<Rightarrow> NATSClientRunner" where
  "NewClientRunner addresses username password =
     \<lparr>nr_addresses = addresses, nr_username = username, nr_password = password\<rparr>"

datatype runner_input = RunnerSignal | RunnerConnClosed

datatype runner_result = RunnerReturned "go_error option" | RunnerWaiting

definition nats_members :: "NATSClientRunner \<Rightarrow> string list" where
  "nats_members runner =
     map (nats_uri (nr_username runner) (nr_password runner)) (split_on (CHR '','') (nr_addresses runner))"

text \<open>
  The result, the client, whether \<open>ready\<close> was closed, and the connections closed. The input is the branch
  of the final \<open>select\<close> that fired, if one did.
\<close>

definition runner_Run :: "nats_lib \<Rightarrow> NATSClientRunner \<Rightarrow> runner_input option \<Rightarrow> natsClient \<Rightarrow>
    runner_result \<times> natsClient \<times> bool \<times> nat list" where
  "runner_Run L runner input nc =
     (case nats_Connect L (nats_members runner) nc of
        (nc, Some err) \<Rightarrow> (RunnerReturned (Some err), nc, False, [])
      | (nc, None) \<Rightarrow>
          (case input of
             None \<Rightarrow> (RunnerWaiting, nc, True, [])
           | Some RunnerSignal \<Rightarrow> (RunnerReturned None, nc, True, nats_Close nc)
           | Some RunnerConnClosed \<Rightarrow> (RunnerReturned (Some ''nats closed unexpectedly''), nc, True, [])))"

section \<open>Reading a URL back\<close>

definition hex_value :: "char \<Rightarrow> nat" where
  "hex_value c = (if of_char c < (58::nat) then of_char c - 48 else of_char c - 55)"

fun url_unescape :: "string \<Rightarrow> string" where
  "url_unescape (c # a # b # s) =
     (if c = CHR ''%'' then char_of (16 * hex_value a + hex_value b) # url_unescape s
      else c # url_unescape (a # b # s))"
| "url_unescape s = s"

lemma char_div_16: "of_char c div 16 < (16::nat)"
proof -
  have "of_char c < (256::nat)" using range_nat_of_char by (metis atLeastLessThan_iff rangeI)
  then show ?thesis by (simp add: less_mult_imp_div_less)
qed

lemma hex_value_digit: "n < 16 \<Longrightarrow> hex_value (hex_digit n) = n"
  by (auto simp: hex_value_def hex_digit_def)

lemma url_unescape_plain:
  "c \<noteq> CHR ''%'' \<Longrightarrow> url_unescape (c # s) = c # url_unescape s"
  by (cases s rule: url_unescape.cases) auto

lemma url_unescape_escape:
  assumes "should (CHR ''%'')"
  shows "url_unescape (url_escape should s) = s"
proof (induction s)
  case (Cons c s)
  have "of_char c div 16 < (16::nat)" using char_div_16 by simp
  then have "16 * hex_value (hex_digit (of_char c div 16)) + hex_value (hex_digit (of_char c mod 16)) = (of_char c :: nat)"
    by (simp add: hex_value_digit)
  moreover have "c \<noteq> CHR ''%''" if "\<not> should c" using assms that by auto
  ultimately show ?case using Cons by (cases "should c") (auto simp: url_unescape_plain)
qed simp

lemma url_escape_inject:
  "should (CHR ''%'') \<Longrightarrow> url_escape should s = url_escape should s' \<longleftrightarrow> s = s'"
  by (metis url_unescape_escape)

lemma hex_digit_plain: "n < 16 \<Longrightarrow> hex_digit n \<in> set ''0123456789ABCDEF''"
proof -
  assume "n < 16"
  then have "n \<in> set [0..<16]" by simp
  moreover have "list_all (\<lambda>n. hex_digit n \<in> set ''0123456789ABCDEF'') [0..<16]" by code_simp
  ultimately show ?thesis by (simp add: list_all_iff)
qed

lemma url_escape_avoids:
  assumes "x \<in> set (url_escape should s)" "should x" "\<And>n. n < 16 \<Longrightarrow> hex_digit n \<noteq> x"
  shows "x = CHR ''%''"
  using assms
proof (induction s)
  case (Cons c s)
  have "x \<noteq> hex_digit (of_char c div 16)" "x \<noteq> hex_digit (of_char c mod 16)"
    using Cons.prems(3) char_div_16 by (metis, metis mod_less_divisor zero_less_numeral)
  with Cons show ?case by (auto split: if_splits)
qed simp

lemma user_escape_plain:
  "CHR '':'' \<notin> set (url_escape should_escape_user s)" "CHR ''@'' \<notin> set (url_escape should_escape_user s)"
proof -
  have "should_escape_user (CHR '':'')" "should_escape_user (CHR ''@'')" by code_simp+
  then show "CHR '':'' \<notin> set (url_escape should_escape_user s)" "CHR ''@'' \<notin> set (url_escape should_escape_user s)"
    using url_escape_avoids [of _ should_escape_user s] hex_digit_plain by fastforce+
qed

lemma append_sep_inject:
  "x \<notin> set a \<Longrightarrow> x \<notin> set a' \<Longrightarrow> a @ x # b = a' @ x # b' \<longleftrightarrow> a = a' \<and> b = b'"
proof (induction a arbitrary: a')
  case Nil
  then show ?case by (cases a') auto
next
  case (Cons y a)
  then show ?case by (cases a') auto
qed

fun join_with :: "char \<Rightarrow> string list \<Rightarrow> string" where
  "join_with sep [] = []"
| "join_with sep [w] = w"
| "join_with sep (w # ws) = w @ sep # join_with sep ws"

lemma split_on_nonempty [simp]: "split_on sep s \<noteq> []"
  by (cases s) (auto split: list.splits)

lemma join_split: "join_with sep (split_on sep s) = s"
proof (induction s)
  case (Cons c s)
  obtain w ws where s: "split_on sep s = w # ws" by (cases "split_on sep s") auto
  with Cons show ?case by (cases ws) auto
qed simp

lemma split_on_parts: "w \<in> set (split_on sep s) \<Longrightarrow> sep \<notin> set w"
  by (induction s arbitrary: w) (auto split: list.splits if_splits)

section \<open>Properties\<close>

text \<open>
  The URL of a server tells the user name, the password and the address apart whatever characters
  they contain.
\<close>

theorem nats_uri_inject:
  "nats_uri username password addr = nats_uri username' password' addr' \<longleftrightarrow>
     username = username' \<and> password = password' \<and> addr = addr'"
proof -
  have esc: "should_escape_user (CHR ''%'')" "should_escape_host (CHR ''%'')" by code_simp+
  show ?thesis
    by (simp add: nats_uri_def append_sep_inject user_escape_plain url_escape_inject [of should_escape_user, OF esc(1)]
        url_escape_inject [of should_escape_host, OF esc(2)])
qed


end
