(* ===== verification/Main_Program.thy ===== *)
theory Main_Program
  imports Watcher NATS_Client Scheduler
begin

text \<open>
  \<open>cmd/route-emitter/main.go\<close> and \<open>cmd/route-emitter/config/config.go\<close>: reading the configuration,
  building the components and the ordered group of processes. The constructors of other packages
  (BBS, locket, UAA, metrics, work pool, TLS) and the parsing of files and URLs are the parameter
  \<open>main_env\<close>; a constructor is the error it returns. \<open>logger.Fatal\<close> panics and \<open>os.Exit\<close> ends the
  process, so both stop \<open>main\<close>. Durations are nanoseconds.
\<close>

section \<open>Configuration\<close>

record RoutingAPIConfig =
  rac_URL :: string
  rac_Port :: uint16
  rac_CACertFile :: string
  rac_ClientCertFile :: string
  rac_ClientKeyFile :: string
  rac_AuthEnabled :: bool

record OAuthConfig =
  oac_UaaURL :: string
  oac_UaaRequestTimeout :: int64
  oac_ClientName :: string
  oac_ClientSecret :: string
  oac_CACerts :: string
  oac_SkipCertVerify :: bool

text \<open>
  Durations are in nanoseconds; the jitter factor is the bit pattern of the floating point number. The
  configurations of other packages are opaque, except for the debug server's address.
\<close>

record RouteEmitterConfig =
  cfg_BBSAddress :: string
  cfg_BBSCACertFile :: string
  cfg_BBSClientCertFile :: string
  cfg_BBSClientKeyFile :: string
  cfg_BBSClientSessionCacheSize :: int64
  cfg_BBSMaxIdleConnsPerHost :: int64
  cfg_CellID :: string
  cfg_UUID :: string
  cfg_RegisterDirectInstanceRoutes :: bool
  cfg_CommunicationTimeout :: int64
  cfg_HealthCheckAddress :: string
  cfg_JitterFactor :: "64 word"
  cfg_LockRetryInterval :: int64
  cfg_LockTTL :: int64
  cfg_NATSAddresses :: string
  cfg_NATSUsername :: string
  cfg_NATSPassword :: string
  cfg_NATSTLSEnabled :: bool
  cfg_NATSCACertFile :: string
  cfg_NATSClientCertFile :: string
  cfg_NATSClientKeyFile :: string
  cfg_RouteEmittingWorkers :: int64
  cfg_SyncInterval :: int64
  cfg_TCPRouteTTL :: int64
  cfg_TCPEnableTLS :: bool
  cfg_OAuth :: OAuthConfig
  cfg_RoutingAPI :: RoutingAPIConfig
  cfg_EnableTCPEmitter :: bool
  cfg_LoggregatorConfig :: string
  cfg_ReportInterval :: int64
  cfg_UnregistrationInterval :: int64
  cfg_UnregistrationSendCount :: int64
  cfg_EnableInternalEmitter :: bool
  cfg_LocketSessionName :: string
  cfg_LagerConfig :: string
  cfg_DebugAddress :: string
  cfg_ClientLocketConfig :: string

section \<open>What other packages provide\<close>

record uaa_config =
  uaa_Port :: uint16
  uaa_SkipSSLValidation :: bool
  uaa_ClientName :: string
  uaa_ClientSecret :: string
  uaa_CACerts :: string
  uaa_TokenEndpoint :: string
  uaa_RequestTimeout :: int64

record main_env =
  me_Open :: "string \<Rightarrow> go_error + string"
  me_Decode :: "string \<Rightarrow> go_error + RouteEmitterConfig"
  me_nats :: nats_lib
  me_tlsClient :: "string \<Rightarrow> string \<Rightarrow> string \<Rightarrow> go_error + string"
  me_NewIngressClient :: "go_error option"
  me_NewBBSClient :: "RouteEmitterConfig \<Rightarrow> go_error option"
  me_NewWorkPool :: "int64 \<Rightarrow> go_error option"
  me_urlHost :: "string \<Rightarrow> go_error + string"
  me_SplitHostPort :: "string \<Rightarrow> go_error + string \<times> string"
  me_NewTokenFetcher :: "bool \<Rightarrow> uaa_config \<Rightarrow> go_error option"
  me_FetchKey :: "go_error option"
  me_NewLocketClient :: "go_error option"

datatype main_failure = Fatal string go_error | ExitWithError string go_error

fun bind_result :: "'e + 'a \<Rightarrow> ('a \<Rightarrow> 'e + 'b) \<Rightarrow> 'e + 'b" where
  "bind_result (Inl e) k = Inl e"
| "bind_result (Inr x) k = k x"

definition or_fatal :: "string \<Rightarrow> go_error + 'a \<Rightarrow> main_failure + 'a" where
  "or_fatal what r = (case r of Inl err \<Rightarrow> Inl (Fatal what err) | Inr x \<Rightarrow> Inr x)"

definition or_exit :: "string \<Rightarrow> go_error + 'a \<Rightarrow> main_failure + 'a" where
  "or_exit what r = (case r of Inl err \<Rightarrow> Inl (ExitWithError what err) | Inr x \<Rightarrow> Inr x)"

definition error_or_unit :: "go_error option \<Rightarrow> go_error + unit" where
  "error_or_unit e = (case e of Some err \<Rightarrow> Inl err | None \<Rightarrow> Inr ())"

section \<open>The constructors of the main program\<close>

definition NewRouteEmitterConfig :: "main_env \<Rightarrow> string \<Rightarrow> go_error + RouteEmitterConfig" where
  "NewRouteEmitterConfig M configPath = bind_result (me_Open M configPath) (me_Decode M)"

text \<open>The ping interval of twenty seconds is set whatever the configuration.\<close>

definition initializeNATSClient :: "main_env \<Rightarrow> bool \<Rightarrow> string \<Rightarrow> string \<Rightarrow> string \<Rightarrow> go_error + natsClient" where
  "initializeNATSClient M tlsEnabled caFile certFile keyFile =
     bind_result
       (if tlsEnabled
        then bind_result (me_tlsClient M certFile keyFile caFile) (\<lambda>tls. Inr (NewClientWithTLSConfig (me_nats M) tls))
        else Inr (NewClient (me_nats M)))
       (\<lambda>natsClient. Inr (SetPingInterval (20 * second_ns) natsClient))"

text \<open>\<open>strconv.ParseUint(port, 10, 16)\<close>.\<close>

fun parse_uint16_from :: "nat \<Rightarrow> string \<Rightarrow> go_error + uint16" where
  "parse_uint16_from n [] = Inr (of_nat n)"
| "parse_uint16_from n (c # s) =
     (if of_char c \<ge> (48::nat) \<and> of_char c \<le> (57::nat) then
        (let n1 = n * 10 + (of_char c - 48) in
         if n1 > 65535 then Inl ''value out of range'' else parse_uint16_from n1 s)
      else Inl ''invalid syntax'')"

definition ParseUint16 :: "string \<Rightarrow> go_error + uint16" where
  "ParseUint16 s = (if s = '''' then Inl ''invalid syntax'' else parse_uint16_from 0 s)"

definition no_uaa_config :: uaa_config where
  "no_uaa_config = \<lparr>uaa_Port = 0, uaa_SkipSSLValidation = False, uaa_ClientName = '''', uaa_ClientSecret = '''',
     uaa_CACerts = '''', uaa_TokenEndpoint = '''', uaa_RequestTimeout = 0\<rparr>"

definition newUaaTokenFetcher :: "main_env \<Rightarrow> RouteEmitterConfig \<Rightarrow> main_failure + uaa_config" where
  "newUaaTokenFetcher M c =
     bind_result
       (if rac_AuthEnabled (cfg_RoutingAPI c) then
          bind_result (or_fatal ''failed-parsing-uaa-url'' (me_urlHost M (oac_UaaURL (cfg_OAuth c)))) (\<lambda>uHost.
          bind_result (or_fatal ''failed-parsing-uaa-host'' (me_SplitHostPort M uHost)) (\<lambda>(host, port).
          bind_result (or_fatal ''failed-parsing-uaa-port'' (ParseUint16 port)) (\<lambda>portI.
          Inr \<lparr>uaa_Port = portI, uaa_SkipSSLValidation = oac_SkipCertVerify (cfg_OAuth c),
               uaa_ClientName = oac_ClientName (cfg_OAuth c), uaa_ClientSecret = oac_ClientSecret (cfg_OAuth c),
               uaa_CACerts = oac_CACerts (cfg_OAuth c), uaa_TokenEndpoint = host,
               uaa_RequestTimeout = oac_UaaRequestTimeout (cfg_OAuth c)\<rparr>)))
        else Inr no_uaa_config)
       (\<lambda>cfg.
          bind_result (or_fatal ''failed-initializing-uaa-token-fetcher''
            (error_or_unit (me_NewTokenFetcher M (\<not> rac_AuthEnabled (cfg_RoutingAPI c)) cfg))) (\<lambda>_.
          bind_result (or_fatal ''failed-fetching-uaa-key'' (error_or_unit (me_FetchKey M))) (\<lambda>_.
          Inr cfg)))"

definition initializeMetron :: "main_env \<Rightarrow> go_error + unit" where
  "initializeMetron M = error_or_unit (me_NewIngressClient M)"

definition initializeNatsEmitter :: "main_env \<Rightarrow> int64 \<Rightarrow> bool \<Rightarrow> main_failure + natsEmitter" where
  "initializeNatsEmitter M routeEmittingWorkers emitInternalRoutes =
     bind_result (or_fatal ''failed-to-construct-nats-emitter-workpool''
       (error_or_unit (me_NewWorkPool M routeEmittingWorkers))) (\<lambda>_. Inr (NewNATSEmitter emitInternalRoutes))"

definition initializeBBSClient :: "main_env \<Rightarrow> RouteEmitterConfig \<Rightarrow> main_failure + unit" where
  "initializeBBSClient M cfg =
     or_fatal ''Failed to configure secure BBS client'' (error_or_unit (me_NewBBSClient M cfg))"

text \<open>
  The routing API emitter: its address, its TLS configuration and the TTL in seconds. \<open>Seconds\<close> is exact
  here for every TTL that passed the check of \<open>main\<close> and is not negative.
\<close>

record routing_api_emitter =
  rae_address :: string
  rae_tls :: "string option"
  rae_uaa :: uaa_config
  rae_ttl :: int

definition ttl_seconds :: "int64 \<Rightarrow> int" where
  "ttl_seconds d = (if sint d < 0 then - ((- sint d) div sint second_ns) else sint d div sint second_ns)"

definition ttl_too_large :: "int64 \<Rightarrow> bool" where
  "ttl_too_large d = (sint d > 65535 * sint second_ns)"

definition new_routing_api_emitter :: "main_env \<Rightarrow> RouteEmitterConfig \<Rightarrow> main_failure + routing_api_emitter option" where
  "new_routing_api_emitter M cfg =
     (let api = cfg_RoutingAPI cfg in
      if cfg_EnableTCPEmitter cfg then
        bind_result (newUaaTokenFetcher M cfg) (\<lambda>uaa.
        bind_result
          (if rac_ClientCertFile api \<noteq> '''' \<and> rac_ClientKeyFile api \<noteq> '''' \<and> rac_CACertFile api \<noteq> ''''
           then bind_result (or_fatal ''failed-to-create-routing-api-tls-config''
                  (me_tlsClient M (rac_ClientCertFile api) (rac_ClientKeyFile api) (rac_CACertFile api)))
                  (\<lambda>tls. Inr (Some tls))
           else Inr None) (\<lambda>tls.
        Inr (Some \<lparr>rae_address = rac_URL api @ '':'' @ itoa (uint (rac_Port api)), rae_tls = tls, rae_uaa = uaa,
          rae_ttl = ttl_seconds (cfg_TCPRouteTTL cfg)\<rparr>)))
      else Inr None)"

section \<open>The main program\<close>

record process =
  pr_members :: "string list"
  pr_natsClient :: natsClient
  pr_natsRunner :: NATSClientRunner
  pr_natsEmitter :: natsEmitter
  pr_routingAPIEmitter :: "routing_api_emitter option"
  pr_handler :: Handler
  pr_watcher :: Watcher
  pr_syncer :: NatsSyncer
  pr_externalScheduler :: RouteBroadcastScheduler
  pr_internalScheduler :: RouteBroadcastScheduler
  pr_sender :: Sender
  pr_lock :: "(string \<times> string) option"

definition routeEmitterLockKey :: string where
  "routeEmitterLockKey = ''route_emitter''"

text \<open>Which runner takes the locks; \<open>main\<close> passes a single one.\<close>

definition lockRunner :: "string list \<Rightarrow> main_failure + string list" where
  "lockRunner locks =
     (if length locks = 0 then Inl (Fatal ''no-locks-configured'' ''Lock configuration must be provided'')
      else if length locks = 1 then Inr [locks ! 0]
      else Inr locks)"

text \<open>The lock with its owner, which only a global emitter takes.\<close>

definition main_lock :: "main_env \<Rightarrow> RouteEmitterConfig \<Rightarrow> main_failure + (string \<times> string) option" where
  "main_lock M cfg =
     (if cfg_CellID cfg = '''' then
        bind_result (or_fatal ''failed-to-create-locket-client'' (error_or_unit (me_NewLocketClient M))) (\<lambda>_.
        if cfg_UUID cfg = '''' then Inl (Fatal ''invalid-uuid'' ''invalid-uuid-from-config'')
        else bind_result (lockRunner [''sql-lock'']) (\<lambda>_. Inr (Some (routeEmitterLockKey, cfg_UUID cfg))))
      else Inr None)"

definition main_members :: "RouteEmitterConfig \<Rightarrow> string list" where
  "main_members cfg =
     (let members = [''nats-client'', ''healthcheck'', ''unregistration''];
          members = (if cfg_CellID cfg = '''' then members @ [''lock''] else members);
          members = members @ [''watcher'', ''external-scheduler'', ''syncer''];
          members = (if cfg_EnableInternalEmitter cfg then members @ [''internal-scheduler''] else members) in
      if cfg_DebugAddress cfg \<noteq> '''' then [''debug-server''] @ members else members)"

definition main :: "bbs_env \<Rightarrow> main_env \<Rightarrow> string \<Rightarrow> main_failure + process" where
  "main E M configFilePath =
     bind_result (or_fatal ''failed-to-parse-config'' (NewRouteEmitterConfig M configFilePath)) (\<lambda>cfg.
     bind_result (or_exit ''failed-to-initialize-nats-client''
       (initializeNATSClient M (cfg_NATSTLSEnabled cfg) (cfg_NATSCACertFile cfg) (cfg_NATSClientCertFile cfg)
          (cfg_NATSClientKeyFile cfg))) (\<lambda>natsClient.
     let syncer = NewSyncer (cfg_SyncInterval cfg);
         externalScheduler = NewRouteBroadcastScheduler ''router'' ''externalChan'';
         internalScheduler = NewRouteBroadcastScheduler ''service-discovery'' ''internalChan'' in
     bind_result (or_exit ''failed-to-initialize-metron-client'' (initializeMetron M)) (\<lambda>_.
     bind_result (initializeBBSClient M cfg) (\<lambda>_.
     let localMode = (cfg_CellID cfg \<noteq> '''');
         table = NewRoutingTable E (cfg_RegisterDirectInstanceRoutes cfg) (cfg_TCPEnableTLS cfg) in
     bind_result (initializeNatsEmitter M (cfg_RouteEmittingWorkers cfg) (cfg_EnableInternalEmitter cfg)) (\<lambda>natsEmitter.
     if ttl_too_large (cfg_TCPRouteTTL cfg) then Inl (Fatal ''invalid-route-ttl'' ''route TTL value too large'')
     else
     bind_result (new_routing_api_emitter M cfg) (\<lambda>routingAPIEmitter.
     bind_result (main_lock M cfg) (\<lambda>lock.
     Inr \<lparr>pr_members = main_members cfg, pr_natsClient = natsClient,
          pr_natsRunner = NewClientRunner (cfg_NATSAddresses cfg) (cfg_NATSUsername cfg) (cfg_NATSPassword cfg),
          pr_natsEmitter = natsEmitter,
          pr_routingAPIEmitter = routingAPIEmitter,
          pr_handler = NewHandler table True (routingAPIEmitter \<noteq> None) localMode (cfg_TCPEnableTLS cfg) NewCache,
          pr_watcher = NewWatcher (cfg_CellID cfg) (SyncCh syncer) (EmitCh externalScheduler) (EmitCh internalScheduler),
          pr_syncer = syncer, pr_externalScheduler = externalScheduler, pr_internalScheduler = internalScheduler,
          pr_sender = NewSender (cfg_UnregistrationInterval cfg) (cfg_UnregistrationSendCount cfg),
          pr_lock = lock\<rparr>)))))))"

text \<open>
  Once the group runs, \<open>main\<close> waits for it to end. An error of the group is logged and no more: \<open>main\<close> returns, so the
  process has the same exit status as after a regular end.
\<close>

datatype main_log = LogInfo string | LogError string go_error

definition main_wait :: "go_error option \<Rightarrow> main_log list" where
  "main_wait err =
     [LogInfo ''started'',
      (case err of Some e \<Rightarrow> LogError ''finished-with-failure'' e | None \<Rightarrow> LogInfo ''finished''),
      LogInfo ''exited'']"

section \<open>Properties\<close>

lemma bind_result_Inr:
  "bind_result r k = Inr y \<longleftrightarrow> (\<exists>x. r = Inr x \<and> k x = Inr y)"
  by (cases r) auto

lemma or_fail_Inr [simp]:
  "or_fatal what r = Inr x \<longleftrightarrow> r = Inr x" "or_exit what r = Inr x \<longleftrightarrow> r = Inr x"
  "error_or_unit e = Inr u \<longleftrightarrow> e = None"
  by (auto simp: or_fatal_def or_exit_def error_or_unit_def split: sum.splits option.splits)

text \<open>One process is in the ordered group before another.\<close>

fun starts_before :: "string \<Rightarrow> string \<Rightarrow> string list \<Rightarrow> bool" where
  "starts_before x y [] = False"
| "starts_before x y (z # zs) = (if z = x then y \<in> set zs else starts_before x y zs)"

lemma main_members_order:
  "distinct (main_members cfg)"
  "x \<in> {''unregistration'', ''watcher'', ''external-scheduler'', ''syncer''} \<Longrightarrow> starts_before ''nats-client'' x (main_members cfg)"
  "x \<in> {''watcher'', ''external-scheduler'', ''syncer''} \<Longrightarrow> cfg_CellID cfg = '''' \<Longrightarrow> starts_before ''lock'' x (main_members cfg)"
  "cfg_CellID cfg \<noteq> '''' \<Longrightarrow> ''lock'' \<notin> set (main_members cfg)"
  "''internal-scheduler'' \<in> set (main_members cfg) \<longleftrightarrow> cfg_EnableInternalEmitter cfg"
  by (auto simp: main_members_def Let_def)

lemma second_ns_sint [simp]: "sint second_ns = 1000000000"
  by (simp add: second_ns_def)

lemma ttl_seconds_bound: "\<not> ttl_too_large d \<Longrightarrow> ttl_seconds d \<le> 65535"
  by (auto simp: ttl_too_large_def ttl_seconds_def intro: order_trans [of _ 0])

lemma main_started:
  assumes "main E M path = Inr p"
  obtains cfg where "NewRouteEmitterConfig M path = Inr cfg" "pr_members p = main_members cfg"
    "\<not> ttl_too_large (cfg_TCPRouteTTL cfg)" "new_routing_api_emitter M cfg = Inr (pr_routingAPIEmitter p)"
    "main_lock M cfg = Inr (pr_lock p)"
    "pr_handler p = NewHandler (NewRoutingTable E (cfg_RegisterDirectInstanceRoutes cfg) (cfg_TCPEnableTLS cfg)) True
       (pr_routingAPIEmitter p \<noteq> None) (cfg_CellID cfg \<noteq> '''') (cfg_TCPEnableTLS cfg) NewCache"
    "ne_emitInternalRoutes (pr_natsEmitter p) = cfg_EnableInternalEmitter cfg"
    "wt_cellID (pr_watcher p) = cfg_CellID cfg" "wt_syncCh (pr_watcher p) = SyncCh (pr_syncer p)"
    "wt_emitExternalCh (pr_watcher p) = EmitCh (pr_externalScheduler p)"
    "wt_emitInternalCh (pr_watcher p) = EmitCh (pr_internalScheduler p)"
    "rb_externalServiceName (pr_externalScheduler p) = ''router''"
    "rb_externalServiceName (pr_internalScheduler p) = ''service-discovery''"
    "EmitCh (pr_externalScheduler p) \<noteq> EmitCh (pr_internalScheduler p)"
  using assms by (auto simp: main_def bind_result_Inr Let_def initializeNatsEmitter_def NewNATSEmitter_def NewWatcher_def
      NewRouteBroadcastScheduler_def EmitCh_def split: if_splits)

lemma new_routing_api_emitter_started:
  assumes "new_routing_api_emitter M cfg = Inr r"
  shows "(r \<noteq> None) = cfg_EnableTCPEmitter cfg" "r = Some e \<Longrightarrow> rae_ttl e = ttl_seconds (cfg_TCPRouteTTL cfg)"
  using assms by (auto simp: new_routing_api_emitter_def bind_result_Inr Let_def split: if_splits)

text \<open>
  C28: when \<open>main\<close> starts the processes, the connection to NATS stands before anything that publishes
  starts; a global emitter has an owner for its lock and takes the lock before it watches, while an
  emitter of a cell takes none; the watcher listens on the channels of the syncer and of the two schedulers,
  which greet the router and the service discovery; and routes are sent to the routing API exactly when it is enabled, with a
  TTL that fits in sixteen bits.
\<close>

theorem main_startup:
  assumes "main E M path = Inr p"
  shows "\<exists>cfg. NewRouteEmitterConfig M path = Inr cfg \<and> distinct (pr_members p) \<and>
    starts_before ''nats-client'' ''watcher'' (pr_members p) \<and>
    starts_before ''nats-client'' ''unregistration'' (pr_members p) \<and>
    starts_before ''external-scheduler'' ''syncer'' (pr_members p) \<and>
    (if cfg_CellID cfg = ''''
     then starts_before ''lock'' ''watcher'' (pr_members p) \<and> pr_lock p = Some (''route_emitter'', cfg_UUID cfg) \<and>
       cfg_UUID cfg \<noteq> ''''
     else ''lock'' \<notin> set (pr_members p) \<and> pr_lock p = None) \<and>
    (''internal-scheduler'' \<in> set (pr_members p)) = ne_emitInternalRoutes (pr_natsEmitter p) \<and>
    wt_cellID (pr_watcher p) = cfg_CellID cfg \<and> wt_syncCh (pr_watcher p) = SyncCh (pr_syncer p) \<and>
    wt_emitExternalCh (pr_watcher p) = EmitCh (pr_externalScheduler p) \<and>
    wt_emitInternalCh (pr_watcher p) = EmitCh (pr_internalScheduler p) \<and>
    EmitCh (pr_externalScheduler p) \<noteq> EmitCh (pr_internalScheduler p) \<and>
    rb_externalServiceName (pr_externalScheduler p) = ''router'' \<and>
    rb_externalServiceName (pr_internalScheduler p) = ''service-discovery'' \<and>
    (case pr_routingAPIEmitter p of
       None \<Rightarrow> \<not> cfg_EnableTCPEmitter cfg
     | Some e \<Rightarrow> cfg_EnableTCPEmitter cfg \<and> rae_ttl e = ttl_seconds (cfg_TCPRouteTTL cfg) \<and> rae_ttl e \<le> 65535)"
proof -
  obtain cfg where cfg: "NewRouteEmitterConfig M path = Inr cfg" "pr_members p = main_members cfg"
    "\<not> ttl_too_large (cfg_TCPRouteTTL cfg)" "new_routing_api_emitter M cfg = Inr (pr_routingAPIEmitter p)"
    "main_lock M cfg = Inr (pr_lock p)" "ne_emitInternalRoutes (pr_natsEmitter p) = cfg_EnableInternalEmitter cfg"
    and wired: "wt_cellID (pr_watcher p) = cfg_CellID cfg" "wt_syncCh (pr_watcher p) = SyncCh (pr_syncer p)"
    "wt_emitExternalCh (pr_watcher p) = EmitCh (pr_externalScheduler p)"
    "wt_emitInternalCh (pr_watcher p) = EmitCh (pr_internalScheduler p)"
    "rb_externalServiceName (pr_externalScheduler p) = ''router''"
    "rb_externalServiceName (pr_internalScheduler p) = ''service-discovery''"
    "EmitCh (pr_externalScheduler p) \<noteq> EmitCh (pr_internalScheduler p)"
    using main_started [OF assms] by metis
  have lock: "if cfg_CellID cfg = '''' then pr_lock p = Some (''route_emitter'', cfg_UUID cfg) \<and> cfg_UUID cfg \<noteq> ''''
      else pr_lock p = None"
    using cfg(5) by (auto simp: main_lock_def bind_result_Inr routeEmitterLockKey_def split: if_splits)
  have "starts_before ''external-scheduler'' ''syncer'' (main_members cfg)" by (auto simp: main_members_def Let_def)
  with cfg lock wired new_routing_api_emitter_started [OF cfg(4)] ttl_seconds_bound [OF cfg(3)] main_members_order
  show ?thesis by (intro exI [of _ cfg]) (auto split: option.split)
qed

definition example_config :: RouteEmitterConfig where
  "example_config =
     \<lparr>cfg_BBSAddress = ''bbs'', cfg_BBSCACertFile = '''', cfg_BBSClientCertFile = '''', cfg_BBSClientKeyFile = '''',
      cfg_BBSClientSessionCacheSize = 0, cfg_BBSMaxIdleConnsPerHost = 0, cfg_CellID = '''', cfg_UUID = ''owner'',
      cfg_RegisterDirectInstanceRoutes = False, cfg_CommunicationTimeout = 0, cfg_HealthCheckAddress = '''',
      cfg_JitterFactor = 0, cfg_LockRetryInterval = 0, cfg_LockTTL = 0, cfg_NATSAddresses = ''n1:4222,n2:4222'',
      cfg_NATSUsername = ''nats'', cfg_NATSPassword = ''p@ss'', cfg_NATSTLSEnabled = True, cfg_NATSCACertFile = ''ca'',
      cfg_NATSClientCertFile = ''cert'', cfg_NATSClientKeyFile = ''key'', cfg_RouteEmittingWorkers = 20,
      cfg_SyncInterval = 60 * second_ns, cfg_TCPRouteTTL = 120 * second_ns, cfg_TCPEnableTLS = False,
      cfg_OAuth = \<lparr>oac_UaaURL = ''https://uaa:8443'', oac_UaaRequestTimeout = 0, oac_ClientName = ''c'',
        oac_ClientSecret = ''s'', oac_CACerts = '''', oac_SkipCertVerify = False\<rparr>,
      cfg_RoutingAPI = \<lparr>rac_URL = ''http://api'', rac_Port = 3000, rac_CACertFile = '''', rac_ClientCertFile = '''',
        rac_ClientKeyFile = '''', rac_AuthEnabled = True\<rparr>,
      cfg_EnableTCPEmitter = True, cfg_LoggregatorConfig = '''', cfg_ReportInterval = 0,
      cfg_UnregistrationInterval = 30 * second_ns, cfg_UnregistrationSendCount = 20, cfg_EnableInternalEmitter = True,
      cfg_LocketSessionName = ''route-emitter'', cfg_LagerConfig = '''', cfg_DebugAddress = ''127.0.0.1:17009'',
      cfg_ClientLocketConfig = ''''\<rparr>"

definition example_nats_lib :: nats_lib where
  "example_nats_lib = \<lparr>nl_DefaultPingInterval = 120 * second_ns,
     nl_GetDefaultOptions = \<lparr>no_Servers = [], no_ReconnectWait = 0, no_MaxReconnect = 60, no_PingInterval = 0,
       no_TLSConfig = None\<rparr>,
     nl_Connect = (\<lambda>opts. Inr 1), nl_FlushTimeout = (\<lambda>conn t. None)\<rparr>"

definition example_main_env :: main_env where
  "example_main_env =
     \<lparr>me_Open = (\<lambda>path. if path = ''config.json'' then Inr ''{}'' else Inl ''no such file''),
      me_Decode = (\<lambda>content. Inr example_config), me_nats = example_nats_lib,
      me_tlsClient = (\<lambda>cert key ca. Inr cert), me_NewIngressClient = None, me_NewBBSClient = (\<lambda>c. None),
      me_NewWorkPool = (\<lambda>n. None), me_urlHost = (\<lambda>u. Inr ''uaa:8443''),
      me_SplitHostPort = (\<lambda>h. Inr (''uaa'', ''8443'')), me_NewTokenFetcher = (\<lambda>skip c. None), me_FetchKey = None,
      me_NewLocketClient = None\<rparr>"

lemma example_config_simps [simp]:
  "cfg_CellID example_config = ''''" "cfg_UUID example_config = ''owner''" "cfg_EnableTCPEmitter example_config"
  "cfg_TCPRouteTTL example_config = 120 * second_ns" "cfg_NATSTLSEnabled example_config"
  "rac_AuthEnabled (cfg_RoutingAPI example_config)" "rac_ClientCertFile (cfg_RoutingAPI example_config) = ''''"
  by (simp_all add: example_config_def)

lemma example_main_simps:
  "NewRouteEmitterConfig example_main_env ''config.json'' = Inr example_config"
  "\<not> ttl_too_large (120 * second_ns)" "ParseUint16 ''8443'' = Inr 8443"
  by (simp_all add: NewRouteEmitterConfig_def example_main_env_def ttl_too_large_def second_ns_def ParseUint16_def)

lemma example_main_started:
  obtains p where "main example_env example_main_env ''config.json'' = Inr p" "pr_members p = main_members example_config"
proof -
  have "\<exists>p. main example_env example_main_env ''config.json'' = Inr p \<and> pr_members p = main_members example_config"
    unfolding main_def example_main_simps
    by (simp add: or_fatal_def or_exit_def error_or_unit_def initializeNATSClient_def new_routing_api_emitter_def
        newUaaTokenFetcher_def main_lock_def lockRunner_def initializeMetron_def initializeNatsEmitter_def
        initializeBBSClient_def example_main_simps example_main_env_def Let_def)
  then show thesis using that by blast
qed

theorem main_startup_witness:
  "\<exists>p. main example_env example_main_env ''config.json'' = Inr p \<and> starts_before ''lock'' ''watcher'' (pr_members p) \<and>
     pr_lock p = Some (''route_emitter'', ''owner'')"
proof -
  obtain p where p: "main example_env example_main_env ''config.json'' = Inr p" "pr_members p = main_members example_config"
    using example_main_started by metis
  with main_startup [OF p(1)] example_main_simps(1) show ?thesis by auto
qed

section \<open>The UAA's port\<close>

lemma parse_uint16_from_Inr:
  assumes "n \<le> 65535"
  shows "parse_uint16_from n s = Inr p \<longleftrightarrow>
    list_all (\<lambda>c. of_char c \<ge> (48::nat) \<and> of_char c \<le> (57::nat)) s \<and>
    foldl (\<lambda>n c. 10 * n + char_digit c) n s \<le> 65535 \<and> p = of_nat (foldl (\<lambda>n c. 10 * n + char_digit c) n s)"
  using assms
proof (induction s arbitrary: n)
  case Nil
  then show ?case by auto
next
  case (Cons c s)
  have grow: "m \<le> foldl (\<lambda>n c. 10 * n + char_digit c) m s" for m
  proof (induction s arbitrary: m)
    case (Cons c s)
    from Cons [of "10 * m + char_digit c"] show ?case by simp
  qed simp
  show ?case
    using Cons grow [of "10 * n + char_digit c"]
    by (auto simp: Let_def char_digit_def mult.commute)
qed

end
