(* ===== verification/System.thy ===== *)
theory System
  imports Main_Program
begin

text \<open>
  The processes together: the watcher with its handler and the sender share the unregistration cache
  (\<open>main.go\<close> passes the same cache to both), and what the handler hands to the emitters goes out on NATS.
  The sender's steps interleave with the watcher's inputs; one input of the watcher is one step here.
\<close>

section \<open>The watcher and the sender\<close>

record emitter_system =
  em_watcher :: watcher_state
  em_queue :: "nat list"
  em_removing :: "RegistryMessage option"
  em_sent :: "RegistryMessage list"

datatype system_event =
    WatcherInput bbs_client watcher_input
  | SenderTick
  | SenderSend
  | SenderRemove

abbreviation system_cache :: "emitter_system \<Rightarrow> unreg_cache" where
  "system_cache s \<equiv> h_unregistrationCache (w_handler (em_watcher s))"

text \<open>The sender's part of the state, and writing it back.\<close>

definition sender_view :: "emitter_system \<Rightarrow> unreg_sys" where
  "sender_view s = \<lparr>us_cache = system_cache s, us_queue = em_queue s, us_removing = em_removing s, us_sent = em_sent s\<rparr>"

definition set_sender :: "emitter_system \<Rightarrow> unreg_sys \<Rightarrow> emitter_system" where
  "set_sender s u =
     \<lparr>em_watcher = (em_watcher s)\<lparr>w_handler := (w_handler (em_watcher s))\<lparr>h_unregistrationCache := us_cache u\<rparr>\<rparr>,
      em_queue = us_queue u, em_removing = us_removing u, em_sent = us_sent u\<rparr>"

fun system_step :: "bbs_env \<Rightarrow> hash_fn \<Rightarrow> int64 \<Rightarrow> system_event \<Rightarrow> emitter_system \<Rightarrow> emitter_system option" where
  "system_step E U n (WatcherInput C i) s =
     (if watcher_enabled i (em_watcher s)
      then map_option (\<lambda>w. s\<lparr>em_watcher := w\<rparr>) (watcher_step E U C i (em_watcher s)) else None)"
| "system_step E U n SenderTick s = map_option (set_sender s) (unreg_step U n Tick (sender_view s))"
| "system_step E U n SenderSend s = map_option (set_sender s) (unreg_step U n Send (sender_view s))"
| "system_step E U n SenderRemove s = map_option (set_sender s) (unreg_step U n FinishRemove (sender_view s))"

definition system_init :: "Handler \<Rightarrow> emitter_system" where
  "system_init h = \<lparr>em_watcher = watcher_init h, em_queue = [], em_removing = None, em_sent = []\<rparr>"

inductive system_reachable :: "bbs_env \<Rightarrow> hash_fn \<Rightarrow> int64 \<Rightarrow> Handler \<Rightarrow> emitter_system \<Rightarrow> bool" for E U n h0 where
  start: "system_reachable E U n h0 (system_init h0)"
| step: "system_reachable E U n h0 s \<Longrightarrow> system_step E U n ev s = Some s' \<Longrightarrow> system_reachable E U n h0 s'"

fun system_run :: "bbs_env \<Rightarrow> hash_fn \<Rightarrow> int64 \<Rightarrow> system_event list \<Rightarrow> emitter_system \<Rightarrow> emitter_system option" where
  "system_run E U n [] s = Some s"
| "system_run E U n (ev # evs) s =
     (case system_step E U n ev s of None \<Rightarrow> None | Some s' \<Rightarrow> system_run E U n evs s')"

lemma system_run_reachable:
  "system_reachable E U n h0 s \<Longrightarrow> system_run E U n evs s = Some s' \<Longrightarrow> system_reachable E U n h0 s'"
proof (induction evs arbitrary: s)
  case (Cons ev evs)
  then show ?case by (auto split: option.splits intro: system_reachable.step)
qed simp

section \<open>Invariants of the handler in the system\<close>

text \<open>
  What the system needs of an invariant of the handler: the watcher's calls keep it, whatever they are,
  and so does an exchange of the cache by the sender.
\<close>

locale handler_invariant =
  fixes E :: bbs_env and U :: hash_fn and I :: "Handler \<Rightarrow> bool"
  assumes call: "I h \<Longrightarrow> I (do_call E U c h)"
    and cache: "I h \<Longrightarrow> I (h\<lparr>h_unregistrationCache := c'\<rparr>)"
begin

lemma calls: "I h \<Longrightarrow> I (fold (do_call E U) cs h)"
  by (induction cs arbitrary: h) (auto intro: call)

lemma watcher_input:
  assumes "I (w_handler w)" "watcher_step E U C i w = Some w'"
  shows "I (w_handler w')"
  using watcher_step_calls [OF assms(2)] calls [OF assms(1)] by auto

lemma sender: "I (w_handler (em_watcher s)) \<Longrightarrow> I (w_handler (em_watcher (set_sender s u)))"
  by (simp add: set_sender_def cache)

lemma reachable:
  assumes "system_reachable E U n h0 s" "I h0"
  shows "I (w_handler (em_watcher s))"
  using assms
proof induction
  case start
  then show ?case by (simp add: system_init_def watcher_init_def)
next
  case (step s ev s')
  show ?case
  proof (cases ev)
    case (WatcherInput C i)
    with step show ?thesis by (auto split: if_splits intro: watcher_input)
  qed (use step in \<open>auto intro: sender\<close>)
qed

end

text \<open>The table is reached by a history of table operations, and the configuration stays.\<close>

definition table_history :: "bbs_env \<Rightarrow> routingTable \<Rightarrow> bool \<times> bool \<times> bool \<times> bool \<Rightarrow> Handler \<Rightarrow> bool" where
  "table_history E t0 cfg h = (handler_config h = cfg \<and>
     (\<exists>ops. h_routingTable h = run_ops E (h_tcpTLSEnabled h) ops t0))"

lemma table_historyE:
  assumes "table_history E t0 (nats, api, localMode, tls) h"
  obtains ops where "handler_config h = (nats, api, localMode, tls)" "h_routingTable h = run_ops E tls ops t0"
  using assms unfolding table_history_def handler_config_def by auto

interpretation table_inv: handler_invariant E U "table_history E t0 cfg" for E U t0 cfg
proof
  fix h c
  assume "table_history E t0 cfg h"
  then obtain ops where h: "handler_config h = cfg" "h_routingTable h = run_ops E (h_tcpTLSEnabled h) ops t0"
    by (auto simp: table_history_def)
  have "h_tcpTLSEnabled (do_call E U c h) = h_tcpTLSEnabled h"
    using handler_call_effect [of E U c h] by (simp add: handler_config_def)
  then have "h_routingTable (do_call E U c h) = run_ops E (h_tcpTLSEnabled (do_call E U c h)) (ops @ call_ops E c) t0"
    using handler_call_effect [of E U c h] h(2) by (simp add: run_ops_append)
  then show "table_history E t0 cfg (do_call E U c h)"
    using handler_call_effect [of E U c h] h(1) unfolding table_history_def by metis
qed (auto simp: table_history_def)

section \<open>The system refines the interleaving of sender and cache calls\<close>

text \<open>
  A change of the cache by the handler: a sequence of its \<open>Add\<close> and \<open>Remove\<close> calls, which the sender's
  model has as steps of its environment.
\<close>

definition cache_by :: "hash_fn \<Rightarrow> unreg_cache \<Rightarrow> unreg_cache \<Rightarrow> bool" where
  "cache_by U c c' = (\<exists>evs. \<forall>n s. us_cache s = c \<longrightarrow> unreg_run U n evs s = Some (s\<lparr>us_cache := c'\<rparr>))"

lemma cache_by_refl [simp]: "cache_by U c c"
  unfolding cache_by_def by (rule exI [of _ "[]"]) auto

lemma unreg_run_append:
  "unreg_run U n (xs @ ys) s = (case unreg_run U n xs s of None \<Rightarrow> None | Some s' \<Rightarrow> unreg_run U n ys s')"
  by (induction xs arbitrary: s) (auto split: option.splits)

lemma cache_by_trans [trans]:
  assumes "cache_by U a b" "cache_by U b c"
  shows "cache_by U a c"
proof -
  obtain xs ys where x: "\<And>n s. us_cache s = a \<Longrightarrow> unreg_run U n xs s = Some (s\<lparr>us_cache := b\<rparr>)"
    and y: "\<And>n s. us_cache s = b \<Longrightarrow> unreg_run U n ys s = Some (s\<lparr>us_cache := c\<rparr>)"
    using assms unfolding cache_by_def by metis
  have "unreg_run U n (xs @ ys) s = Some (s\<lparr>us_cache := c\<rparr>)" if "us_cache s = a" for n s
    using x [OF that] y [of "s\<lparr>us_cache := b\<rparr>"] by (simp add: unreg_run_append)
  then show ?thesis unfolding cache_by_def by blast
qed

lemma cache_by_calls:
  "cache_by U c (fst (cache_Add U ms c))" "cache_by U c (fst (cache_Remove U ms c))"
proof -
  have "\<forall>n s. us_cache s = c \<longrightarrow> unreg_run U n [HandlerAdd ms] s = Some (s\<lparr>us_cache := fst (cache_Add U ms c)\<rparr>)" by simp
  then show "cache_by U c (fst (cache_Add U ms c))" unfolding cache_by_def by blast
  have "\<forall>n s. us_cache s = c \<longrightarrow> unreg_run U n [HandlerRemove ms] s = Some (s\<lparr>us_cache := fst (cache_Remove U ms c)\<rparr>)"
    by simp
  then show "cache_by U c (fst (cache_Remove U ms c))" unfolding cache_by_def by blast
qed

lemma cache_by_update:
  "cache_by U c (fst (cache_Remove U regs (fst (cache_Add U unregs c))))"
  by (rule cache_by_trans [OF cache_by_calls(1) cache_by_calls(2)])

lemma cache_and_emit_cache:
  "cache_by U (h_unregistrationCache h) (h_unregistrationCache (fst (cache_and_emit U msgs m h)))"
proof -
  obtain c e where c: "cache_Add U (UnregistrationMessages msgs) (h_unregistrationCache h) = (c, e)" by (metis surj_pair)
  obtain c' e' where c': "cache_Remove U (RegistrationMessages msgs) c = (c', e')" by (metis surj_pair)
  have "h_unregistrationCache (fst (cache_and_emit U msgs m h)) = (if e = None then c' else c)"
    by (simp add: cache_and_emit_def c c' split: option.split)
  then show ?thesis
    using cache_by_calls(1) [of U "h_unregistrationCache h" "UnregistrationMessages msgs"]
      cache_by_update [of U "h_unregistrationCache h" "RegistrationMessages msgs" "UnregistrationMessages msgs"]
    by (simp add: c c')
qed

lemma HandleEvent_cache: "cache_by U (h_unregistrationCache h) (h_unregistrationCache (HandleEvent E U ev h))"
proof (cases rule: HandleEvent_cases [of E U ev h])
  case (2 h1 m msgs)
  then show ?thesis by (simp add: performs_def)
next
  case (3 r)
  then have "h_unregistrationCache (fst r) = h_unregistrationCache h" by (simp add: performs_def)
  with cache_and_emit_cache [of U "fst r" "snd (snd r)" "fst (snd r)"] show ?thesis unfolding 3(1) by simp
qed simp

lemma fold_HandleEvent_cache:
  "cache_by U (h_unregistrationCache h) (h_unregistrationCache (fold (HandleEvent E U) evs h))"
proof (induction evs arbitrary: h)
  case (Cons ev evs)
  from cache_by_trans [OF HandleEvent_cache Cons] show ?case by simp
qed simp

lemma Sync_cache:
  "cache_by U (h_unregistrationCache h) (h_unregistrationCache (Sync E U desired actuals domains cachedEvents h))"
proof -
  obtain T counters where T: "sync_table E (h_tcpTLSEnabled h) desired actuals = (T, counters)" by (metis surj_pair)
  define h1 where "h1 = (act (map IncrementCounter counters) h)\<lparr>h_natsEmitter := False, h_routingAPIEmitter := False,
    h_routingTable := T\<rparr>"
  define h2 where "h2 = fold (HandleEvent E U) (go_values cachedEvents) h1"
  obtain t m msgs where sw: "Swap (h_routingTable h) (Some (h_routingTable h2)) domains = (t, m, msgs)" by (metis surj_pair)
  have "h_unregistrationCache (Sync E U desired actuals domains cachedEvents h) =
      fst (cache_Remove U (RegistrationMessages msgs) (fst (cache_Add U (UnregistrationMessages msgs) (h_unregistrationCache h2))))"
    using sw by (simp add: Sync_def T Let_def h1_def h2_def)
  moreover have "cache_by U (h_unregistrationCache h) (h_unregistrationCache h2)"
    using fold_HandleEvent_cache [of U h1 E "go_values cachedEvents"] by (simp add: h2_def h1_def)
  ultimately show ?thesis using cache_by_trans cache_by_update by metis
qed

lemma RefreshDesired_cache: "h_unregistrationCache (RefreshDesired E lrps h) = h_unregistrationCache h"
proof -
  have "h_unregistrationCache (refresh_one E lrp g) = h_unregistrationCache g" for lrp g
    using table_calls_perform(3) [of E None "Some lrp" g]
    by (auto simp: refresh_one_def performs_def split: prod.splits)
  then show ?thesis unfolding RefreshDesired_def by (induction lrps arbitrary: h) auto
qed

lemma do_call_cache: "cache_by U (h_unregistrationCache h) (h_unregistrationCache (do_call E U c h))"
  by (cases c) (auto simp: HandleEvent_cache Sync_cache RefreshDesired_cache EmitExternal_def EmitInternal_def Let_def
      split: prod.splits)

lemma watcher_step_cache:
  assumes "watcher_step E U C i w = Some w'"
  shows "cache_by U (h_unregistrationCache (w_handler w)) (h_unregistrationCache (w_handler w'))"
proof -
  have "cache_by U (h_unregistrationCache h) (h_unregistrationCache (fold (do_call E U) cs h))" for cs h
  proof (induction cs arbitrary: h)
    case (Cons c cs)
    from cache_by_trans [OF do_call_cache Cons] show ?case by simp
  qed simp
  then show ?thesis using watcher_step_calls [OF assms] by auto
qed

lemma system_step_simulated:
  assumes "system_step E U n ev s = Some s'"
  shows "\<exists>evs. unreg_run U n evs (sender_view s) = Some (sender_view s')"
proof -
  have sender: "\<exists>evs. unreg_run U n evs (sender_view s) = Some (sender_view s')"
    if x: "map_option (set_sender s) (unreg_step U n x (sender_view s)) = Some s'" for x
  proof -
    obtain u where "unreg_step U n x (sender_view s) = Some u" "s' = set_sender s u" using x by auto
    then have "unreg_run U n [x] (sender_view s) = Some (sender_view s')"
      by (simp add: sender_view_def set_sender_def)
    then show ?thesis by blast
  qed
  show ?thesis
  proof (cases ev)
    case (WatcherInput C i)
    then obtain w where w: "watcher_step E U C i (em_watcher s) = Some w" "s' = s\<lparr>em_watcher := w\<rparr>"
      using assms by (auto split: if_splits)
    obtain evs where "\<And>n s'. us_cache s' = system_cache s \<Longrightarrow>
        unreg_run U n evs s' = Some (s'\<lparr>us_cache := h_unregistrationCache (w_handler w)\<rparr>)"
      using watcher_step_cache [OF w(1)] unfolding cache_by_def by metis
    then have "unreg_run U n evs (sender_view s) = Some (sender_view s')" using w(2) by (simp add: sender_view_def)
    then show ?thesis by blast
  next
    case SenderTick
    then show ?thesis using assms by (intro sender [of Tick]) (simp only: system_step.simps)
  next
    case SenderSend
    then show ?thesis using assms by (intro sender [of Send]) (simp only: system_step.simps)
  next
    case SenderRemove
    then show ?thesis using assms by (intro sender [of FinishRemove]) (simp only: system_step.simps)
  qed
qed

lemma system_refines_unreg:
  assumes "system_reachable E U n h0 s" "h_unregistrationCache h0 = NewCache"
  shows "unreg_reachable U n (sender_view s)"
  using assms
proof induction
  case start
  then have "sender_view (system_init h0) = unreg_init"
    by (simp add: sender_view_def system_init_def watcher_init_def unreg_init_def)
  then show ?case by (simp add: unreg_reachable.init)
next
  case (step s ev s')
  then show ?case using system_step_simulated unreg_run_reachable by blast
qed

section \<open>From the handler to the wire\<close>

text \<open>
  The handler's calls on its emitters, carried out: \<open>EmitNATS\<close> by the NATS emitter and \<open>EmitRoutingAPI\<close> by
  the routing API emitter, whose errors the handler logs only. Metrics do not reach the routers.
\<close>

record wire_env =
  we_nats :: nats_env
  we_schedule :: "nats_job list \<Rightarrow> nats_job list"
  we_emitInternalRoutes :: bool
  we_api :: api_env
  we_ttl :: int

fun deliver :: "wire_env \<Rightarrow> handler_action \<Rightarrow> nats_state \<times> api_call list \<Rightarrow> nats_state \<times> api_call list" where
  "deliver W (EmitNATS msgs) (s, calls) =
     (fst (nats_Emit (we_nats W) (we_schedule W) (we_emitInternalRoutes W) msgs s), calls)"
| "deliver W (EmitRoutingAPI mappings) (s, calls) = (s, fst (routing_api_Emit (we_api W) (we_ttl W) mappings calls))"
| "deliver W (IncrementCounter name) (s, calls) = (s, calls)"
| "deliver W (IncrementCounterWithDelta name delta) (s, calls) = (s, calls)"
| "deliver W (SendMetric name v) (s, calls) = (s, calls)"

lemma deliver_emissions: "fold (deliver W) xs w = fold (deliver W) (filter is_emission xs) w"
proof (induction xs arbitrary: w)
  case (Cons x xs)
  show ?case using Cons by (cases x; cases w) auto
qed simp

text \<open>The publications a set of messages asks for.\<close>

definition publications :: "wire_env \<Rightarrow> MessagesToEmit \<Rightarrow> (string \<times> string) multiset" where
  "publications W msgs = image_mset (\<lambda>(subject, m). (subject, fst (Marshal (we_nats W) m)))
     (mset (nats_jobs (we_emitInternalRoutes W) msgs))"

lemma nats_Emit_publications:
  assumes "\<And>jobs. mset (we_schedule W jobs) = mset jobs"
  shows "mset (ns_published (fst (nats_Emit (we_nats W) (we_schedule W) (we_emitInternalRoutes W) msgs s))) =
    mset (ns_published s) + publications W msgs"
proof -
  let ?js = "we_schedule W (nats_jobs (we_emitInternalRoutes W) msgs)"
  have "ns_published (fst (nats_Emit (we_nats W) (we_schedule W) (we_emitInternalRoutes W) msgs s)) =
      fst (fold (emit_job (we_nats W)) ?js (ns_published s, None))"
    by (simp add: nats_Emit_def Let_def split: prod.splits option.splits)
  then show ?thesis by (simp add: emit_jobs_published publications_def assms)
qed

end
