(* ===== verification/Router_View.thy ===== *)
theory Router_View
  imports Table_Addresses Emitter
begin

text \<open>
  What the routers know. The route emitter only speaks to them in differences: a call of the routing table
  returns the pairs that are new and the pairs that are gone, the periodic emission repeats all pairs. Here an
  observer reads these messages, in any order within one emission, and keeps the set of what is announced.
  How a router identifies a route is not part of the repository, so it is a parameter: the locale
  \<open>router_identity\<close> asks only that registration and unregistration of the same pair name the same
  route. The lemmas show that the observer never keeps a route the table does not have, that one periodic
  emission brings it back to exactly the table whatever it has forgotten, and that a call keeps it exact as
  long as no two pairs share an identity.
\<close>

section \<open>The observer\<close>

fun is_registration :: "emitted \<Rightarrow> bool" where
  "is_registration (Register _) = True"
| "is_registration (InternalRegister _) = True"
| "is_registration (UpsertTcp _) = True"
| "is_registration _ = False"

definition observe_item :: "(emitted \<Rightarrow> 'k) \<Rightarrow> emitted \<Rightarrow> 'k set \<Rightarrow> 'k set" where
  "observe_item ident x R = (if is_registration x then insert (ident x) R else R - {ident x})"

definition observe :: "(emitted \<Rightarrow> 'k) \<Rightarrow> emitted list \<Rightarrow> 'k set \<Rightarrow> 'k set" where
  "observe ident xs R = fold (observe_item ident) xs R"

lemma observe_simps [simp]:
  "observe ident [] R = R"
  "observe ident (x # xs) R = observe ident xs (observe_item ident x R)"
  by (simp_all add: observe_def)

lemma observe_append: "observe ident (xs @ ys) R = observe ident ys (observe ident xs R)"
  by (simp add: observe_def)

lemma observe_origin:
  assumes "k \<in> observe ident xs R"
  shows "(\<exists>x \<in> set xs. is_registration x \<and> ident x = k) \<or>
    k \<in> R \<and> (\<forall>x \<in> set xs. \<not> is_registration x \<longrightarrow> ident x \<noteq> k)"
  using assms by (induction xs arbitrary: R) (fastforce simp: observe_item_def split: if_splits)+

lemma observe_kept:
  assumes "\<forall>x \<in> set xs. \<not> is_registration x \<longrightarrow> ident x \<noteq> k"
    and "k \<in> R \<or> (\<exists>x \<in> set xs. is_registration x \<and> ident x = k)"
  shows "k \<in> observe ident xs R"
  using assms by (induction xs arbitrary: R) (auto simp: observe_item_def)

lemma is_registration_items [simp]:
  "is_registration (reg_item d r e f)" "\<not> is_registration (unreg_item d r e)"
  by (cases r; simp)+

section \<open>The pairs of the table\<close>

datatype table_kind = HTTPKind | TCPKind | InternalKind

fun part :: "table_kind \<Rightarrow> routingTable \<Rightarrow> internalRoutingTable" where
  "part HTTPKind t = httpRoutesRoutingTable t"
| "part TCPKind t = tcpRoutesRoutingTable t"
| "part InternalKind t = internalRoutesRoutingTable t"

text \<open>A pair as it stands in the table: in which of the three tables, under which key.\<close>

definition pairs :: "routingTable \<Rightarrow> (table_kind \<times> RoutingKey \<times> route_hash \<times> Endpoint) set" where
  "pairs t = {(kd, q, p). p \<in> entry_view (entry_at (part kd t) q)}"

lemma mem_pairs: "(kd, q, p) \<in> pairs t \<longleftrightarrow> p \<in> entry_view (entry_at (part kd t) q)"
  by (simp add: pairs_def)

definition same_config :: "routingTable \<Rightarrow> routingTable \<Rightarrow> bool" where
  "same_config t t' = (\<forall>kd. config (part kd t') = config (part kd t))"

lemma same_configI:
  assumes "table_ok (config (httpRoutesRoutingTable t)) h" "table_ok (config (tcpRoutesRoutingTable t)) tc"
    "table_ok (config (internalRoutesRoutingTable t)) i"
  shows "same_config t \<lparr>tcpRoutesRoutingTable = tc, httpRoutesRoutingTable = h, internalRoutesRoutingTable = i\<rparr>"
  unfolding same_config_def
proof
  fix kd
  show "config (part kd \<lparr>tcpRoutesRoutingTable = tc, httpRoutesRoutingTable = h, internalRoutesRoutingTable = i\<rparr>)
      = config (part kd t)"
    using assms by (cases kd) (simp_all add: table_ok_def)
qed

lemma SetRoutes_config: "wf_routing_table E tls t \<Longrightarrow> same_config t (fst (SetRoutes E t before after))"
  by (auto simp: SetRoutes_def Let_def split: prod.splits
      intro!: same_configI Internal_SetRoutes_loop(1) dest: wf_routing_table_tables intro: wf_routing_table_routes)

lemma Swap_config:
  "wf_routing_table E tls t \<Longrightarrow> wf_routing_table E tls u \<Longrightarrow> same_config t (fst (Swap t (Some u) domains))"
  using wf_routing_table_tables [of E tls t] wf_routing_table_tables [of E tls u]
  by (auto simp: Swap_def Let_def split: prod.splits intro!: same_configI elim!: Internal_Swap_ok)

lemma apply_op_config:
  assumes "wf_routing_table E tls t"
  shows "same_config t (fst (apply_op E tls x t))"
proof (cases x)
  case (OpAddEndpoint a)
  with assms show ?thesis
    by (auto simp: AddEndpoint_def Let_def split: prod.splits
        intro!: same_configI Internal_AddEndpoint_ok dest: wf_routing_table_tables)
next
  case (OpRemoveEndpoint a)
  with assms show ?thesis
    by (auto simp: RemoveEndpoint_def Let_def split: prod.splits
        intro!: same_configI Internal_RemoveEndpoint_ok dest: wf_routing_table_tables)
next
  case (OpSwap ops domains)
  with assms show ?thesis by (simp add: Swap_config apply_op_run_ops_wf(2) [OF wf_NewRoutingTable])
qed (use assms in \<open>simp_all add: SetRoutes_config RemoveRoutes_SetRoutes, simp add: Swap_def same_config_def\<close>)

lemma same_config_direct: "same_config t t' \<Longrightarrow> it_directInstanceRoute (part kd t') = it_directInstanceRoute (part kd t)"
  unfolding same_config_def by (metis config_fields(4))

section \<open>Emissions as differences of pairs\<close>

text \<open>
  The exactness of an emission in terms of pairs: a registration is about a pair only the new table has, an
  unregistration about a pair only the old one had, every new pair is registered and every lost one
  unregistered.
\<close>

definition about :: "routingTable \<Rightarrow> (bool \<Rightarrow> routeMapping \<Rightarrow> Endpoint \<Rightarrow> emitted) \<Rightarrow> emitted \<Rightarrow>
    table_kind \<times> RoutingKey \<times> route_hash \<times> Endpoint \<Rightarrow> bool" where
  "about t item x = (\<lambda>(kd, q, p). \<exists>r e. (Hash r, endpoint_sig e) = p \<and> x = item (it_directInstanceRoute (part kd t)) r e)"

definition registers :: "routingTable \<Rightarrow> emitted \<Rightarrow> table_kind \<times> RoutingKey \<times> route_hash \<times> Endpoint \<Rightarrow> bool" where
  "registers t x p = (\<exists>f. about t (\<lambda>d r e. reg_item d r e f) x p)"

definition unregisters :: "routingTable \<Rightarrow> emitted \<Rightarrow> table_kind \<times> RoutingKey \<times> route_hash \<times> Endpoint \<Rightarrow> bool" where
  "unregisters t x p = about t unreg_item x p"

lemma table_exact_items:
  assumes "table_emission_exact d u u' X" "x \<in> X"
  shows "\<exists>q r e. (\<exists>f. x = reg_item d r e f) \<and>
      (Hash r, endpoint_sig e) \<in> entry_view (entry_at u' q) - entry_view (entry_at u q) \<or>
    x = unreg_item d r e \<and> (Hash r, endpoint_sig e) \<in> entry_view (entry_at u q) - entry_view (entry_at u' q)"
proof -
  from assms obtain F q where "x \<in> F q" "entry_emission_exact d (entry_at u q) (entry_at u' q) (F q)"
    unfolding table_emission_exact_def by blast
  then consider r e where "r \<in> set (re_Routes (entry_at u' q))" "e \<in> entry_endpoints (entry_at u' q)"
      "(Hash r, endpoint_sig e) \<notin> entry_view (entry_at u q)" "\<exists>f. x = reg_item d r e f"
    | r e where "r \<in> set (re_Routes (entry_at u q))" "e \<in> entry_endpoints (entry_at u q)"
      "(Hash r, endpoint_sig e) \<notin> entry_view (entry_at u' q)" "x = unreg_item d r e"
    unfolding entry_emission_exact_def by blast
  then show ?thesis
  proof cases
    case 1
    then have "(Hash r, endpoint_sig e) \<in> entry_view (entry_at u' q)" by (simp add: entry_view_def)
    with 1(3,4) show ?thesis by blast
  next
    case 2
    then have "(Hash r, endpoint_sig e) \<in> entry_view (entry_at u q)" by (simp add: entry_view_def)
    with 2 show ?thesis by blast
  qed
qed

lemma table_exact_new:
  assumes "table_emission_exact d u u' X" "p \<in> entry_view (entry_at u' q)" "p \<notin> entry_view (entry_at u q)"
  shows "\<exists>r e f. (Hash r, endpoint_sig e) = p \<and> reg_item d r e f \<in> X"
  using assms unfolding table_emission_exact_def entry_emission_exact_def by (metis DiffI UN_I UNIV_I)

lemma table_exact_gone:
  assumes "table_emission_exact d u u' X" "p \<in> entry_view (entry_at u q)" "p \<notin> entry_view (entry_at u' q)"
  shows "\<exists>r e. (Hash r, endpoint_sig e) = p \<and> unreg_item d r e \<in> X"
  using assms unfolding table_emission_exact_def entry_emission_exact_def by (metis DiffI UN_I UNIV_I)

lemma routing_exact_parts:
  assumes "routing_emission_exact t t' out"
  obtains P where "emitted_set (fst out) (snd out) = (\<Union>kd. P kd)"
    "\<And>kd. table_emission_exact (it_directInstanceRoute (part kd t)) (part kd t) (part kd t') (P kd)"
proof -
  from assms obtain H T I where X: "emitted_set (fst out) (snd out) = H \<union> T \<union> I"
    "table_emission_exact (it_directInstanceRoute (httpRoutesRoutingTable t)) (httpRoutesRoutingTable t) (httpRoutesRoutingTable t') H"
    "table_emission_exact (it_directInstanceRoute (tcpRoutesRoutingTable t)) (tcpRoutesRoutingTable t) (tcpRoutesRoutingTable t') T"
    "table_emission_exact (it_directInstanceRoute (internalRoutesRoutingTable t)) (internalRoutesRoutingTable t) (internalRoutesRoutingTable t') I"
    unfolding routing_emission_exact_def by blast
  let ?P = "\<lambda>kd. case kd of HTTPKind \<Rightarrow> H | TCPKind \<Rightarrow> T | InternalKind \<Rightarrow> I"
  have "(\<Union>kd. ?P kd) = H \<union> T \<union> I" by (auto split: table_kind.splits intro: exI [of _ HTTPKind] exI [of _ TCPKind] exI [of _ InternalKind])
  moreover have "table_emission_exact (it_directInstanceRoute (part kd t)) (part kd t) (part kd t') (?P kd)" for kd
    using X(2-4) by (cases kd) simp_all
  ultimately show ?thesis using that X(1) by metis
qed

lemma routing_exact_pairs:
  assumes "routing_emission_exact t t' out" "X = emitted_set (fst out) (snd out)"
  shows "x \<in> X \<Longrightarrow> (\<exists>p \<in> pairs t' - pairs t. registers t x p) \<or> (\<exists>p \<in> pairs t - pairs t'. unregisters t x p)"
    and "p \<in> pairs t' - pairs t \<Longrightarrow> \<exists>x \<in> X. registers t x p"
    and "p \<in> pairs t - pairs t' \<Longrightarrow> \<exists>x \<in> X. unregisters t x p"
proof -
  obtain P where P: "X = (\<Union>kd. P kd)"
    "\<And>kd. table_emission_exact (it_directInstanceRoute (part kd t)) (part kd t) (part kd t') (P kd)"
    using routing_exact_parts [OF assms(1)] assms(2) by metis
  obtain kd q h s where p: "p = (kd, q, h, s)" by (cases p)
  show "(\<exists>p \<in> pairs t' - pairs t. registers t x p) \<or> (\<exists>p \<in> pairs t - pairs t'. unregisters t x p)" if "x \<in> X"
  proof -
    from that P(1) obtain kd where "x \<in> P kd" by blast
    from table_exact_items [OF P(2) this] show ?thesis
      unfolding registers_def unregisters_def about_def Bex_def split_paired_Ex mem_pairs Diff_iff split_conv by metis
  qed
  show "\<exists>x \<in> X. registers t x p" if "p \<in> pairs t' - pairs t"
    using that table_exact_new [OF P(2), of "(h, s)" kd q] unfolding p mem_pairs Diff_iff registers_def about_def P(1) by blast
  show "\<exists>x \<in> X. unregisters t x p" if "p \<in> pairs t - pairs t'"
    using that table_exact_gone [OF P(2), of "(h, s)" kd q] unfolding p mem_pairs Diff_iff unregisters_def about_def P(1) by blast
qed

section \<open>How a router identifies a route\<close>

locale router_identity =
  fixes ident :: "emitted \<Rightarrow> 'k"
    and identity :: "bool \<Rightarrow> route_hash \<times> Endpoint \<Rightarrow> 'k"
  assumes ident_reg: "ident (reg_item d r e f) = identity d (Hash r, endpoint_sig e)"
    and ident_unreg: "ident (unreg_item d r e) = identity d (Hash r, endpoint_sig e)"

definition pair_identity :: "(bool \<Rightarrow> route_hash \<times> Endpoint \<Rightarrow> 'k) \<Rightarrow> routingTable \<Rightarrow>
    table_kind \<times> RoutingKey \<times> route_hash \<times> Endpoint \<Rightarrow> 'k" where
  "pair_identity identity t = (\<lambda>(kd, q, p). identity (it_directInstanceRoute (part kd t)) p)"

definition announcements :: "(bool \<Rightarrow> route_hash \<times> Endpoint \<Rightarrow> 'k) \<Rightarrow> routingTable \<Rightarrow> 'k set" where
  "announcements identity t = pair_identity identity t ` pairs t"

lemma pair_identity_config: "same_config t t' \<Longrightarrow> pair_identity identity t' = pair_identity identity t"
  by (simp add: pair_identity_def same_config_direct fun_eq_iff)

lemma observe_registrations:
  "\<forall>x \<in> set xs. is_registration x \<Longrightarrow> observe ident xs R = R \<union> ident ` set xs"
  by (induction xs arbitrary: R) (auto simp: observe_item_def)

context router_identity
begin

lemma ident_registers: "registers t x p \<Longrightarrow> is_registration x \<and> ident x = pair_identity identity t p"
  by (cases p) (auto simp: registers_def about_def pair_identity_def ident_reg)

lemma ident_unregisters: "unregisters t x p \<Longrightarrow> \<not> is_registration x \<and> ident x = pair_identity identity t p"
  by (cases p) (auto simp: unregisters_def about_def pair_identity_def ident_unreg)

lemma observe_sound:
  assumes "routing_emission_exact t t' out" "same_config t t'"
    and "set items = emitted_set (fst out) (snd out)" "R \<subseteq> announcements identity t"
  shows "observe ident items R \<subseteq> announcements identity t'"
proof
  note exact = routing_exact_pairs [OF assms(1) assms(3)]
  note same = pair_identity_config [OF assms(2), of identity]
  fix k assume "k \<in> observe ident items R"
  then consider x where "x \<in> set items" "is_registration x" "ident x = k"
    | "k \<in> R" "\<forall>x \<in> set items. \<not> is_registration x \<longrightarrow> ident x \<noteq> k"
    using observe_origin by metis
  then show "k \<in> announcements identity t'"
  proof cases
    case 1
    with exact(1) [OF 1(1)] obtain p where "p \<in> pairs t'" "registers t x p" using ident_unregisters by blast
    with 1(3) ident_registers show ?thesis by (auto simp: announcements_def same)
  next
    case 2
    with assms(4) obtain p where p: "p \<in> pairs t" "k = pair_identity identity t p" by (auto simp: announcements_def)
    with 2(2) exact(3) [of p] have "p \<in> pairs t'" using ident_unregisters by blast
    with p(2) show ?thesis by (auto simp: announcements_def same)
  qed
qed

lemma observe_complete:
  assumes "routing_emission_exact t t' out" "same_config t t'"
    and "set items = emitted_set (fst out) (snd out)" "announcements identity t \<subseteq> R"
    and "inj_on (pair_identity identity t) (pairs t \<union> pairs t')"
  shows "announcements identity t' \<subseteq> observe ident items R"
proof
  note exact = routing_exact_pairs [OF assms(1) assms(3)]
  fix k assume "k \<in> announcements identity t'"
  then obtain p where p: "p \<in> pairs t'" "k = pair_identity identity t p"
    using pair_identity_config [OF assms(2), of identity] by (auto simp: announcements_def)
  have live: "ident x \<noteq> k" if x: "x \<in> set items" "\<not> is_registration x" for x
  proof -
    from exact(1) [OF x(1)] x(2) obtain u where "u \<in> pairs t - pairs t'" "unregisters t x u"
      using ident_registers by blast
    with p assms(5) show ?thesis using ident_unregisters by (metis DiffE UnI1 UnI2 inj_onD)
  qed
  have "k \<in> R \<or> (\<exists>x \<in> set items. is_registration x \<and> ident x = k)"
  proof (cases "p \<in> pairs t")
    case True
    then show ?thesis using p(2) assms(4) by (auto simp: announcements_def)
  next
    case False
    with exact(2) [of p] p show ?thesis using ident_registers by blast
  qed
  with live show "k \<in> observe ident items R" by (intro observe_kept) auto
qed

lemma announces_identities:
  assumes "announces u X"
  shows "ident ` X = identity (it_directInstanceRoute u) ` (\<Union>q. entry_view (entry_at u q))"
    and "\<forall>x \<in> X. is_registration x"
proof -
  show "\<forall>x \<in> X. is_registration x" using assms unfolding announces_def by fastforce
  have "ident x \<in> identity (it_directInstanceRoute u) ` (\<Union>q. entry_view (entry_at u q))" if "x \<in> X" for x
  proof -
    from assms that obtain q r e where "r \<in> set (re_Routes (entry_at u q))" "e \<in> entry_endpoints (entry_at u q)"
      "x = reg_item (it_directInstanceRoute u) r e False" unfolding announces_def by blast
    then show ?thesis by (auto simp: ident_reg entry_view_def)
  qed
  moreover have "identity (it_directInstanceRoute u) p \<in> ident ` X" if "p \<in> entry_view (entry_at u q)" for p q
  proof -
    from that obtain r e where p: "p = (Hash r, endpoint_sig e)" "r \<in> set (re_Routes (entry_at u q))"
      "e \<in> entry_endpoints (entry_at u q)" by (auto simp: entry_view_def)
    with assms obtain r' e' where "Hash r' = Hash r" "endpoint_sig e' = endpoint_sig e"
      "reg_item (it_directInstanceRoute u) r' e' False \<in> X" unfolding announces_def by blast
    then show ?thesis by (metis p(1) ident_reg image_eqI)
  qed
  ultimately show "ident ` X = identity (it_directInstanceRoute u) ` (\<Union>q. entry_view (entry_at u q))" by blast
qed

end

section \<open>Routers that read the emitter's messages\<close>

text \<open>
  Table and routers together. A call of the table, or a periodic emission, is read in any order of its items.
  At any time the routers may forget routes: this covers expiry in a router, a registration that got lost and
  an unregistration that is repeated.
\<close>

inductive routers_reach :: "bbs_env \<Rightarrow> bool \<Rightarrow> (emitted \<Rightarrow> 'k) \<Rightarrow> routingTable \<Rightarrow> routingTable \<Rightarrow> 'k set \<Rightarrow> bool"
  for E tls ident t0 where
  start: "routers_reach E tls ident t0 t0 {}"
| call: "routers_reach E tls ident t0 t R \<Longrightarrow> consistent_op E tls x t \<Longrightarrow> apply_op E tls x t = (t', out) \<Longrightarrow>
    set items = emitted_set (fst out) (snd out) \<Longrightarrow> routers_reach E tls ident t0 t' (observe ident items R)"
| external: "routers_reach E tls ident t0 t R \<Longrightarrow> GetExternalRoutingEvents t = (m, msgs) \<Longrightarrow>
    set items = emitted_set m msgs \<Longrightarrow> routers_reach E tls ident t0 t (observe ident items R)"
| internal: "routers_reach E tls ident t0 t R \<Longrightarrow> GetInternalRoutingEvents t = (m, msgs) \<Longrightarrow>
    set items = emitted_set m msgs \<Longrightarrow> routers_reach E tls ident t0 t (observe ident items R)"
| forget: "routers_reach E tls ident t0 t R \<Longrightarrow> R' \<subseteq> R \<Longrightarrow> routers_reach E tls ident t0 t R'"

lemma agreeing_NewRoutingTable: "agreeing_table (NewRoutingTable E direct tls)"
  by (simp add: agreeing_table_def NewRoutingTable_def agreeing_def)

lemma routers_reach_table:
  assumes "routers_reach E tls ident (NewRoutingTable E direct tls) t R"
  shows "wf_routing_table E tls t \<and> agreeing_table t"
  using assms
proof induction
  case (call t R x t' out items)
  then have "routing_correct E tls t (fst (apply_op E tls x t)) (snd (apply_op E tls x t))"
    by (intro history_correct(1)) simp_all
  with call(3) show ?case by (simp add: routing_correct_def)
qed (simp_all add: wf_NewRoutingTable agreeing_NewRoutingTable)

lemma announcements_parts:
  "announcements identity t = (\<Union>kd. identity (it_directInstanceRoute (part kd t)) ` (\<Union>q. entry_view (entry_at (part kd t) q)))"
  by (force simp: announcements_def pair_identity_def pairs_def)

lemma UNIV_table_kind: "UNIV = {HTTPKind, TCPKind, InternalKind}"
  using table_kind.exhaust by blast

lemma all_kinds: "(\<Union>kd. f kd) = f HTTPKind \<union> f TCPKind \<union> f InternalKind"
  by (simp add: UNIV_table_kind Un_assoc)

context router_identity
begin

lemma external_identities:
  assumes "wf_routing_table E tls t" "agreeing_table t" "GetExternalRoutingEvents t = (m, msgs)"
  shows "\<forall>x \<in> emitted_set m msgs. is_registration x"
    "ident ` emitted_set m msgs = (\<Union>kd \<in> {HTTPKind, TCPKind}.
       identity (it_directInstanceRoute (part kd t)) ` (\<Union>q. entry_view (entry_at (part kd t) q)))"
proof -
  obtain hm hs tm ts where X: "emitted_set m msgs = emitted_set hm hs \<union> emitted_set tm ts"
    and H: "announces (httpRoutesRoutingTable t) (emitted_set hm hs)"
    and T: "announces (tcpRoutesRoutingTable t) (emitted_set tm ts)"
    using GetExternalRoutingEvents_announces [OF assms] by metis
  show "\<forall>x \<in> emitted_set m msgs. is_registration x"
    using announces_identities(2) [OF H] announces_identities(2) [OF T] by (auto simp: X)
  show "ident ` emitted_set m msgs = (\<Union>kd \<in> {HTTPKind, TCPKind}.
       identity (it_directInstanceRoute (part kd t)) ` (\<Union>q. entry_view (entry_at (part kd t) q)))"
    by (simp add: X image_Un announces_identities(1) [OF H] announces_identities(1) [OF T])
qed

lemma internal_identities:
  assumes "wf_routing_table E tls t" "agreeing_table t" "GetInternalRoutingEvents t = (m, msgs)"
  shows "\<forall>x \<in> emitted_set m msgs. is_registration x"
    "ident ` emitted_set m msgs = identity (it_directInstanceRoute (part InternalKind t)) `
       (\<Union>q. entry_view (entry_at (part InternalKind t) q))"
  using announces_identities [OF GetInternalRoutingEvents_announces [OF assms]] by simp_all

lemma never_stale:
  assumes "routers_reach E tls ident (NewRoutingTable E direct tls) t R"
  shows "R \<subseteq> announcements identity t"
  using assms
proof induction
  case (call t R x t' out items)
  note table = routers_reach_table [OF call(1)]
  with call(2,3) have "routing_correct E tls t (fst (apply_op E tls x t)) (snd (apply_op E tls x t))"
    by (intro history_correct(1)) simp_all
  then have "routing_emission_exact t t' out" using call(3) by (simp add: routing_correct_def)
  moreover have "same_config t t'" using apply_op_config [of E tls t x] table call(3) by simp
  ultimately show ?case using call(4,5) by (intro observe_sound)
next
  case (external t R m msgs items)
  note ids = external_identities [OF conjunct1 conjunct2, OF routers_reach_table routers_reach_table, OF external(1,1,2)]
  with external(3,4) show ?case by (auto simp: observe_registrations announcements_parts all_kinds)
next
  case (internal t R m msgs items)
  note ids = internal_identities [OF conjunct1 conjunct2, OF routers_reach_table routers_reach_table, OF internal(1,1,2)]
  with internal(3,4) show ?case by (auto simp: observe_registrations announcements_parts all_kinds)
qed auto

lemma emission_restores:
  assumes "routers_reach E tls ident (NewRoutingTable E direct tls) t R"
    and "GetExternalRoutingEvents t = (m, msgs)" "set exts = emitted_set m msgs"
    and "GetInternalRoutingEvents t = (m', msgs')" "set ints = emitted_set m' msgs'"
  shows "observe ident ints (observe ident exts R) = announcements identity t"
proof -
  have table: "wf_routing_table E tls t" "agreeing_table t" using routers_reach_table [OF assms(1)] by simp_all
  note ids = external_identities [OF table assms(2)] internal_identities [OF table assms(4)]
  from ids assms(3,5) have "observe ident ints (observe ident exts R) = R \<union> announcements identity t"
    by (simp add: observe_registrations announcements_parts all_kinds Un_assoc)
  with never_stale [OF assms(1)] show ?thesis by blast
qed

lemma call_exact:
  assumes "wf_routing_table E tls t" "agreeing_table t" "consistent_op E tls x t" "apply_op E tls x t = (t', out)"
    and "set items = emitted_set (fst out) (snd out)"
    and "inj_on (pair_identity identity t) (pairs t \<union> pairs t')"
  shows "observe ident items (announcements identity t) = announcements identity t'"
proof -
  have exact: "routing_emission_exact t t' out"
    using history_correct(1) [OF assms(1-3)] assms(4) by (simp add: routing_correct_def)
  have same: "same_config t t'" using apply_op_config [OF assms(1), of x] assms(4) by simp
  show ?thesis
    using observe_sound [OF exact same assms(5) order_refl] observe_complete [OF exact same assms(5) order_refl assms(6)]
    by blast
qed

end

section \<open>Two identities\<close>

text \<open>By address: the host names and the address they are served at, whatever else the message says.\<close>

datatype route_address =
    HTTPAddress "string list" string uint32
  | TCPAddress string uint16 string uint16
  | InternalAddress "string list" string

fun by_address :: "emitted \<Rightarrow> route_address" where
  "by_address (Register m) = HTTPAddress (rm_URIs m) (rm_Host m) (rm_Port m)"
| "by_address (Unregister m) = HTTPAddress (rm_URIs m) (rm_Host m) (rm_Port m)"
| "by_address (InternalRegister m) = InternalAddress (rm_URIs m) (rm_Host m)"
| "by_address (InternalUnregister m) = InternalAddress (rm_URIs m) (rm_Host m)"
| "by_address (UpsertTcp m) = TCPAddress (trm_RouterGroupGuid m) (trm_ExternalPort m) (trm_HostIP m) (trm_HostPort m)"
| "by_address (DeleteTcp m) = TCPAddress (trm_RouterGroupGuid m) (trm_ExternalPort m) (trm_HostIP m) (trm_HostPort m)"

fun address_identity :: "bool \<Rightarrow> route_hash \<times> Endpoint \<Rightarrow> route_address" where
  "address_identity d (HTTPHash h, e) =
     (if IsDirectInstanceRoute e d then HTTPAddress [rh_Hostname h] (ep_ContainerIP e) (ep_ContainerPort e)
      else HTTPAddress [rh_Hostname h] (ep_Host e) (ep_Port e))"
| "address_identity d (TCPHash info, e) =
     (if IsDirectInstanceRoute e d
      then TCPAddress (eei_RouterGroupGUID info) (ucast (eei_Port info)) (ep_ContainerIP e) (ucast (ep_ContainerPort e))
      else TCPAddress (eei_RouterGroupGUID info) (ucast (eei_Port info)) (ep_Host e) (ucast (ep_Port e)))"
| "address_identity d (InternalHash r, e) =
     InternalAddress [ir_Hostname r, index_string e @ ''.'' @ ir_Hostname r] (ep_ContainerIP e)"

text \<open>
  By message: everything the message says but its time stamp, tags and options, which do not distinguish
  routes in the table either.
\<close>

definition plain :: "RegistryMessage \<Rightarrow> RegistryMessage" where
  "plain m = m\<lparr>rm_EndpointUpdatedAtNs := 0, rm_Tags := [], rm_Options := ''''\<rparr>"

fun by_message :: "emitted \<Rightarrow> emitted" where
  "by_message (Register m) = Register (plain m)"
| "by_message (Unregister m) = Register (plain m)"
| "by_message (InternalRegister m) = InternalRegister (plain m)"
| "by_message (InternalUnregister m) = InternalRegister (plain m)"
| "by_message (UpsertTcp m) = UpsertTcp m"
| "by_message (DeleteTcp m) = UpsertTcp m"

definition route_of_hash :: "routeHash \<Rightarrow> Route" where
  "route_of_hash h = \<lparr>rt_Hostname = rh_Hostname h, rt_RouteServiceUrl = rh_RouteServiceUrl h,
     rt_IsolationSegment = rh_IsolationSegment h, rt_LogGUID = rh_LogGUID h, rt_Protocol = rh_Protocol h,
     rt_MetricTags = [], rt_Options = ''''\<rparr>"

fun message_identity :: "bool \<Rightarrow> route_hash \<times> Endpoint \<Rightarrow> emitted" where
  "message_identity d (HTTPHash h, e) = Register (plain (Route_MessageFor (route_of_hash h) e d False))"
| "message_identity d (TCPHash info, e) = UpsertTcp (ExternalEndpointInfo_MessageFor info e d)"
| "message_identity d (InternalHash r, e) = InternalRegister (plain (InternalEndpointRegistryMessageFor e r False))"

lemma endpoint_sig_reads [simp]:
  "IsDirectInstanceRoute (endpoint_sig e) d = IsDirectInstanceRoute e d"
  "index_string (endpoint_sig e) = index_string e"
  "ExternalEndpointInfo_MessageFor info (endpoint_sig e) d = ExternalEndpointInfo_MessageFor info e d"
  by (simp_all add: endpoint_sig_def IsDirectInstanceRoute_def index_string_def ExternalEndpointInfo_MessageFor_def)

interpretation address_router: router_identity by_address address_identity
proof
  fix d r e f
  show "by_address (reg_item d r e f) = address_identity d (Hash r, endpoint_sig e)"
    by (cases r) (simp_all add: Route_MessageFor_def RegistryMessageFor_def InternalAddressRegistryMessageFor_def
        InternalEndpointRegistryMessageFor_def ExternalEndpointInfo_MessageFor_def Route_Hash_def Let_def, simp_all add: endpoint_sig_def)
  show "by_address (unreg_item d r e) = address_identity d (Hash r, endpoint_sig e)"
    by (cases r) (simp_all add: Route_MessageFor_def RegistryMessageFor_def InternalAddressRegistryMessageFor_def
        InternalEndpointRegistryMessageFor_def ExternalEndpointInfo_MessageFor_def Route_Hash_def Let_def, simp_all add: endpoint_sig_def)
qed

lemma plain_message_sig:
  "plain (Route_MessageFor r e d f) = plain (Route_MessageFor (route_of_hash (Route_Hash r)) (endpoint_sig e) d False)"
  "plain (InternalEndpointRegistryMessageFor e i f) = plain (InternalEndpointRegistryMessageFor (endpoint_sig e) i False)"
  by (simp_all add: plain_def Route_MessageFor_def RegistryMessageFor_def InternalAddressRegistryMessageFor_def
      InternalEndpointRegistryMessageFor_def Route_Hash_def route_of_hash_def)
    (simp_all add: endpoint_sig_def)

interpretation message_router: router_identity by_message message_identity
proof
  fix d r e f
  show "by_message (reg_item d r e f) = message_identity d (Hash r, endpoint_sig e)"
    by (cases r) (auto intro: plain_message_sig)
  show "by_message (unreg_item d r e) = message_identity d (Hash r, endpoint_sig e)"
    by (cases r) (auto intro: plain_message_sig)
qed

section \<open>What the routers know\<close>

text \<open>The items of an emission in the order of its lists, for the examples.\<close>

definition emitted_list :: "TCPRouteMappings \<times> MessagesToEmit \<Rightarrow> emitted list" where
  "emitted_list = (\<lambda>(mappings, msgs).
     map Register (RegistrationMessages msgs) @ map Unregister (UnregistrationMessages msgs) @
     map InternalRegister (InternalRegistrationMessages msgs) @ map InternalUnregister (InternalUnregistrationMessages msgs) @
     map UpsertTcp (Registrations mappings) @ map DeleteTcp (Unregistrations mappings))"

lemma set_emitted_list: "set (emitted_list out) = emitted_set (fst out) (snd out)"
  by (cases out) (simp add: emitted_list_def emitted_set_def Un_assoc)

lemma example_routers_reach:
  "routers_reach example_env False by_address (NewRoutingTable example_env False False) example_table
     {HTTPAddress [''h1''] ''1.1.1.1'' 61001}"
proof -
  let ?t0 = "NewRoutingTable example_env False False"
  let ?x = "OpAddEndpoint (example_actual ''ig1'' 0 ActualLRP_Ordinary 1)"
  let ?y = "OpSetRoutes None (Some (example_desired ''h1'' 2 1))"
  let ?t1 = "fst (apply_op example_env False ?x ?t0)"
  let ?o1 = "snd (apply_op example_env False ?x ?t0)" and ?o2 = "snd (apply_op example_env False ?y ?t1)"
  have items: "emitted_list ?o1 = []"
    "map by_address (emitted_list ?o2) = [HTTPAddress [''h1''] ''1.1.1.1'' 61001]"
    "list_all is_registration (emitted_list ?o2)"
    by code_simp+
  have "routers_reach example_env False by_address ?t0 ?t1 (observe by_address (emitted_list ?o1) {})"
    by (rule routers_reach.call [OF routers_reach.start, where x = ?x and out = ?o1]) (code_simp, simp_all add: set_emitted_list)
  then have "routers_reach example_env False by_address ?t0 (fst (apply_op example_env False ?y ?t1))
      (observe by_address (emitted_list ?o2) (observe by_address (emitted_list ?o1) {}))"
    by (rule routers_reach.call [where x = ?y and out = ?o2]) (simp_all add: set_emitted_list)
  moreover have "observe by_address (emitted_list ?o2) {} = {HTTPAddress [''h1''] ''1.1.1.1'' 61001}"
    using items(2,3) by (simp add: observe_registrations list_all_iff flip: list.set_map)
  ultimately show ?thesis
    unfolding items(1) observe_simps(1) example_table_def example_ops_def run_ops.simps by simp
qed

text \<open>
  The routers never know a route that the table does not have: whatever calls are made on the table
  in whatever order their messages are read, however often the table is emitted and whatever the routers
  forget meanwhile, all they know is announced by the table, for any way to identify routes that gives a
  registration and an unregistration of the same pair the same identity.
\<close>

theorem routers_never_stale:
  assumes "router_identity ident identity" "routers_reach E tls ident (NewRoutingTable E direct tls) t R"
  shows "R \<subseteq> announcements identity t"
  using assms by (rule router_identity.never_stale)

theorem routers_never_stale_witness:
  "\<exists>R. routers_reach example_env False by_address (NewRoutingTable example_env False False) example_table R \<and>
    R = {HTTPAddress [''h1''] ''1.1.1.1'' 61001} \<and> R \<subseteq> announcements address_identity example_table"
  using example_routers_reach routers_never_stale [OF address_router.router_identity_axioms example_routers_reach]
  by blast

text \<open>
  C8: one periodic emission of external and of internal routes, its items read in any order, brings the
  routers back to exactly what the table announces, whatever they had forgotten.
\<close>

theorem periodic_emission_restores:
  assumes "router_identity ident identity" "routers_reach E tls ident (NewRoutingTable E direct tls) t R"
    and "set exts = emitted_set (fst (GetExternalRoutingEvents t)) (snd (GetExternalRoutingEvents t))"
    and "set ints = emitted_set (fst (GetInternalRoutingEvents t)) (snd (GetInternalRoutingEvents t))"
  shows "observe ident ints (observe ident exts R) = announcements identity t"
  using router_identity.emission_restores [OF assms(1,2) _ assms(3) _ assms(4)] by simp

theorem periodic_emission_restores_witness:
  "observe by_address [] (observe by_address (emitted_list (GetExternalRoutingEvents example_table)) {}) =
     announcements address_identity example_table \<and>
   map by_address (emitted_list (GetExternalRoutingEvents example_table)) = [HTTPAddress [''h1''] ''1.1.1.1'' 61001]"
proof
  have none: "emitted_list (GetInternalRoutingEvents example_table) = []" by code_simp
  show "observe by_address [] (observe by_address (emitted_list (GetExternalRoutingEvents example_table)) {}) =
     announcements address_identity example_table"
    by (rule periodic_emission_restores [OF address_router.router_identity_axioms
          routers_reach.forget [OF example_routers_reach empty_subsetI]])
      (simp_all add: set_emitted_list flip: none)
  show "map by_address (emitted_list (GetExternalRoutingEvents example_table)) = [HTTPAddress [''h1''] ''1.1.1.1'' 61001]"
    by code_simp
qed

section \<open>Exact routers\<close>

text \<open>The pairs of a table as a list.\<close>

definition pair_list :: "routingTable \<Rightarrow> (table_kind \<times> RoutingKey \<times> route_hash \<times> Endpoint) list" where
  "pair_list t = concat (map (\<lambda>kd. concat (map (\<lambda>(q, en). concat (map (\<lambda>r.
     map (\<lambda>e. (kd, q, Hash r, endpoint_sig e)) (go_values (re_Endpoints en))) (re_Routes en)))
     (it_entries (part kd t)))) [HTTPKind, TCPKind, InternalKind])"

lemma pairs_list:
  assumes "wf_routing_table E tls t"
  shows "pairs t = set (pair_list t)"
proof -
  have wf: "wf_table (part kd t)" for kd using wf_routing_table_tables [OF assms] by (cases kd) simp_all
  have view: "p \<in> entry_view (entry_at u q) \<longleftrightarrow> (\<exists>en. (q, en) \<in> set (it_entries u) \<and> p \<in> entry_view en)"
    if "wf_table u" for u p q
    using that by (auto simp: entry_at_def wf_table_wf gm.items_get entry_view_def split: option.splits)
  have "(kd, q, p) \<in> pairs t \<longleftrightarrow> (kd, q, p) \<in> set (pair_list t)" for kd q p
    unfolding mem_pairs view [OF wf]
    by (cases kd) (force simp: pair_list_def entry_view_def entry_endpoints_def)+
  then show ?thesis by auto
qed

lemma announcements_list: "wf_routing_table E tls t \<Longrightarrow> announcements identity t = set (map (pair_identity identity t) (pair_list t))"
  by (simp add: announcements_def pairs_list)

lemma inj_on_list:
  assumes "list_all (\<lambda>x. list_all (\<lambda>y. f x = f y \<longrightarrow> x = y) xs) xs"
  shows "inj_on f (set xs)"
  using assms by (auto simp: list_all_iff inj_on_def)

text \<open>
  C9: routers that know exactly what the table announces still do so after a call on the table, in whatever
  order its messages are read, when no two pairs of the table before or after the call have the same identity.
\<close>

theorem routers_stay_exact:
  assumes "router_identity ident identity"
    and "wf_routing_table E tls t" "agreeing_table t" "consistent_op E tls x t"
    and "set items = emitted_set (fst (snd (apply_op E tls x t))) (snd (snd (apply_op E tls x t)))"
    and "inj_on (pair_identity identity t) (pairs t \<union> pairs (fst (apply_op E tls x t)))"
  shows "observe ident items (announcements identity t) = announcements identity (fst (apply_op E tls x t))"
  using router_identity.call_exact [OF assms(1-4) prod.collapse [symmetric] assms(5,6)] .

theorem routers_stay_exact_witness:
  "observe by_address (rev (emitted_list (snd (apply_op example_env False
       (OpSetRoutes (Some (example_desired ''h1'' 2 1)) (Some (example_desired ''h2'' 2 2))) example_table))))
     (announcements address_identity example_table) = {HTTPAddress [''h2''] ''1.1.1.1'' 61001}"
proof -
  let ?x = "OpSetRoutes (Some (example_desired ''h1'' 2 1)) (Some (example_desired ''h2'' 2 2))"
  let ?r = "apply_op example_env False ?x example_table"
  have wf: "wf_routing_table example_env False (fst ?r)" by (rule apply_op_run_ops_wf(1) [OF wf_example_table])
  have "inj_on (pair_identity address_identity example_table) (set (pair_list example_table @ pair_list (fst ?r)))"
    by (rule inj_on_list) code_simp
  then have inj: "inj_on (pair_identity address_identity example_table) (pairs example_table \<union> pairs (fst ?r))"
    unfolding pairs_list [OF wf_example_table] pairs_list [OF wf] set_append .
  have after: "map (pair_identity address_identity (fst ?r)) (pair_list (fst ?r)) = [HTTPAddress [''h2''] ''1.1.1.1'' 61001]"
    by code_simp
  have "observe by_address (rev (emitted_list (snd ?r))) (announcements address_identity example_table) =
      announcements address_identity (fst ?r)"
    by (rule routers_stay_exact [OF address_router.router_identity_axioms wf_example_table agreeing_example_table _ _ inj])
      (simp_all add: set_emitted_list)
  then show ?thesis unfolding announcements_list [OF wf] after by simp
qed

section \<open>A changed route\<close>

text \<open>The routing table item a publication of the NATS emitter stands for.\<close>

definition job_item :: "nats_job \<Rightarrow> emitted" where
  "job_item = (\<lambda>(subject, m).
     if subject = ''router.register'' then Register m
     else if subject = ''router.unregister'' then Unregister m
     else if subject = ''service-discovery.register'' then InternalRegister m
     else InternalUnregister m)"

text \<open>One HTTP route to the host \<open>h1\<close>, bound to the route service the routing info names.\<close>

definition route_service_env :: bbs_env where
  "route_service_env = example_env\<lparr>CFRoutesFromRoutingInfo := (\<lambda>rs.
     ([\<lparr>cf_Hostnames = [''h1''], cf_Port = 8080,
        cf_RouteServiceUrl = (case go_get rs ''cf-router'' of None \<Rightarrow> '''' | Some url \<Rightarrow> url),
        cf_IsolationSegment = '''', cf_Protocol = '''', cf_Options = ''''\<rparr>], None))\<rparr>"

definition route_service_table :: routingTable where
  "route_service_table = run_ops route_service_env False
     [OpAddEndpoint (example_actual ''ig1'' 0 ActualLRP_Ordinary 1), OpSetRoutes None (Some (example_desired '''' 2 1))]
     (NewRoutingTable route_service_env False False)"


end
