(* ===== verification/Router_Handler.thy ===== *)
theory Router_Handler
  imports Router_View Handler
begin

text \<open>
  The handler and the routers. The routers read what the handler hands to its emitters, emission by emission, the
  items of one emission in any order; between the calls of the handler they may forget routes. The lemmas lift
  the results on single table operations to whole calls of the handler: an event may perform several
  operations and hand over their merged messages.
\<close>

section \<open>Merged operations\<close>

text \<open>
  The messages of several operations are merged and read in any order, so what one of them registers must not be
  withdrawn by a later one.
\<close>

fun settled :: "bbs_env \<Rightarrow> bool \<Rightarrow> table_op list \<Rightarrow> routingTable \<Rightarrow> bool" where
  "settled E tls [] t = True"
| "settled E tls (x # ops) t =
     (pairs (fst (apply_op E tls x t)) - pairs t \<subseteq> pairs (run_ops E tls ops (fst (apply_op E tls x t))) \<and>
      settled E tls ops (fst (apply_op E tls x t)))"

lemma same_config_refl: "same_config t t"
  by (simp add: same_config_def)

lemma same_config_trans: "same_config t u \<Longrightarrow> same_config u v \<Longrightarrow> same_config t v"
  by (simp add: same_config_def)

lemma about_config: "same_config t t' \<Longrightarrow> registers t' x p = registers t x p \<and> unregisters t' x p = unregisters t x p"
  by (cases p) (simp add: registers_def unregisters_def about_def same_config_direct)

lemma run_ops_config: "wf_routing_table E tls t \<Longrightarrow> same_config t (run_ops E tls ops t)"
proof (induction ops arbitrary: t)
  case (Cons x ops)
  then show ?case
    using apply_op_config [OF Cons.prems, of x] apply_op_run_ops_wf(1) [OF Cons.prems, of x]
    by (auto intro: same_config_trans)
qed (simp add: same_config_refl)

lemma emitted_set_output:
  "emitted_set (fst (ops_output E tls (x # ops) t)) (snd (ops_output E tls (x # ops) t)) =
     emitted_set (fst (snd (apply_op E tls x t))) (snd (snd (apply_op E tls x t))) \<union>
     emitted_set (fst (ops_output E tls ops (fst (apply_op E tls x t)))) (snd (ops_output E tls ops (fst (apply_op E tls x t))))"
  by (auto simp: emitted_set_def split: prod.splits)

lemma ops_exact_pairs:
  assumes "wf_routing_table E tls t" "agreeing_table t" "consistent_history E tls ops t" "settled E tls ops t"
    and "X = emitted_set (fst (ops_output E tls ops t)) (snd (ops_output E tls ops t))"
  shows "(\<forall>x \<in> X. (\<exists>p \<in> pairs (run_ops E tls ops t). registers t x p) \<or> (\<exists>p. unregisters t x p)) \<and>
    (\<forall>p \<in> pairs t - pairs (run_ops E tls ops t). \<exists>x \<in> X. unregisters t x p)"
  using assms
proof (induction ops arbitrary: t X)
  case Nil
  then show ?case by (simp add: emitted_set_def no_mappings_def no_messages_def)
next
  case (Cons x ops)
  obtain t' out where op: "apply_op E tls x t = (t', out)" by (metis surj_pair)
  have correct: "routing_correct E tls t t' out"
    using history_correct(1) [OF Cons.prems(1,2), of x] Cons.prems(3) op by simp
  then have t': "wf_routing_table E tls t'" "agreeing_table t'" by (simp_all add: routing_correct_def)
  let ?X1 = "emitted_set (fst out) (snd out)"
  let ?X2 = "emitted_set (fst (ops_output E tls ops t')) (snd (ops_output E tls ops t'))" and ?final = "run_ops E tls ops t'"
  note first = routing_exact_pairs [OF conjunct2 [OF conjunct2 [OF correct [unfolded routing_correct_def]]] refl]
  have config: "same_config t t'" using apply_op_config [OF Cons.prems(1), of x] op by simp
  note rest = Cons.IH [OF t' _ _ refl] about_config [OF config]
  have X: "X = ?X1 \<union> ?X2" using Cons.prems(5) emitted_set_output [of E tls x ops t] by (simp only: op fst_conv snd_conv)
  have later: "(\<forall>x \<in> ?X2. (\<exists>p \<in> pairs ?final. registers t x p) \<or> (\<exists>p. unregisters t x p)) \<and>
      (\<forall>p \<in> pairs t' - pairs ?final. \<exists>x \<in> ?X2. unregisters t x p)"
    using rest Cons.prems(3,4) op by simp
  have settle: "pairs t' - pairs t \<subseteq> pairs ?final" using Cons.prems(4) op by simp
  have "(\<exists>p \<in> pairs ?final. registers t y p) \<or> (\<exists>p. unregisters t y p)" if "y \<in> ?X1" for y
    using first(1) [OF that] settle by blast
  moreover have "\<exists>y \<in> X. unregisters t y p" if "p \<in> pairs t - pairs ?final" for p
    using that first(3) [of p] later X by (cases "p \<in> pairs t'") blast+
  moreover have "run_ops E tls (x # ops) t = ?final" by (simp add: op)
  ultimately show ?case using later X by auto
qed

section \<open>The operations of one event\<close>

text \<open>
  An event that performs two operations removes the ordinary record of an instance after it added or removed the
  evacuating one. What the first operation adds has another endpoint key, so the removal leaves it alone.
\<close>

lemma AddEndpoint_new_views:
  assumes "wf_table t" "ports_distinct t a" "Internal_AddEndpoint E t a = ((t', res), counters)"
    and "p \<in> entry_view (entry_at t' k)" "p \<notin> entry_view (entry_at t k)"
  shows "\<exists>e \<in> set (it_endpointGenerator t a). go_get (re_Endpoints (entry_at t' k)) (endpoint_key e) = Some e \<and> snd p = endpoint_sig e"
proof -
  note loop = Internal_AddEndpoint_loop [OF assms(1-3)]
  from assms(4,5) have "entry_at t' k \<noteq> entry_at t k" by auto
  with loop(2) obtain e where e: "e \<in> set (it_endpointGenerator t a)" "k = lrp_key a e" by blast
  with loop(3) \<open>entry_at t' k \<noteq> entry_at t k\<close>
  have new: "entry_at t' k = (entry_at t k)\<lparr>re_Endpoints := go_put (re_Endpoints (entry_at t k)) (endpoint_key e) e\<rparr>"
    by (fastforce simp: add_entry_def split: if_splits)
  have wf: "wf_entry (entry_at t k)" by (rule wf_table_entry [OF assms(1)])
  have "entry_endpoints (entry_at t' k) \<subseteq> insert e (entry_endpoints (entry_at t k))"
    unfolding new entry_endpoints_put [OF wf] using wf by (auto simp: entry_endpoints_ran ran_def)
  with assms(4,5) have "snd p = endpoint_sig e" by (auto simp: entry_view_def new)
  with e new show ?thesis by auto
qed

lemma RemoveEndpoint_views:
  assumes "wf_table t" "ports_distinct t a" "Internal_RemoveEndpoint E t a = (t', res)"
  shows "entry_view (entry_at t' k) \<subseteq> entry_view (entry_at t k)"
    and "p \<in> entry_view (entry_at t k) \<Longrightarrow> go_get (re_Endpoints (entry_at t k)) (endpoint_key x) = Some x \<Longrightarrow> snd p = endpoint_sig x \<Longrightarrow>
      endpoint_key x \<notin> endpoint_key ` set (it_endpointGenerator t a) \<Longrightarrow> p \<in> entry_view (entry_at t' k)"
proof -
  note loop = Internal_RemoveEndpoint_loop [OF assms]
  have wf: "wf_entry (entry_at t k)" by (rule wf_table_entry [OF assms(1)])
  have "entry_at t' k = entry_at t k \<or> (\<exists>e \<in> set (it_endpointGenerator t a).
      entry_at t' k = drop_empty ((entry_at t k)\<lparr>re_Endpoints := go_del (re_Endpoints (entry_at t k)) (endpoint_key e)\<rparr>))"
  proof (cases "k \<in> lrp_key a ` set (it_endpointGenerator t a)")
    case True
    then obtain e where "e \<in> set (it_endpointGenerator t a)" "k = lrp_key a e" by blast
    with loop(3) [of e] show ?thesis by (auto simp: remove_entry_def split: option.splits if_splits)
  qed (use loop(2) in simp)
  then consider "entry_at t' k = entry_at t k"
    | e where "e \<in> set (it_endpointGenerator t a)"
      "entry_at t' k = drop_empty ((entry_at t k)\<lparr>re_Endpoints := go_del (re_Endpoints (entry_at t k)) (endpoint_key e)\<rparr>)"
    by blast
  note cases = this
  let ?del = "\<lambda>e. (entry_at t k)\<lparr>re_Endpoints := go_del (re_Endpoints (entry_at t k)) (endpoint_key e)\<rparr>"
  have view: "entry_view (drop_empty en) = entry_view en" for en by (simp add: entry_view_def)
  have sub: "entry_endpoints (?del e) \<subseteq> entry_endpoints (entry_at t k)" for e
    by (rule entry_endpoints_del [OF wf])
  from cases sub show "entry_view (entry_at t' k) \<subseteq> entry_view (entry_at t k)"
    by cases (auto simp: view entry_view_def)
  assume p: "p \<in> entry_view (entry_at t k)" "go_get (re_Endpoints (entry_at t k)) (endpoint_key x) = Some x" "snd p = endpoint_sig x"
    "endpoint_key x \<notin> endpoint_key ` set (it_endpointGenerator t a)"
  from cases show "p \<in> entry_view (entry_at t' k)"
  proof cases
    case (2 e)
    with p(2,4) have "x \<in> entry_endpoints (?del e)"
      using wf_entry_del [OF wf] by (force simp: entry_endpoints_ran ran_def)
    with 2 p(1,3) show ?thesis by (auto simp: view entry_view_def)
  qed (use p in simp)
qed

lemma apply_endpoint_parts:
  "part kd (fst (apply_op E tls (OpAddEndpoint a) t)) = fst (fst (Internal_AddEndpoint E (part kd t) a))"
  "part kd (fst (apply_op E tls (OpRemoveEndpoint a) t)) = fst (Internal_RemoveEndpoint E (part kd t) a)"
  by (cases kd; simp add: AddEndpoint_def RemoveEndpoint_def Let_def split: prod.splits)+

lemma generated_presence:
  assumes "wf_routing_table E tls t" "e \<in> set (it_endpointGenerator (part kd t) a)"
  shows "ep_Presence e = al_Presence a"
proof -
  have "ep_Presence e = al_Presence a" if "e \<in> set (NewEndpointsFromActual a) \<or> e \<in> set (internalEndpointsFromActualLRP a)" for e
    using that by (auto simp: NewEndpointsFromActual_def set_endpoints_for_ports endpoint_for_port_def internalEndpointsFromActualLRP_def)
  with assms show ?thesis by (cases kd) (auto simp: wf_routing_table_def)
qed

lemma parts_wf: "wf_routing_table E tls t \<Longrightarrow> wf_table (part kd t)"
  using wf_routing_table_tables by (cases kd) simp_all

lemma parts_ports: "distinct_ports t a \<Longrightarrow> ports_distinct (part kd t) a"
  by (cases kd) (simp_all add: distinct_ports_def)

lemma consistent_ports: "consistent_instance t a \<Longrightarrow> distinct_ports t a"
  by (simp add: consistent_instance_def distinct_ports_def consistent_at_def)

lemma removal_adds_nothing:
  assumes "wf_routing_table E tls t" "distinct_ports t a"
  shows "pairs (fst (apply_op E tls (OpRemoveEndpoint a) t)) \<subseteq> pairs t"
proof
  fix x assume x: "x \<in> pairs (fst (apply_op E tls (OpRemoveEndpoint a) t))"
  obtain kd k p where "x = (kd, k, p)" by (metis surj_pair)
  with x RemoveEndpoint_views(1) [OF parts_wf [OF assms(1)] parts_ports [OF assms(2)] surjective_pairing]
  show "x \<in> pairs t" by (auto simp only: mem_pairs apply_endpoint_parts)
qed

lemma evacuation_settled:
  assumes "wf_routing_table E tls t" "distinct_ports t a" "al_Presence b = ActualLRP_Ordinary" "al_Presence a = ActualLRP_Evacuating"
    and "t1 = fst (apply_op E tls (OpAddEndpoint a) t)" "distinct_ports t1 b"
  shows "pairs t1 - pairs t \<subseteq> pairs (fst (apply_op E tls (OpRemoveEndpoint b) t1))"
proof
  fix x assume x: "x \<in> pairs t1 - pairs t"
  obtain kd k p where p: "x = (kd, k, p)" by (metis surj_pair)
  have wf1: "wf_routing_table E tls t1" unfolding assms(5) by (rule apply_op_run_ops_wf(1) [OF assms(1)])
  obtain t' res counters where add: "Internal_AddEndpoint E (part kd t) a = ((t', res), counters)" by (metis surj_pair)
  have t': "part kd t1 = t'" using apply_endpoint_parts(1) [of kd E tls a t] add by (simp add: assms(5))
  have "p \<in> entry_view (entry_at t' k)" "p \<notin> entry_view (entry_at (part kd t) k)"
    using x p t' by (simp_all add: mem_pairs)
  from AddEndpoint_new_views [OF parts_wf [OF assms(1)] parts_ports [OF assms(2)] add this] obtain e where
    e: "e \<in> set (it_endpointGenerator (part kd t) a)" "go_get (re_Endpoints (entry_at (part kd t1) k)) (endpoint_key e) = Some e"
      "snd p = endpoint_sig e"
    by (auto simp: t')
  have other: "endpoint_key e \<notin> endpoint_key ` set (it_endpointGenerator (part kd t1) b)"
    using generated_presence [OF assms(1) e(1)] generated_presence [OF wf1, of _ kd b] assms(3,4)
    by (force simp: endpoint_key_def)
  have "p \<in> entry_view (entry_at (part kd t1) k)" using x p by (simp add: mem_pairs)
  from RemoveEndpoint_views(2) [OF parts_wf [OF wf1] parts_ports [OF assms(6)] surjective_pairing this e(2,3) other]
  show "x \<in> pairs (fst (apply_op E tls (OpRemoveEndpoint b) t1))"
    unfolding p by (simp only: mem_pairs apply_endpoint_parts)
qed

lemma single_settled: "settled E tls [x] t"
  by auto

lemma update_settled:
  assumes "wf_routing_table E tls t" "consistent_history E tls (actual_update_ops b a) t"
  shows "settled E tls (actual_update_ops b a) t"
proof -
  have "actual_update_ops b a = [] \<or> (\<exists>x. actual_update_ops b a = [x]) \<or> (\<exists>x. actual_update_ops b a = [OpRemoveEndpoint a, x]) \<or>
      actual_update_ops b a = [OpAddEndpoint a, OpRemoveEndpoint b] \<and>
      al_Presence b = ActualLRP_Ordinary \<and> al_Presence a = ActualLRP_Evacuating"
    by (simp add: actual_update_ops_def)
  then consider "actual_update_ops b a = []" | x where "actual_update_ops b a = [x]"
    | x where "actual_update_ops b a = [OpRemoveEndpoint a, x]"
    | "actual_update_ops b a = [OpAddEndpoint a, OpRemoveEndpoint b]"
      "al_Presence b = ActualLRP_Ordinary" "al_Presence a = ActualLRP_Evacuating"
    by blast
  then show ?thesis
  proof cases
    case (3 x)
    with assms removal_adds_nothing [OF assms(1), of a] show ?thesis by auto
  next
    case 4
    with assms evacuation_settled [OF assms(1) _ 4(2,3) refl] show ?thesis by (simp add: consistent_ports)
  qed simp_all
qed

lemma event_settled:
  assumes "wf_routing_table E tls t" "consistent_history E tls (event_ops E ev) t"
  shows "settled E tls (event_ops E ev) t"
proof (cases ev)
  case (ActualLRPInstanceChangedEvent traceId before after key ikey)
  with assms update_settled show ?thesis by (auto split: option.splits)
qed (auto split: option.splits)

section \<open>Reading merged operations\<close>

context router_identity
begin

lemma observe_ops_sound:
  assumes "wf_routing_table E tls t" "agreeing_table t" "consistent_history E tls ops t" "settled E tls ops t"
    and "set items = emitted_set (fst (ops_output E tls ops t)) (snd (ops_output E tls ops t))"
    and "R \<subseteq> announcements identity t"
  shows "observe ident items R \<subseteq> announcements identity (run_ops E tls ops t)"
proof
  note exact = ops_exact_pairs [OF assms(1-5)]
  note same = pair_identity_config [OF run_ops_config [OF assms(1)], of identity]
  fix k assume "k \<in> observe ident items R"
  then consider x where "x \<in> set items" "is_registration x" "ident x = k"
    | "k \<in> R" "\<forall>x \<in> set items. \<not> is_registration x \<longrightarrow> ident x \<noteq> k"
    using observe_origin by metis
  then show "k \<in> announcements identity (run_ops E tls ops t)"
  proof cases
    case 1
    with exact obtain p where "p \<in> pairs (run_ops E tls ops t)" "registers t x p" using ident_unregisters by blast
    with 1(3) ident_registers show ?thesis by (auto simp: announcements_def same)
  next
    case 2
    with assms(6) obtain p where p: "p \<in> pairs t" "k = pair_identity identity t p" by (auto simp: announcements_def)
    with 2(2) exact have "p \<in> pairs (run_ops E tls ops t)" using ident_unregisters by blast
    with p(2) show ?thesis by (auto simp: announcements_def same)
  qed
qed

end

section \<open>Routers that read a handler\<close>

fun action_items :: "handler_action \<Rightarrow> emitted set" where
  "action_items (EmitNATS msgs) = emitted_set no_mappings msgs"
| "action_items (EmitRoutingAPI mappings) = emitted_set mappings no_messages"
| "action_items _ = {}"

inductive reads :: "(emitted \<Rightarrow> 'k) \<Rightarrow> handler_action list \<Rightarrow> 'k set \<Rightarrow> 'k set \<Rightarrow> bool" for ident where
  none: "reads ident [] R R"
| action: "set items = action_items a \<Longrightarrow> reads ident acts (observe ident items R) R' \<Longrightarrow> reads ident (a # acts) R R'"

inductive_cases reads_NilE: "reads ident [] R R'"
inductive_cases reads_ConsE: "reads ident (a # acts) R R'"

lemma reads_observe:
  assumes "reads ident acts R R'"
  shows "\<exists>items. set items = (\<Union>a \<in> set acts. action_items a) \<and> R' = observe ident items R"
  using assms
proof induction
  case (none R)
  then show ?case by (intro exI [of _ "[]"]) simp
next
  case (action items a acts R R')
  then obtain rest where "set rest = (\<Union>a \<in> set acts. action_items a)" "R' = observe ident rest (observe ident items R)" by blast
  with action(1) show ?case by (intro exI [of _ "items @ rest"]) (simp add: observe_append)
qed

lemma reads_appendD: "reads ident (xs @ ys) R R' \<Longrightarrow> \<exists>R1. reads ident xs R R1 \<and> reads ident ys R1 R'"
proof (induction xs arbitrary: R)
  case (Cons x xs)
  then obtain items where items: "set items = action_items x" "reads ident (xs @ ys) (observe ident items R) R'"
    by (auto elim: reads_ConsE)
  from Cons.IH [OF items(2)] reads.action [OF items(1)] show ?case by (metis append_Cons)
qed (auto intro: reads.none)

lemma emit_actions_items:
  assumes "h_natsEmitter h" "h_routingAPIEmitter h"
  shows "(\<Union>a \<in> set (emit_actions h out). action_items a) = emitted_set (fst out) (snd out)"
  using assms by (auto simp: emit_actions_def emitted_set_def no_mappings_def no_messages_def)

text \<open>A call of the watcher whose events are consistent with the table.\<close>

definition consistent_call :: "bbs_env \<Rightarrow> handler_call \<Rightarrow> Handler \<Rightarrow> bool" where
  "consistent_call E c h = consistent_history E (h_tcpTLSEnabled h) (call_ops E c) (h_routingTable h)"

text \<open>The state of handler and routers: both emitters, a table that fits its flags, routers that know nothing else.\<close>

definition in_step :: "(bool \<Rightarrow> route_hash \<times> Endpoint \<Rightarrow> 'k) \<Rightarrow> bbs_env \<Rightarrow> Handler \<Rightarrow> 'k set \<Rightarrow> bool" where
  "in_step identity E h R = (h_natsEmitter h \<and> h_routingAPIEmitter h \<and>
     wf_routing_table E (h_tcpTLSEnabled h) (h_routingTable h) \<and> agreeing_table (h_routingTable h) \<and>
     kinds_ok (h_routingTable h) \<and> R \<subseteq> announcements identity (h_routingTable h))"

lemma in_step_wf: "in_step identity E h R \<Longrightarrow> wf_routing_table E (h_tcpTLSEnabled h) (h_routingTable h)"
  by (simp add: in_step_def)

lemma refresh_one_emissions:
  "emissions (refresh_one E lrp h) = emissions h @
     emit_actions h (ops_output E (h_tcpTLSEnabled h) [OpSetRoutes None (Some lrp)] (h_routingTable h))"
proof -
  obtain h1 m msgs where r: "table_SetRoutes E None (Some lrp) h = (h1, m, msgs)" by (metis surj_pair)
  have p: "performs E [OpSetRoutes None (Some lrp)] h (h1, m, msgs)"
    using table_calls_perform(3) [of E None "Some lrp" h] by (simp only: r)
  show ?thesis using performs_emit(3) [OF p] by (simp only: refresh_one_def r Let_def prod.case)
qed

lemma refresh_grows: "\<exists>new. emissions (RefreshDesired E lrps h) = emissions h @ new"
  unfolding RefreshDesired_def
proof (induction lrps arbitrary: h)
  case (Cons lrp lrps)
  from Cons [of "refresh_one E lrp h"] refresh_one_emissions [of E lrp h] show ?case by auto
qed simp

context router_identity
begin

lemma ops_in_step:
  assumes "in_step identity E h R" "handler_config h' = handler_config h"
    and "h_routingTable h' = run_ops E (h_tcpTLSEnabled h) ops (h_routingTable h)"
    and "consistent_history E (h_tcpTLSEnabled h) ops (h_routingTable h)" "settled E (h_tcpTLSEnabled h) ops (h_routingTable h)"
    and "reads ident (emit_actions h (ops_output E (h_tcpTLSEnabled h) ops (h_routingTable h))) R R'"
  shows "in_step identity E h' R'"
proof -
  let ?tls = "h_tcpTLSEnabled h" and ?t = "h_routingTable h"
  have h: "h_natsEmitter h" "h_routingAPIEmitter h" "wf_routing_table E ?tls ?t" "agreeing_table ?t" "kinds_ok ?t"
    "R \<subseteq> announcements identity ?t"
    using assms(1) by (simp_all add: in_step_def)
  from reads_observe [OF assms(6)] obtain items where
    items: "set items = emitted_set (fst (ops_output E ?tls ops ?t)) (snd (ops_output E ?tls ops ?t))" "R' = observe ident items R"
    by (auto simp: emit_actions_items [OF h(1,2)])
  have "R' \<subseteq> announcements identity (h_routingTable h')"
    unfolding items(2) assms(3) by (rule observe_ops_sound [OF h(3,4) assms(4,5) items(1) h(6)])
  moreover have "h_natsEmitter h'" "h_routingAPIEmitter h'" "h_tcpTLSEnabled h' = ?tls"
    using assms(2) h(1,2) by (simp_all add: handler_config_def)
  ultimately show ?thesis
    using h apply_op_run_ops_wf(2) [OF h(3), of ops] history_correct(2) [OF h(3,4) assms(4)] history_kinds(2) [OF h(3,5), of ops]
    by (simp add: in_step_def assms(3))
qed

lemma refresh_in_step:
  assumes "in_step identity E h R"
    and "consistent_history E (h_tcpTLSEnabled h) (map (\<lambda>lrp. OpSetRoutes None (Some lrp)) lrps) (h_routingTable h)"
    and "emissions (RefreshDesired E lrps h) = emissions h @ new" "reads ident new R R'"
  shows "in_step identity E (RefreshDesired E lrps h) R'"
  using assms
proof (induction lrps arbitrary: h R new)
  case Nil
  then show ?case by (auto simp: RefreshDesired_def elim: reads_NilE)
next
  case (Cons lrp lrps)
  let ?h = "refresh_one E lrp h" and ?acts = "emit_actions h (ops_output E (h_tcpTLSEnabled h) [OpSetRoutes None (Some lrp)] (h_routingTable h))"
  have effect: "h_routingTable ?h = run_ops E (h_tcpTLSEnabled h) [OpSetRoutes None (Some lrp)] (h_routingTable h)"
    "handler_config ?h = handler_config h" "emissions ?h = emissions h @ ?acts"
    using refresh_one_effect [of E lrp h] refresh_one_emissions [of E lrp h] by blast+
  have run: "RefreshDesired E (lrp # lrps) h = RefreshDesired E lrps ?h" by (simp add: RefreshDesired_def)
  obtain ys where ys: "emissions (RefreshDesired E lrps ?h) = emissions ?h @ ys" using refresh_grows by blast
  then have new: "new = ?acts @ ys" using Cons.prems(3) effect(3) run by simp
  then obtain R1 where R1: "reads ident ?acts R R1" "reads ident ys R1 R'" using reads_appendD Cons.prems(4) by blast
  have "in_step identity E ?h R1"
    by (rule ops_in_step [OF Cons.prems(1) effect(2,1) _ single_settled R1(1)]) simp
  moreover have "h_tcpTLSEnabled ?h = h_tcpTLSEnabled h" using effect(2) by (simp add: handler_config_def)
  ultimately show ?case
    unfolding run using Cons.IH [OF _ _ ys R1(2)] Cons.prems(2) effect(1) by simp
qed

end

section \<open>All calls\<close>

lemma EmitExternal_emissions:
  "emissions (EmitExternal h) = emissions h @ emit_actions h (GetExternalRoutingEvents (h_routingTable h))"
  "h_routingTable (EmitExternal h) = h_routingTable h" "handler_config (EmitExternal h) = handler_config h"
  by (simp_all add: EmitExternal_def emit_actions_def Let_def split: prod.splits)

lemma EmitInternal_emissions:
  "emissions (EmitInternal h) = emissions h @
     (if h_natsEmitter h then [EmitNATS (snd (GetInternalRoutingEvents (h_routingTable h)))] else [])"
  "h_routingTable (EmitInternal h) = h_routingTable h" "handler_config (EmitInternal h) = handler_config h"
  by (simp_all add: EmitInternal_def split: prod.splits)

lemma internal_no_mappings:
  assumes "wf_routing_table E tls t" "agreeing_table t" "kinds_ok t" "GetInternalRoutingEvents t = (m, msgs)"
  shows "emitted_set no_mappings msgs = emitted_set m msgs"
proof -
  note ann = GetInternalRoutingEvents_announces [OF assms(1,2,4)]
  have item: "\<exists>y. x = InternalRegister y" if "x \<in> emitted_set m msgs" for x
  proof -
    from that ann obtain k r d e where r: "r \<in> set (re_Routes (entry_at (internalRoutesRoutingTable t) k))" "x = reg_item d r e False"
      unfolding announces_def by blast
    then have "is_internal r" using assms(3) by (auto simp: kinds_ok_def routes_all_def list_all_iff)
    with r(2) show ?thesis by (cases r) auto
  qed
  have none: "UpsertTcp y \<notin> emitted_set m msgs" "DeleteTcp y \<notin> emitted_set m msgs" for y using item by blast+
  have "y \<notin> set (Registrations m)" "y \<notin> set (Unregistrations m)" for y
    using none(1) [of y] none(2) [of y] by (auto simp: emitted_set_def)
  then have "Registrations m = []" "Unregistrations m = []" by (metis list.set_intros(1) neq_Nil_conv)+
  then show ?thesis by (simp add: emitted_set_def no_mappings_def)
qed

context router_identity
begin

lemma external_in_step:
  assumes "in_step identity E h R" "reads ident (emit_actions h (GetExternalRoutingEvents (h_routingTable h))) R R'"
  shows "in_step identity E (EmitExternal h) R' \<and>
    R' = R \<union> (\<Union>kd \<in> {HTTPKind, TCPKind}. identity (it_directInstanceRoute (part kd (h_routingTable h))) `
      (\<Union>q. entry_view (entry_at (part kd (h_routingTable h)) q)))"
proof -
  let ?t = "h_routingTable h" and ?out = "GetExternalRoutingEvents (h_routingTable h)"
  have h: "h_natsEmitter h" "h_routingAPIEmitter h" "wf_routing_table E (h_tcpTLSEnabled h) ?t" "agreeing_table ?t"
    using assms(1) by (simp_all add: in_step_def)
  from reads_observe [OF assms(2)] obtain items where items: "set items = emitted_set (fst ?out) (snd ?out)" "R' = observe ident items R"
    by (auto simp: emit_actions_items [OF h(1,2)])
  have R': "R' = R \<union> (\<Union>kd \<in> {HTTPKind, TCPKind}. identity (it_directInstanceRoute (part kd ?t)) ` (\<Union>q. entry_view (entry_at (part kd ?t) q)))"
    using external_identities [OF h(3,4), of "fst ?out" "snd ?out"] items by (simp add: observe_registrations)
  have "R' \<subseteq> announcements identity ?t"
    using assms(1) R' unfolding in_step_def announcements_parts all_kinds by auto
  then have "in_step identity E (EmitExternal h) R'"
    using assms(1) EmitExternal_emissions(2,3) [of h] by (simp add: in_step_def handler_config_def)
  with R' show ?thesis by blast
qed

lemma internal_in_step:
  assumes "in_step identity E h R" "reads ident [EmitNATS (snd (GetInternalRoutingEvents (h_routingTable h)))] R R'"
  shows "in_step identity E (EmitInternal h) R' \<and>
    R' = R \<union> identity (it_directInstanceRoute (part InternalKind (h_routingTable h))) `
      (\<Union>q. entry_view (entry_at (part InternalKind (h_routingTable h)) q))"
proof -
  let ?t = "h_routingTable h" and ?out = "GetInternalRoutingEvents (h_routingTable h)"
  have h: "wf_routing_table E (h_tcpTLSEnabled h) ?t" "agreeing_table ?t" "kinds_ok ?t"
    using assms(1) by (simp_all add: in_step_def)
  from reads_observe [OF assms(2)] obtain items where items: "set items = emitted_set (fst ?out) (snd ?out)" "R' = observe ident items R"
    using internal_no_mappings [OF h, of "fst ?out" "snd ?out"] by auto
  have R': "R' = R \<union> identity (it_directInstanceRoute (part InternalKind ?t)) ` (\<Union>q. entry_view (entry_at (part InternalKind ?t) q))"
    using internal_identities [OF h(1,2), of "fst ?out" "snd ?out"] items by (simp add: observe_registrations)
  have "R' \<subseteq> announcements identity ?t"
    using assms(1) R' unfolding in_step_def announcements_parts all_kinds by auto
  then have "in_step identity E (EmitInternal h) R'"
    using assms(1) EmitInternal_emissions(2,3) [of h] by (simp add: in_step_def handler_config_def)
  with R' show ?thesis by blast
qed

lemma call_in_step:
  assumes "hash_total U" "in_step identity E h R" "consistent_call E c h"
    and "emissions (do_call E U c h) = emissions h @ new" "reads ident new R R'"
  shows "in_step identity E (do_call E U c h) R'"
proof (cases c)
  case (CallHandleEvent ev)
  have "new = (if event_emits E ev then emit_actions h (ops_output E (h_tcpTLSEnabled h) (event_ops E ev) (h_routingTable h)) else [])"
    using assms(4) HandleEvent_effect_emissions [OF assms(1), of E ev h] CallHandleEvent by simp
  moreover have "HandleEvent E U ev h = h" if "\<not> event_emits E ev"
    using HandleEvent_cases [of E U ev h] that by metis
  moreover have ok: "consistent_history E (h_tcpTLSEnabled h) (event_ops E ev) (h_routingTable h)"
    using assms(3) CallHandleEvent by (simp add: consistent_call_def)
  moreover note event_settled [OF in_step_wf [OF assms(2)] ok]
  ultimately show ?thesis
    using assms(2,5) CallHandleEvent HandleEvent_table [of E U ev h]
    by (auto elim: reads_NilE intro: ops_in_step split: if_splits)
next
  case (CallSync desired actuals domains cached)
  let ?x = "OpSwap (sync_ops E desired actuals cached) domains"
  have one: "ops_output E tls [y] t = snd (apply_op E tls y t)" for tls y t by (simp split: prod.splits)
  have "new = emit_actions h (ops_output E (h_tcpTLSEnabled h) [?x] (h_routingTable h))"
    unfolding one using assms(4) Sync_effect [of E U desired actuals domains cached h] CallSync by simp
  with assms(5) have "reads ident (emit_actions h (ops_output E (h_tcpTLSEnabled h) [?x] (h_routingTable h))) R R'" by blast
  with assms(2,3) show ?thesis
    using Sync_effect [of E U desired actuals domains cached h] CallSync
    by (intro ops_in_step [where ops = "[?x]", OF assms(2)]) (simp_all add: consistent_call_def)
next
  case (CallRefreshDesired lrps)
  then show ?thesis using refresh_in_step [OF assms(2)] assms(3,4,5) by (simp add: consistent_call_def)
next
  case CallEmitExternal
  then show ?thesis using external_in_step [OF assms(2)] assms(4,5) by (simp add: EmitExternal_emissions)
next
  case CallEmitInternal
  moreover have "h_natsEmitter h" using assms(2) by (simp add: in_step_def)
  ultimately show ?thesis using internal_in_step [OF assms(2)] assms(4,5) by (simp add: EmitInternal_emissions)
qed

end

section \<open>Every reachable state\<close>

inductive handler_routers :: "bbs_env \<Rightarrow> hash_fn \<Rightarrow> (emitted \<Rightarrow> 'k) \<Rightarrow> Handler \<Rightarrow> Handler \<Rightarrow> 'k set \<Rightarrow> bool"
  for E U ident h0 where
  start: "handler_routers E U ident h0 h0 {}"
| call: "handler_routers E U ident h0 h R \<Longrightarrow> consistent_call E c h \<Longrightarrow>
    emissions (do_call E U c h) = emissions h @ new \<Longrightarrow> reads ident new R R' \<Longrightarrow>
    handler_routers E U ident h0 (do_call E U c h) R'"
| forget: "handler_routers E U ident h0 h R \<Longrightarrow> R' \<subseteq> R \<Longrightarrow> handler_routers E U ident h0 h R'"

context router_identity
begin

lemma emission_in_step:
  assumes "in_step identity E h R" "emissions (EmitInternal (EmitExternal h)) = emissions h @ new" "reads ident new R R'"
  shows "R' = announcements identity (h_routingTable (EmitInternal (EmitExternal h)))"
proof -
  let ?ext = "emit_actions h (GetExternalRoutingEvents (h_routingTable h))"
  let ?int = "[EmitNATS (snd (GetInternalRoutingEvents (h_routingTable h)))]"
  have "h_natsEmitter (EmitExternal h)"
    using assms(1) EmitExternal_emissions(3) [of h] by (simp add: in_step_def handler_config_def)
  then have "new = ?ext @ ?int" using assms(2) by (simp add: EmitInternal_emissions EmitExternal_emissions)
  then obtain R1 where R1: "reads ident ?ext R R1" "reads ident ?int R1 R'" using reads_appendD assms(3) by blast
  note external = external_in_step [OF assms(1) R1(1)]
  note internal = internal_in_step [OF conjunct1 [OF external], unfolded EmitExternal_emissions(2), OF R1(2)]
  have "R \<union> announcements identity (h_routingTable h) = R'"
    using external internal by (simp add: announcements_parts all_kinds Un_assoc)
  with assms(1) show ?thesis by (auto simp: in_step_def EmitInternal_emissions EmitExternal_emissions)
qed

lemma handler_routers_in_step:
  assumes "hash_total U" "handler_routers E U ident (NewHandler (NewRoutingTable E direct tls) True True localMode tls cache) h R"
  shows "in_step identity E h R"
  using assms(2)
proof induction
  case start
  then show ?case
    by (simp add: in_step_def NewHandler_def wf_NewRoutingTable agreeing_NewRoutingTable kinds_NewRoutingTable)
next
  case (call h R c new R')
  then show ?case by (intro call_in_step [OF assms(1)])
next
  case (forget h R R')
  then show ?case by (auto simp: in_step_def)
qed

end

text \<open>
  Routers that read what the handler emits never know a route that the handler's table does not have,
  whatever calls the watcher makes, in whatever order the messages of one emission arrive and whatever the
  routers forget in between; and after the handler emitted its external and then its internal routes they know
  exactly the routes of its table. The handler has both emitters, its messages can be hashed and its events are
  consistent with the table.
\<close>

theorem handler_keeps_routers:
  assumes "router_identity ident identity" "hash_total U"
    and "handler_routers E U ident (NewHandler (NewRoutingTable E direct tls) True True localMode tls cache) h R"
  shows "R \<subseteq> announcements identity (h_routingTable h) \<and>
    (\<forall>new R'. emissions (EmitInternal (EmitExternal h)) = emissions h @ new \<longrightarrow> reads ident new R R' \<longrightarrow>
       R' = announcements identity (h_routingTable (EmitInternal (EmitExternal h))))"
  using router_identity.handler_routers_in_step [OF assms] router_identity.emission_in_step [OF assms(1)]
  by (auto simp: in_step_def)

text \<open>Reading in the order of the lists, for the example.\<close>

fun action_list :: "handler_action \<Rightarrow> emitted list" where
  "action_list (EmitNATS msgs) = emitted_list (no_mappings, msgs)"
| "action_list (EmitRoutingAPI mappings) = emitted_list (mappings, no_messages)"
| "action_list _ = []"

lemma set_action_list: "set (action_list a) = action_items a"
  by (cases a) (simp_all add: set_emitted_list)

lemma reads_in_order: "reads ident acts R (observe ident (concat (map action_list acts)) R)"
proof (induction acts arbitrary: R)
  case (Cons a acts)
  from reads.action [OF set_action_list Cons] show ?case by (simp add: observe_append)
qed (simp add: reads.none)

lemma event_in_order:
  assumes "handler_routers E U ident h0 h R" "hash_total U" "event_ops E ev = [x]" "event_emits E ev"
    and "consistent_op E (h_tcpTLSEnabled h) x (h_routingTable h)"
  shows "handler_routers E U ident h0 (HandleEvent E U ev h)
    (observe ident (concat (map action_list (emit_actions h (ops_output E (h_tcpTLSEnabled h) [x] (h_routingTable h))))) R)"
proof -
  let ?new = "emit_actions h (ops_output E (h_tcpTLSEnabled h) [x] (h_routingTable h))"
  have "emissions (do_call E U (CallHandleEvent ev) h) = emissions h @ ?new"
    using HandleEvent_effect_emissions [OF assms(2), of E ev h] assms(3,4) by simp
  moreover have "consistent_call E (CallHandleEvent ev) h"
    using assms(3,5) by (simp add: consistent_call_def)
  ultimately have "handler_routers E U ident h0 (do_call E U (CallHandleEvent ev) h) (observe ident (concat (map action_list ?new)) R)"
    using handler_routers.call [OF assms(1) _ _ reads_in_order] by blast
  then show ?thesis by simp
qed

theorem handler_keeps_routers_witness:
  "let h0 = NewHandler (NewRoutingTable example_env False False) True True False False NewCache;
       h = HandleEvent example_env example_hash_total (DesiredLRPCreatedEvent ''t'' (Some (example_desired ''h1'' 2 1)))
         (HandleEvent example_env example_hash_total
           (ActualLRPInstanceCreatedEvent ''t'' (Some (example_actual ''ig1'' 0 ActualLRP_Ordinary 1))) h0);
       R = {HTTPAddress [''h1''] ''1.1.1.1'' 61001} in
   handler_routers example_env example_hash_total by_address h0 h R \<and> R \<subseteq> announcements address_identity (h_routingTable h)"
proof -
  let ?start = "NewHandler (NewRoutingTable example_env False False) True True False False NewCache"
  let ?a = "example_actual ''ig1'' 0 ActualLRP_Ordinary 1" and ?d = "example_desired ''h1'' 2 1"
  let ?added = "ActualLRPInstanceCreatedEvent ''t'' (Some ?a)" and ?wanted = "DesiredLRPCreatedEvent ''t'' (Some ?d)"
  let ?mid = "HandleEvent example_env example_hash_total ?added ?start"
  let ?last = "HandleEvent example_env example_hash_total ?wanted ?mid"
  let ?acts = "\<lambda>h x. concat (map action_list (emit_actions h (ops_output example_env (h_tcpTLSEnabled h) [x] (h_routingTable h))))"
  have total: "hash_total example_hash_total" by (simp add: hash_total_def example_hash_total_def)
  have ok: "consistent_op example_env (h_tcpTLSEnabled ?start) (OpAddEndpoint ?a) (h_routingTable ?start)" by code_simp
  have "handler_routers example_env example_hash_total by_address ?start ?mid (observe by_address (?acts ?start (OpAddEndpoint ?a)) {})"
    by (rule event_in_order [OF handler_routers.start total _ _ ok]) (simp_all add: example_actual_def)
  from event_in_order [OF this total, of ?wanted "OpSetRoutes None (Some ?d)"]
  have "handler_routers example_env example_hash_total by_address ?start ?last
      (observe by_address (?acts ?mid (OpSetRoutes None (Some ?d))) (observe by_address (?acts ?start (OpAddEndpoint ?a)) {}))" by simp
  moreover have "?acts ?start (OpAddEndpoint ?a) = []"
    "map by_address (?acts ?mid (OpSetRoutes None (Some ?d))) = [HTTPAddress [''h1''] ''1.1.1.1'' 61001]"
    "list_all is_registration (?acts ?mid (OpSetRoutes None (Some ?d)))"
    by code_simp+
  moreover have "observe by_address xs {} = {HTTPAddress [''h1''] ''1.1.1.1'' 61001}"
    if "map by_address xs = [HTTPAddress [''h1''] ''1.1.1.1'' 61001]" "list_all is_registration xs" for xs
    using that by (simp add: observe_registrations list_all_iff flip: list.set_map)
  ultimately have reach: "handler_routers example_env example_hash_total by_address ?start ?last {HTTPAddress [''h1''] ''1.1.1.1'' 61001}"
    by (simp only: observe_simps(1))
  from handler_keeps_routers [OF address_router.router_identity_axioms total reach] reach show ?thesis
    unfolding Let_def by blast
qed

end
