(* ===== verification/System_Routers.thy ===== *)
theory System_Routers
  imports System Router_Handler
begin

text \<open>
  The routers behind the whole program: the watcher with its handler, the sender that repeats cached
  unregistrations, and routers that read what both emit. The sender only withdraws, so for the routers its
  messages are a way of forgetting; all that a route in a router rests on is the handler.
\<close>

section \<open>Several calls\<close>

lemma do_call_grows:
  assumes "hash_total U"
  shows "\<exists>new. emissions (do_call E U c h) = emissions h @ new"
proof (cases c)
  case (CallHandleEvent ev)
  then show ?thesis using HandleEvent_effect_emissions [OF assms, of E ev h] by auto
next
  case (CallSync desired actuals domains cached)
  then show ?thesis using Sync_effect [of E U desired actuals domains cached h] by auto
next
  case (CallRefreshDesired lrps)
  then show ?thesis using refresh_grows by simp
qed (simp_all add: EmitExternal_emissions EmitInternal_emissions)

lemma calls_grow: "hash_total U \<Longrightarrow> \<exists>new. emissions (fold (do_call E U) cs h) = emissions h @ new"
proof (induction cs arbitrary: h)
  case (Cons c cs)
  from do_call_grows [OF Cons.prems, of E c h] Cons.IH [OF Cons.prems, of "do_call E U c h"] show ?case by auto
qed simp

text \<open>Calls whose events are consistent with the table they meet.\<close>

fun consistent_calls :: "bbs_env \<Rightarrow> hash_fn \<Rightarrow> handler_call list \<Rightarrow> Handler \<Rightarrow> bool" where
  "consistent_calls E U [] h = True"
| "consistent_calls E U (c # cs) h = (consistent_call E c h \<and> consistent_calls E U cs (do_call E U c h))"

context router_identity
begin

lemma calls_in_step:
  assumes "hash_total U" "in_step identity E h R" "consistent_calls E U cs h"
    and "emissions (fold (do_call E U) cs h) = emissions h @ new" "reads ident new R R'"
  shows "in_step identity E (fold (do_call E U) cs h) R'"
  using assms(2-)
proof (induction cs arbitrary: h R new)
  case Nil
  then show ?case by (auto elim: reads_NilE)
next
  case (Cons c cs)
  let ?h = "do_call E U c h"
  obtain xs where xs: "emissions ?h = emissions h @ xs" using do_call_grows [OF assms(1)] by blast
  obtain ys where ys: "emissions (fold (do_call E U) cs ?h) = emissions ?h @ ys" using calls_grow [OF assms(1)] by blast
  from Cons.prems(3) xs ys have "new = xs @ ys" by simp
  then obtain R1 where R1: "reads ident xs R R1" "reads ident ys R1 R'" using reads_appendD Cons.prems(4) by blast
  have "in_step identity E ?h R1"
    using call_in_step [OF assms(1) Cons.prems(1) _ xs R1(1)] Cons.prems(2) by simp
  with Cons.IH [OF _ _ ys R1(2)] Cons.prems(2) show ?case by simp
qed

end

section \<open>The sender\<close>

lemma unregister_one_items: "x \<in> action_items (EmitNATS (unregister_one m)) \<Longrightarrow> \<not> is_registration x"
  by (auto simp: unregister_one_def emitted_set_def no_mappings_def no_messages_def)

lemma withdrawals_only_forget:
  assumes "reads ident (map (\<lambda>m. EmitNATS (unregister_one m)) ms) R R'"
  shows "R' \<subseteq> R"
proof
  fix k assume "k \<in> R'"
  moreover from reads_observe [OF assms] obtain items where
    items: "set items = (\<Union>m \<in> set ms. action_items (EmitNATS (unregister_one m)))" "R' = observe ident items R" by auto
  ultimately show "k \<in> R" using observe_origin [of k ident items R] unregister_one_items by blast
qed

lemma in_step_forget: "in_step identity E h R \<Longrightarrow> R' \<subseteq> R \<Longrightarrow> in_step identity E h R'"
  by (auto simp: in_step_def)

lemma in_step_cache [simp]: "in_step identity E (h\<lparr>h_unregistrationCache := c\<rparr>) R = in_step identity E h R"
  by (simp add: in_step_def)

section \<open>Routers behind watcher and sender\<close>

text \<open>
  Between two inputs of the watcher the sender may make any number of steps, and routers may forget. Both
  send over NATS: what the handler emitted in a step and what the sender published in one is read before the
  next step.
\<close>

inductive system_routers :: "bbs_env \<Rightarrow> hash_fn \<Rightarrow> int64 \<Rightarrow> (emitted \<Rightarrow> 'k) \<Rightarrow> Handler \<Rightarrow> emitter_system \<Rightarrow> 'k set \<Rightarrow> bool"
  for E U n ident h0 where
  start: "system_routers E U n ident h0 (system_init h0) {}"
| watcher: "system_routers E U n ident h0 s R \<Longrightarrow> system_step E U n (WatcherInput C i) s = Some s' \<Longrightarrow>
    consistent_calls E U (watcher_calls E C i (em_watcher s)) (w_handler (em_watcher s)) \<Longrightarrow>
    emissions (w_handler (em_watcher s')) = emissions (w_handler (em_watcher s)) @ new \<Longrightarrow> reads ident new R R' \<Longrightarrow>
    system_routers E U n ident h0 s' R'"
| sender: "system_routers E U n ident h0 s R \<Longrightarrow> x \<in> {SenderTick, SenderSend, SenderRemove} \<Longrightarrow>
    system_step E U n x s = Some s' \<Longrightarrow> em_sent s' = em_sent s @ ms \<Longrightarrow>
    reads ident (map (\<lambda>m. EmitNATS (unregister_one m)) ms) R R' \<Longrightarrow> system_routers E U n ident h0 s' R'"
| forget: "system_routers E U n ident h0 s R \<Longrightarrow> R' \<subseteq> R \<Longrightarrow> system_routers E U n ident h0 s R'"

lemma sender_step_handler:
  assumes "system_step E U n x s = Some s'" "x \<in> {SenderTick, SenderSend, SenderRemove}"
  shows "\<exists>c. w_handler (em_watcher s') = (w_handler (em_watcher s))\<lparr>h_unregistrationCache := c\<rparr>"
proof -
  obtain u where "s' = set_sender s u" using assms by (auto simp del: unreg_step.simps)
  then show ?thesis by (auto simp: set_sender_def intro: exI [of _ "us_cache u"])
qed

lemma watcher_input_handler:
  assumes "system_step E U n (WatcherInput C i) s = Some s'"
  shows "w_handler (em_watcher s') = fold (do_call E U) (watcher_calls E C i (em_watcher s)) (w_handler (em_watcher s))"
  using assms by (auto split: if_splits dest: watcher_step_does_calls)

context router_identity
begin

lemma system_routers_in_step:
  assumes "hash_total U"
    and "system_routers E U n ident (NewHandler (NewRoutingTable E direct tls) True True localMode tls cache) s R"
  shows "in_step identity E (w_handler (em_watcher s)) R"
  using assms(2)
proof induction
  case start
  then show ?case
    by (simp add: in_step_def system_init_def watcher_init_def NewHandler_def wf_NewRoutingTable agreeing_NewRoutingTable
        kinds_NewRoutingTable)
next
  case (watcher s R C i s' new R')
  note handler = watcher_input_handler [OF watcher.hyps(2)]
  show ?case
    using calls_in_step [OF assms(1) watcher.IH watcher.hyps(3) _ watcher.hyps(5)] watcher.hyps(4) by (simp only: handler)
next
  case (sender s R x s' ms R')
  obtain c where "w_handler (em_watcher s') = (w_handler (em_watcher s))\<lparr>h_unregistrationCache := c\<rparr>"
    using sender_step_handler [OF sender.hyps(3,2)] by blast
  with in_step_forget [OF sender.IH withdrawals_only_forget [OF sender.hyps(5)]] show ?case by simp
next
  case (forget s R R')
  then show ?case by (auto intro: in_step_forget)
qed

end

section \<open>The started program\<close>

lemma started_handler:
  assumes "main E M path = Inr p"
  obtains cfg where "NewRouteEmitterConfig M path = Inr cfg"
    "pr_handler p = NewHandler (NewRoutingTable E (cfg_RegisterDirectInstanceRoutes cfg) (cfg_TCPEnableTLS cfg)) True
       (cfg_EnableTCPEmitter cfg) (cfg_CellID cfg \<noteq> '''') (cfg_TCPEnableTLS cfg) NewCache"
proof -
  obtain cfg where cfg: "NewRouteEmitterConfig M path = Inr cfg"
    "new_routing_api_emitter M cfg = Inr (pr_routingAPIEmitter p)"
    "pr_handler p = NewHandler (NewRoutingTable E (cfg_RegisterDirectInstanceRoutes cfg) (cfg_TCPEnableTLS cfg)) True
       (pr_routingAPIEmitter p \<noteq> None) (cfg_CellID cfg \<noteq> '''') (cfg_TCPEnableTLS cfg) NewCache"
    using main_started [OF assms] by metis
  then show thesis using that new_routing_api_emitter_started(1) [OF cfg(2)] by simp
qed

text \<open>
  C7: in the program that \<open>main\<close> started with the TCP emitter enabled, routers that read what the handler and the sender
  hand to the emitters never know a route that the routing table does not have: whatever the watcher receives and the BBS
  answers, however the sender's repeated unregistrations interleave, in whatever order the messages of one emission
  arrive and whatever the routers forget. After the watcher had both routes emitted, external and then internal
  ones, they know exactly the routes of the table. Messages can be hashed and events are consistent with the table.
\<close>

theorem system_keeps_routers:
  assumes "router_identity ident identity" "hash_total U"
    and "main E M path = Inr p" "NewRouteEmitterConfig M path = Inr cfg" "cfg_EnableTCPEmitter cfg"
    and "system_routers E U (sd_sendCount (pr_sender p)) ident (pr_handler p) s R"
  shows "R \<subseteq> announcements identity (h_routingTable (w_handler (em_watcher s))) \<and>
    (\<forall>C C' w w' new R'. watcher_step E U C InEmitExternal (em_watcher s) = Some w \<longrightarrow>
       watcher_step E U C' InEmitInternal w = Some w' \<longrightarrow>
       emissions (w_handler w') = emissions (w_handler (em_watcher s)) @ new \<longrightarrow> reads ident new R R' \<longrightarrow>
       R' = announcements identity (h_routingTable (w_handler w')))"
proof -
  obtain cfg' where "NewRouteEmitterConfig M path = Inr cfg'"
    "pr_handler p = NewHandler (NewRoutingTable E (cfg_RegisterDirectInstanceRoutes cfg') (cfg_TCPEnableTLS cfg')) True
       (cfg_EnableTCPEmitter cfg') (cfg_CellID cfg' \<noteq> '''') (cfg_TCPEnableTLS cfg') NewCache"
    using started_handler [OF assms(3)] by metis
  with assms(4-6) have step: "in_step identity E (w_handler (em_watcher s)) R"
    using router_identity.system_routers_in_step [OF assms(1,2)] by simp
  then show ?thesis using router_identity.emission_in_step [OF assms(1) step] by (auto simp: in_step_def)
qed

lemma watcher_in_order:
  assumes "system_routers E U n ident h0 s R" "system_step E U n (WatcherInput C i) s = Some s'" "hash_total U"
    and "consistent_calls E U (watcher_calls E C i (em_watcher s)) (w_handler (em_watcher s))"
    and "em_watcher s' = w" "observe ident (concat (map action_list
      (drop (length (emissions (w_handler (em_watcher s)))) (emissions (w_handler w))))) R = R'"
  shows "system_routers E U n ident h0 s' R'"
proof -
  obtain new where "emissions (w_handler (em_watcher s')) = emissions (w_handler (em_watcher s)) @ new"
    using calls_grow [OF assms(3)] watcher_input_handler [OF assms(2)] by metis
  with system_routers.watcher [OF assms(1,2,4) _ reads_in_order] assms(5,6) show ?thesis by auto
qed

text \<open>The started program of the example learns of an instance and asks the BBS for its routes.\<close>

theorem system_keeps_routers_witness:
  "\<exists>p s. main example_env example_main_env ''config.json'' = Inr p \<and>
     system_routers example_env example_hash_total (sd_sendCount (pr_sender p)) by_address (pr_handler p) s
       {HTTPAddress [''h1''] ''1.1.1.1'' 61001} \<and>
     {HTTPAddress [''h1''] ''1.1.1.1'' 61001} \<subseteq> announcements address_identity (h_routingTable (w_handler (em_watcher s)))"
proof -
  let ?R = "{HTTPAddress [''h1''] ''1.1.1.1'' 61001}"
  let ?ev = "InEvent (ActualLRPInstanceCreatedEvent ''t'' (Some (example_actual ''ig1'' 0 ActualLRP_Ordinary 1)))"
  let ?s = "system_init example_start"
  let ?step = "watcher_step example_env example_hash_total example_client ?ev (em_watcher ?s)"
  obtain p where p: "main example_env example_main_env ''config.json'' = Inr p" using example_main_started by metis
  obtain cfg where "NewRouteEmitterConfig example_main_env ''config.json'' = Inr cfg"
    "pr_handler p = NewHandler (NewRoutingTable example_env (cfg_RegisterDirectInstanceRoutes cfg) (cfg_TCPEnableTLS cfg)) True
       (cfg_EnableTCPEmitter cfg) (cfg_CellID cfg \<noteq> '''') (cfg_TCPEnableTLS cfg) NewCache"
    using started_handler [OF p] by metis
  then have h: "pr_handler p = example_start"
    using example_main_simps(1) by (auto simp: example_start_def example_config_def)
  let ?n = "sd_sendCount (pr_sender p)"
  have total: "hash_total example_hash_total" by (simp add: hash_total_def example_hash_total_def)
  have "?step \<noteq> None" "watcher_enabled ?ev (em_watcher ?s)"
    and ok: "consistent_calls example_env example_hash_total (watcher_calls example_env example_client ?ev (em_watcher ?s))
      (w_handler (em_watcher ?s))"
    by code_simp+
  then obtain w where w: "?step = Some w"
    "system_step example_env example_hash_total ?n (WatcherInput example_client ?ev) ?s = Some (?s\<lparr>em_watcher := w\<rparr>)"
    by auto
  let ?new = "\<lambda>w. concat (map action_list (drop (length (emissions (w_handler (em_watcher ?s)))) (emissions (w_handler w))))"
  have "map by_address (?new (the ?step)) = [HTTPAddress [''h1''] ''1.1.1.1'' 61001]" "list_all is_registration (?new (the ?step))"
    by code_simp+
  then have new: "map by_address (?new w) = [HTTPAddress [''h1''] ''1.1.1.1'' 61001]" "list_all is_registration (?new w)"
    unfolding w(1) option.sel .
  have "observe by_address xs {} = ?R"
    if "map by_address xs = [HTTPAddress [''h1''] ''1.1.1.1'' 61001]" "list_all is_registration xs" for xs
    using that by (simp add: observe_registrations list_all_iff flip: list.set_map)
  note known = this [OF new]
  have reach: "system_routers example_env example_hash_total ?n by_address (pr_handler p) (?s\<lparr>em_watcher := w\<rparr>) ?R"
    unfolding h by (rule watcher_in_order [OF system_routers.start w(2) total ok _ known]) simp
  from system_keeps_routers [OF address_router.router_identity_axioms total p example_main_simps(1) _ reach] p reach
  show ?thesis by auto
qed

end
