(* ===== verification/Table_Counts.thy ===== *)
theory Table_Counts
  imports Table_Kinds
begin

text \<open>
  Counting. The table keeps no counters: \<open>HTTPAssociationsCount\<close> and its siblings multiply routes and
  endpoints entry by entry, while the emitters count what the periodic emission really contains. The lemmas
  show that both agree as long as no entry lists a route twice, and that the product is the larger number
  otherwise.
\<close>

section \<open>The size of a nested map\<close>

definition nested_keys :: "'m nested \<Rightarrow> (route_hash \<times> Endpoint) list" where
  "nested_keys m = concat (map (\<lambda>(rh, es). map (\<lambda>(c, x). (rh, c)) es) m)"

lemma length_nested_keys: "length (nested_keys m) = length (nested_items m)"
  by (induction m) (auto simp: nested_keys_def nested_items_def)

lemma set_nested_keys:
  assumes "nwf m"
  shows "(rh, c) \<in> set (nested_keys m) \<longleftrightarrow> nget m rh c \<noteq> None"
proof -
  have "(rh, c) \<in> set (nested_keys m) \<longleftrightarrow> (\<exists>es x. (rh, es) \<in> set m \<and> (c, x) \<in> set es)"
    by (force simp: nested_keys_def)
  also have "\<dots> \<longleftrightarrow> (\<exists>es x. go_get m rh = Some es \<and> go_get es c = Some x)"
    using assms by (metis gm.items_get nwf_def)
  also have "\<dots> \<longleftrightarrow> nget m rh c \<noteq> None" by (auto simp: nget_def split: option.splits)
  finally show ?thesis .
qed

lemma distinct_nested_keys:
  assumes "nwf m"
  shows "distinct (nested_keys m)"
proof -
  have inner: "distinct (map fst es)" if "(rh, es) \<in> set m" for rh es
    using assms that by (metis gm.items_get nwf_def go_wf_def)
  have outer: "distinct (map fst m)" using assms by (simp add: nwf_def go_wf_def)
  have "distinct (map fst xs) \<Longrightarrow> (\<And>rh es. (rh, es) \<in> set xs \<Longrightarrow> distinct (map fst es)) \<Longrightarrow> distinct (nested_keys xs)"
    for xs :: "'a nested"
  proof (induction xs)
    case (Cons p xs)
    obtain rh es where p: "p = (rh, es)" by (cases p)
    have "distinct (map (\<lambda>(c, x). (rh, c)) es)"
      using Cons.prems(2) [of rh es] by (fastforce simp: p distinct_map inj_on_def)
    moreover have "(rh, c) \<notin> set (nested_keys xs)" for c
      using Cons.prems(1) by (force simp: p nested_keys_def)
    ultimately show ?case using Cons by (force simp: p nested_keys_def)
  qed (simp add: nested_keys_def)
  with inner outer show ?thesis by blast
qed

lemma length_nested_items:
  assumes "nwf m"
  shows "length (nested_items m) = card {(rh, c). nget m rh c \<noteq> None}"
proof -
  have "{(rh, c). nget m rh c \<noteq> None} = set (nested_keys m)" using set_nested_keys [OF assms] by auto
  then show ?thesis using distinct_nested_keys [OF assms] by (simp add: distinct_card length_nested_keys)
qed

section \<open>The size of the emission of an entry\<close>

lemma new_entry_registrations:
  "nget (registrations_for (diffRoutes [] a) (diffEndpoints [] es)) h e \<noteq> None \<longleftrightarrow>
     h \<in> Hash ` set a \<and> e \<in> set (go_values es)"
proof -
  have added: "set (go_values (ed_added (diffEndpoints [] es))) \<subseteq> set (go_values es)"
  proof
    fix e assume "e \<in> set (go_values (ed_added (diffEndpoints [] es)))"
    then obtain k where "go_get (diff_loop [] es []) k = Some e"
      by (auto simp: diffEndpoints_loops go_values_def simp flip: gm.items_get)
    then show "e \<in> set (go_values es)" by (force simp: go_values_def dest: diff_loop_sound)
  qed
  have "Hash ` set (rd_added (diffRoutes [] a)) = Hash ` set a" by (simp add: diffRoutes_added)
  with added show ?thesis
    unfolding registrations_for_flat nget_record_list_dom by (auto simp: image_iff) (metis imageE image_eqI)+
qed

lemma entry_values_distinct: "wf_entry en \<Longrightarrow> distinct (go_values (re_Endpoints en))"
proof -
  assume "wf_entry en"
  then have "map endpoint_key (go_values (re_Endpoints en)) = map fst (re_Endpoints en)" "distinct (map fst (re_Endpoints en))"
    by (auto simp: wf_entry_def list_all_iff go_values_def go_wf_def)
  then show ?thesis by (metis distinct_map)
qed

lemma new_entry_items:
  assumes "wf_entry en"
  shows "length (nested_items (registrations_for (diffRoutes [] (re_Routes en)) (diffEndpoints [] (re_Endpoints en)))) =
    card (Hash ` set (re_Routes en)) * length (re_Endpoints en)"
proof -
  let ?regs = "registrations_for (diffRoutes [] (re_Routes en)) (diffEndpoints [] (re_Endpoints en))"
  have "{(h, e). nget ?regs h e \<noteq> None} = Hash ` set (re_Routes en) \<times> set (go_values (re_Endpoints en))"
    unfolding new_entry_registrations by auto
  moreover have "nwf ?regs" by (simp add: registrations_for_flat)
  moreover have "card (set (go_values (re_Endpoints en))) = length (re_Endpoints en)"
    using distinct_card [OF entry_values_distinct [OF assms]] by (simp add: go_values_def)
  ultimately show ?thesis by (simp add: length_nested_items card_cartesian_product)
qed

text \<open>
  A route yields one message of its own kind, with one host name when it is an HTTP route and two when it is
  internal.
\<close>

lemma registration_counts:
  fixes L :: "(Endpoint \<times> registrationMetadata) list" and d :: bool
  defines "ms \<equiv> map (\<lambda>(e, m). MessageFor (rmd_route m) e d (rmd_emitEndpointUpdatedAt m)) L"
  shows "\<forall>(e, m) \<in> set L. is_http (rmd_route m) \<Longrightarrow>
      sum_list (map (\<lambda>x. length (rm_URIs x)) (List.map_filter (\<lambda>(msg, mapping, internalMsg). msg) ms)) = length L \<and>
      List.map_filter (\<lambda>(msg, mapping, internalMsg). mapping) ms = []"
    and "\<forall>(e, m) \<in> set L. is_tcp (rmd_route m) \<Longrightarrow>
      length (List.map_filter (\<lambda>(msg, mapping, internalMsg). mapping) ms) = length L \<and>
      List.map_filter (\<lambda>(msg, mapping, internalMsg). msg) ms = []"
    and "\<forall>(e, m) \<in> set L. is_internal (rmd_route m) \<Longrightarrow>
      sum_list (map (\<lambda>x. length (rm_URIs x)) (List.map_filter (\<lambda>(msg, mapping, internalMsg). internalMsg) ms)) = 2 * length L"
proof -
  have "length (rm_URIs (Route_MessageFor r e d f)) = 1" for r e f
    by (simp add: Route_MessageFor_def RegistryMessageFor_def InternalAddressRegistryMessageFor_def)
  then show "\<forall>(e, m) \<in> set L. is_http (rmd_route m) \<Longrightarrow>
      sum_list (map (\<lambda>x. length (rm_URIs x)) (List.map_filter (\<lambda>(msg, mapping, internalMsg). msg) ms)) = length L \<and>
      List.map_filter (\<lambda>(msg, mapping, internalMsg). mapping) ms = []"
    unfolding ms_def by (induction L) (auto simp: List.map_filter_simps elim!: is_http.elims(2))
  show "\<forall>(e, m) \<in> set L. is_tcp (rmd_route m) \<Longrightarrow>
      length (List.map_filter (\<lambda>(msg, mapping, internalMsg). mapping) ms) = length L \<and>
      List.map_filter (\<lambda>(msg, mapping, internalMsg). msg) ms = []"
    unfolding ms_def by (induction L) (auto simp: List.map_filter_simps elim!: is_tcp.elims(2))
  have "length (rm_URIs (InternalEndpointRegistryMessageFor e r f)) = 2" for r e f
    by (simp add: InternalEndpointRegistryMessageFor_def)
  then show "\<forall>(e, m) \<in> set L. is_internal (rmd_route m) \<Longrightarrow>
      sum_list (map (\<lambda>x. length (rm_URIs x)) (List.map_filter (\<lambda>(msg, mapping, internalMsg). internalMsg) ms)) = 2 * length L"
    unfolding ms_def by (induction L) (auto simp: List.map_filter_simps elim!: is_internal.elims(2))
qed

text \<open>The number of different pairs of route and endpoint record of an entry.\<close>

definition entry_pairs :: "RoutableEndpoints \<Rightarrow> nat" where
  "entry_pairs en = card (Hash ` set (re_Routes en)) * length (re_Endpoints en)"

lemma new_entry_counts:
  fixes d en
  defines "m \<equiv> fst (emitDiffMessages d zero_entry en)" and "msgs \<equiv> fst (snd (emitDiffMessages d zero_entry en))"
  assumes "wf_entry en"
  shows "list_all is_http (re_Routes en) \<Longrightarrow>
      sum_list (map (\<lambda>x. length (rm_URIs x)) (RegistrationMessages msgs)) = entry_pairs en \<and> Registrations m = []"
    and "list_all is_tcp (re_Routes en) \<Longrightarrow> length (Registrations m) = entry_pairs en \<and> RegistrationMessages msgs = []"
    and "list_all is_internal (re_Routes en) \<Longrightarrow>
      sum_list (map (\<lambda>x. length (rm_URIs x)) (InternalRegistrationMessages msgs)) = 2 * entry_pairs en"
proof -
  let ?L = "nested_items (registrations_for (diffRoutes [] (re_Routes en)) (diffEndpoints [] (re_Endpoints en)))"
  let ?ms = "map (\<lambda>(e, m). MessageFor (rmd_route m) e d (rmd_emitEndpointUpdatedAt m)) ?L"
  have out: "RegistrationMessages msgs = List.map_filter (\<lambda>(msg, mapping, internalMsg). msg) ?ms"
    "InternalRegistrationMessages msgs = List.map_filter (\<lambda>(msg, mapping, internalMsg). internalMsg) ?ms"
    "Registrations m = List.map_filter (\<lambda>(msg, mapping, internalMsg). mapping) ?ms"
    by (simp_all add: m_def msgs_def emitDiffMessages_def messages_def Let_def)
  have len: "length ?L = entry_pairs en" by (simp add: new_entry_items [OF assms(3)] entry_pairs_def)
  have "rmd_route r \<in> set (re_Routes en)" if "(e, r) \<in> set ?L" for e r
  proof -
    have nwf: "nwf (registrations_for (diffRoutes [] (re_Routes en)) (diffEndpoints [] (re_Endpoints en)))"
      by (simp add: registrations_for_flat)
    from that nested_items_iff [OF nwf] obtain h where
      "nget (registrations_for (diffRoutes [] (re_Routes en)) (diffEndpoints [] (re_Endpoints en))) h e = Some r" by blast
    then show ?thesis
      unfolding registrations_for_flat using diffRoutes_added(1) by (fastforce dest!: nget_record_list_Some)
  qed
  then have all: "\<forall>(e, r) \<in> set ?L. P (rmd_route r)" if "list_all P (re_Routes en)" for P
    using that by (auto simp: list_all_iff)
  show "list_all is_http (re_Routes en) \<Longrightarrow>
      sum_list (map (\<lambda>x. length (rm_URIs x)) (RegistrationMessages msgs)) = entry_pairs en \<and> Registrations m = []"
    unfolding out len [symmetric] using registration_counts(1) [OF all] by blast
  show "list_all is_tcp (re_Routes en) \<Longrightarrow> length (Registrations m) = entry_pairs en \<and> RegistrationMessages msgs = []"
    unfolding out len [symmetric] using registration_counts(2) [OF all] by blast
  show "list_all is_internal (re_Routes en) \<Longrightarrow>
      sum_list (map (\<lambda>x. length (rm_URIs x)) (InternalRegistrationMessages msgs)) = 2 * entry_pairs en"
    unfolding out len [symmetric] using registration_counts(3) [OF all] by blast
qed

section \<open>The size of the periodic emission\<close>

lemma emission_sel:
  "fst (merge_emission a b) = TCPRouteMappings_Merge (fst a) (fst b)"
  "fst (snd (merge_emission a b)) = MessagesToEmit_Merge (fst (snd a)) (fst (snd b))"
  "fst no_emission = no_mappings" "fst (snd no_emission) = no_messages"
  by (simp_all add: merge_emission_def no_emission_def split: prod.splits)

lemma fold_events_sum:
  fixes f :: "emission \<Rightarrow> nat"
  assumes "\<And>a b. f (merge_emission a b) = f a + f b"
  shows "f (fold (get_events_step t) xs acc) =
    f acc + sum_list (map (\<lambda>(k, en). f (emitDiffMessages (it_directInstanceRoute t) zero_entry en)) xs)"
  by (induction xs arbitrary: acc) (auto simp: get_events_step_def assms)

lemma Internal_AssociationsCount_sum:
  "Internal_AssociationsCount t = sum_list (map (\<lambda>(k, en). length (re_Routes en) * length (re_Endpoints en)) (it_entries t))"
proof -
  have "fold (\<lambda>(k, en) n. n + length (re_Routes en) * length (re_Endpoints en)) xs n =
      n + sum_list (map (\<lambda>(k, en). length (re_Routes en) * length (re_Endpoints en)) xs)"
    for xs :: "(RoutingKey \<times> RoutableEndpoints) list" and n
    by (induction xs arbitrary: n) auto
  then show ?thesis by (simp add: Internal_AssociationsCount_def)
qed

lemma sum_list_twice: "(\<Sum>(k, en)\<leftarrow>xs. 2 * f en) = 2 * (\<Sum>(k, en)\<leftarrow>xs. f en :: nat)"
  by (induction xs) auto

text \<open>The number of different pairs of a table.\<close>

definition table_pairs :: "internalRoutingTable \<Rightarrow> nat" where
  "table_pairs t = sum_list (map (\<lambda>(k, en). entry_pairs en) (it_entries t))"

definition no_repeated_routes :: "internalRoutingTable \<Rightarrow> bool" where
  "no_repeated_routes t = list_all (\<lambda>(k, en). distinct (map Hash (re_Routes en))) (it_entries t)"

lemma table_pairs_le: "table_pairs t \<le> Internal_AssociationsCount t"
proof -
  have "card (Hash ` set rs) \<le> length rs" for rs
    by (metis card_length length_map list.set_map)
  then show ?thesis
    unfolding table_pairs_def Internal_AssociationsCount_sum
    by (intro sum_list_mono) (auto simp: entry_pairs_def)
qed

lemma table_pairs_eq:
  assumes "no_repeated_routes t"
  shows "table_pairs t = Internal_AssociationsCount t"
proof -
  have "card (Hash ` set rs) = length rs" if "distinct (map Hash rs)" for rs
    using distinct_card [OF that] by simp
  with assms show ?thesis
    unfolding table_pairs_def Internal_AssociationsCount_sum no_repeated_routes_def list_all_iff
    by (intro arg_cong [where f = sum_list] map_cong) (auto simp: entry_pairs_def)
qed

lemma Internal_GetRoutingEvents_counts:
  assumes "wf_table t" "Internal_GetRoutingEvents t = (m, msgs)"
  shows "routes_all is_http t \<Longrightarrow>
      sum_list (map (\<lambda>x. length (rm_URIs x)) (RegistrationMessages msgs)) = table_pairs t \<and> length (Registrations m) = 0"
    and "routes_all is_tcp t \<Longrightarrow> length (Registrations m) = table_pairs t \<and> length (RegistrationMessages msgs) = 0"
    and "routes_all is_internal t \<Longrightarrow>
      sum_list (map (\<lambda>x. length (rm_URIs x)) (InternalRegistrationMessages msgs)) = 2 * table_pairs t"
proof -
  obtain c where fold: "fold (get_events_step t) (it_entries t) no_emission = (m, msgs, c)"
    using assms(2) by (auto simp: Internal_GetRoutingEvents_def split: prod.splits)
  have entry: "wf_entry en \<and> re_Routes en = re_Routes (entry_at t k)" if "(k, en) \<in> set (it_entries t)" for k en
    using assms(1) that wf_table_entry [OF assms(1), of k] by (auto simp: wf_table_wf gm.items_get entry_at_def)
  have sum: "f (m, msgs, c) = sum_list (map (\<lambda>(k, en). g en) (it_entries t))"
    if add: "\<And>a b. f (merge_emission a b) = f a + f b" and zero: "f no_emission = 0"
      and one: "\<And>k en. (k, en) \<in> set (it_entries t) \<Longrightarrow> f (emitDiffMessages (it_directInstanceRoute t) zero_entry en) = g en"
    for f :: "emission \<Rightarrow> nat" and g
  proof -
    have "f (m, msgs, c) = sum_list (map (\<lambda>(k, en). f (emitDiffMessages (it_directInstanceRoute t) zero_entry en)) (it_entries t))"
      using fold_events_sum [of f t "it_entries t" no_emission, OF add] fold zero by simp
    with one show ?thesis by (auto intro!: arg_cong [where f = sum_list] map_cong)
  qed
  let ?uris = "\<lambda>ms. sum_list (map (\<lambda>x. length (rm_URIs x)) ms)"
  have part: "list_all P (re_Routes en)" if "routes_all P t" "(k, en) \<in> set (it_entries t)" for P k en
    using that entry by (metis routes_all_def)
  note counts = new_entry_counts [OF conjunct1 [OF entry]]
  have tcp: "length (Registrations m) = sum_list (map (\<lambda>(k, en). g en) (it_entries t))"
    if "\<And>k en. (k, en) \<in> set (it_entries t) \<Longrightarrow>
      length (Registrations (fst (emitDiffMessages (it_directInstanceRoute t) zero_entry en))) = g en" for g
    using sum [of "\<lambda>x. length (Registrations (fst x))" g] that by (simp add: emission_sel)
  have http: "?uris (RegistrationMessages msgs) = sum_list (map (\<lambda>(k, en). g en) (it_entries t))"
    if "\<And>k en. (k, en) \<in> set (it_entries t) \<Longrightarrow>
      ?uris (RegistrationMessages (fst (snd (emitDiffMessages (it_directInstanceRoute t) zero_entry en)))) = g en" for g
    using sum [of "\<lambda>x. ?uris (RegistrationMessages (fst (snd x)))" g] that by (simp add: emission_sel)
  have some: "length (RegistrationMessages msgs) = sum_list (map (\<lambda>(k, en). g en) (it_entries t))"
    if "\<And>k en. (k, en) \<in> set (it_entries t) \<Longrightarrow>
      length (RegistrationMessages (fst (snd (emitDiffMessages (it_directInstanceRoute t) zero_entry en)))) = g en" for g
    using sum [of "\<lambda>x. length (RegistrationMessages (fst (snd x)))" g] that by (simp add: emission_sel)
  have internal: "?uris (InternalRegistrationMessages msgs) = sum_list (map (\<lambda>(k, en). g en) (it_entries t))"
    if "\<And>k en. (k, en) \<in> set (it_entries t) \<Longrightarrow>
      ?uris (InternalRegistrationMessages (fst (snd (emitDiffMessages (it_directInstanceRoute t) zero_entry en)))) = g en" for g
    using sum [of "\<lambda>x. ?uris (InternalRegistrationMessages (fst (snd x)))" g] that by (simp add: emission_sel)
  show "?uris (RegistrationMessages msgs) = table_pairs t \<and> length (Registrations m) = 0" if "routes_all is_http t"
    using http [of entry_pairs] tcp [of "\<lambda>_. 0"] counts(1) part [OF that] by (simp add: table_pairs_def)
  show "length (Registrations m) = table_pairs t \<and> length (RegistrationMessages msgs) = 0" if "routes_all is_tcp t"
    using some [of "\<lambda>_. 0"] tcp [of entry_pairs] counts(2) part [OF that] by (simp add: table_pairs_def)
  show "?uris (InternalRegistrationMessages msgs) = 2 * table_pairs t" if "routes_all is_internal t"
    using internal [of "\<lambda>en. 2 * entry_pairs en"] counts(3) part [OF that]
    by (simp add: table_pairs_def sum_list_twice)
qed

lemma emission_counts:
  assumes "wf_routing_table E tls t" "kinds_ok t"
  shows "sum_list (map (\<lambda>x. length (rm_URIs x)) (RegistrationMessages (snd (GetExternalRoutingEvents t)))) =
      table_pairs (httpRoutesRoutingTable t)"
    "length (Registrations (fst (GetExternalRoutingEvents t))) = table_pairs (tcpRoutesRoutingTable t)"
    "sum_list (map (\<lambda>x. length (rm_URIs x)) (InternalRegistrationMessages (snd (GetInternalRoutingEvents t)))) =
      2 * table_pairs (internalRoutesRoutingTable t)"
proof -
  obtain hm hs where h: "Internal_GetRoutingEvents (httpRoutesRoutingTable t) = (hm, hs)" by (metis surj_pair)
  obtain tm ts where tc: "Internal_GetRoutingEvents (tcpRoutesRoutingTable t) = (tm, ts)" by (metis surj_pair)
  obtain im ins where i: "Internal_GetRoutingEvents (internalRoutesRoutingTable t) = (im, ins)" by (metis surj_pair)
  note wf = wf_routing_table_tables [OF assms(1)]
  note kinds = assms(2) [unfolded kinds_ok_def]
  have http: "sum_list (map (\<lambda>x. length (rm_URIs x)) (RegistrationMessages hs)) = table_pairs (httpRoutesRoutingTable t)"
    "length (Registrations hm) = 0"
    using Internal_GetRoutingEvents_counts(1) [OF _ h] wf kinds by blast+
  have tcp: "length (Registrations tm) = table_pairs (tcpRoutesRoutingTable t)" "length (RegistrationMessages ts) = 0"
    using Internal_GetRoutingEvents_counts(2) [OF _ tc] wf kinds by blast+
  show "sum_list (map (\<lambda>x. length (rm_URIs x)) (InternalRegistrationMessages (snd (GetInternalRoutingEvents t)))) =
      2 * table_pairs (internalRoutesRoutingTable t)"
    using Internal_GetRoutingEvents_counts(3) [OF _ i] wf kinds by (simp add: GetInternalRoutingEvents_def i)
  show "sum_list (map (\<lambda>x. length (rm_URIs x)) (RegistrationMessages (snd (GetExternalRoutingEvents t)))) =
      table_pairs (httpRoutesRoutingTable t)"
    "length (Registrations (fst (GetExternalRoutingEvents t))) = table_pairs (tcpRoutesRoutingTable t)"
    using http tcp by (simp_all add: GetExternalRoutingEvents_def h tc)
qed



end
