(* ===== verification/Log_Data.thy ===== *)
theory Log_Data
  imports Routing_Table_Correct
begin

text \<open>
  What the routing table writes to the log: the data of \<open>routingtable/lrp_utils.go\<close> and the lines of the four
  operations of \<open>routingTable\<close> that change it. The names of the routers are constants of \<open>routing-info\<close>, so they
  are the parameter \<open>router_names\<close>. A raw message that the routing info does not have is a nil pointer, \<open>None\<close>.
  The lemmas show that nothing is emitted without a line in the log and that a line shows no more of a desired
  LRP than its identity and its routes.
\<close>

section \<open>Log data\<close>

record router_names =
  CF_ROUTER :: string
  TCP_ROUTER :: string
  INTERNAL_ROUTER :: string

datatype log_value =
    LogString string
  | LogInt32 int32
  | LogBool bool
  | LogRoutes "(string, string option) gomap"
  | LogPorts "PortMapping option list"
  | LogState LRPState
  | LogData "(string, log_value) gomap"

type_synonym Data = "(string, log_value) gomap"

definition log_routes :: "router_names \<Rightarrow> Routes \<Rightarrow> (string, string option) gomap" where
  "log_routes N routes =
     (let logRoutes = go_put [] (CF_ROUTER N) (go_get routes (CF_ROUTER N));
          logRoutes = go_put logRoutes (TCP_ROUTER N) (go_get routes (TCP_ROUTER N)) in
      go_put logRoutes (INTERNAL_ROUTER N) (go_get routes (INTERNAL_ROUTER N)))"

definition DesiredLRPData :: "router_names \<Rightarrow> DesiredLRP option \<Rightarrow> Data" where
  "DesiredLRPData N lrp =
     (case lrp of
        None \<Rightarrow> []
      | Some l \<Rightarrow>
          (case dl_Routes l of
             None \<Rightarrow> []
           | Some routes \<Rightarrow>
               [(''process-guid'', LogString (dl_ProcessGuid l)),
                (''routes'', LogRoutes (log_routes N routes)),
                (''domain'', LogString (dl_Domain l)),
                (''instances'', LogInt32 (dl_Instances l))]))"

definition ActualLRPData :: "ActualLRP \<Rightarrow> Data" where
  "ActualLRPData actualLRP =
     [(''process-guid'', LogString (al_ProcessGuid actualLRP)),
      (''index'', LogInt32 (al_Index actualLRP)),
      (''domain'', LogString (al_Domain actualLRP)),
      (''instance-guid'', LogString (al_InstanceGuid actualLRP)),
      (''cell-id'', LogString (al_CellId actualLRP)),
      (''address'', LogString (al_Address actualLRP)),
      (''ports'', LogPorts (al_Ports actualLRP)),
      (''evacuating'', LogBool (al_Presence actualLRP = ActualLRP_Evacuating)),
      (''state'', LogState (al_State actualLRP))]"

section \<open>The lines of the table's operations\<close>

definition AddEndpoint_log :: "bbs_env \<Rightarrow> routingTable \<Rightarrow> ActualLRP \<Rightarrow> (string \<times> Data) list" where
  "AddEndpoint_log E table actualLRP =
     (let ((_, _, _, httpChanged), _) = Internal_AddEndpoint E (httpRoutesRoutingTable table) actualLRP;
          ((_, _, _, tcpChanged), _) = Internal_AddEndpoint E (tcpRoutesRoutingTable table) actualLRP;
          ((_, _, _, internalChanged), _) = Internal_AddEndpoint E (internalRoutesRoutingTable table) actualLRP in
      if httpChanged \<or> tcpChanged \<or> internalChanged then [(''added'', ActualLRPData actualLRP)] else [])"

definition RemoveEndpoint_log :: "bbs_env \<Rightarrow> routingTable \<Rightarrow> ActualLRP \<Rightarrow> (string \<times> Data) list" where
  "RemoveEndpoint_log E table actualLRP =
     (let (_, _, _, httpChanged) = Internal_RemoveEndpoint E (httpRoutesRoutingTable table) actualLRP;
          (_, _, _, tcpChanged) = Internal_RemoveEndpoint E (tcpRoutesRoutingTable table) actualLRP;
          (_, _, _, internalChanged) = Internal_RemoveEndpoint E (internalRoutesRoutingTable table) actualLRP in
      if httpChanged \<or> tcpChanged \<or> internalChanged then [(''removed'', ActualLRPData actualLRP)] else [])"

definition SetRoutes_log :: "bbs_env \<Rightarrow> router_names \<Rightarrow> routingTable \<Rightarrow> DesiredLRP option \<Rightarrow> DesiredLRP option \<Rightarrow>
    (string \<times> Data) list" where
  "SetRoutes_log E N t before after =
     (let (_, _, _, httpChanged) = Internal_SetRoutes E (httpRoutesRoutingTable t) before after;
          (_, _, _, tcpChanged) = Internal_SetRoutes E (tcpRoutesRoutingTable t) before after;
          (_, _, _, internalChanged) = Internal_SetRoutes E (internalRoutesRoutingTable t) before after in
      if httpChanged \<or> tcpChanged \<or> internalChanged
      then [(''set-routes'', [(''before'', LogData (DesiredLRPData N before)), (''after'', LogData (DesiredLRPData N after))])]
      else [])"

definition RemoveRoutes_log :: "bbs_env \<Rightarrow> router_names \<Rightarrow> routingTable \<Rightarrow> DesiredLRP option \<Rightarrow> (string \<times> Data) list" where
  "RemoveRoutes_log E N t desiredLRP =
     (let (_, _, _, httpChanged) = Internal_RemoveRoutes E (httpRoutesRoutingTable t) desiredLRP;
          (_, _, _, tcpChanged) = Internal_RemoveRoutes E (tcpRoutesRoutingTable t) desiredLRP;
          (_, _, _, internalChanged) = Internal_RemoveRoutes E (internalRoutesRoutingTable t) desiredLRP in
      if httpChanged \<or> tcpChanged \<or> internalChanged
      then [(''remove-routes'', DesiredLRPData N desiredLRP)] else [])"

section \<open>A change that is not reported emits nothing\<close>

definition reported :: "emission \<Rightarrow> bool" where
  "reported x = (snd (snd x) \<or> x = no_emission)"

lemma reported_merge: "reported a \<Longrightarrow> reported b \<Longrightarrow> reported (merge_emission a b)"
  by (auto simp: reported_def merge_emission_def no_emission_def split: prod.splits)

lemma reported_diff: "reported (emitDiffMessages d old new)"
proof -
  let ?rd = "diffRoutes (re_Routes old) (re_Routes new)" and ?ed = "diffEndpoints (re_Endpoints old) (re_Endpoints new)"
  have "messages d ?rd ?ed = (no_mappings, no_messages)"
    if "rd_added ?rd = []" "rd_removed ?rd = []" "ed_added ?ed = []" "ed_removed ?ed = []"
  proof -
    have "registrations_for ?rd ?ed = []" "unregistrations_for ?rd ?ed = []"
      unfolding registrations_for_def unregistrations_for_def that by (simp_all add: go_values_def)
    then show ?thesis
      by (simp add: messages_def nested_items_def no_mappings_def no_messages_def List.map_filter_simps)
  qed
  then show ?thesis
    by (auto simp: emitDiffMessages_def Let_def reported_def no_emission_def split: prod.splits)
qed

lemma reported_fold:
  assumes "\<And>x s. reported (snd s) \<Longrightarrow> reported (snd (f x s))" "reported (snd s)"
  shows "reported (snd (fold f xs s))"
  using assms(2) by (induction xs arbitrary: s) (simp_all add: assms(1))

lemma reported_none [simp]: "reported no_emission"
  by (simp add: reported_def)

lemmas reported_step = reported_merge [OF _ reported_diff]

lemma Internal_AddEndpoint_reported: "reported (snd (fst (Internal_AddEndpoint E t a)))"
  by (auto simp: Internal_AddEndpoint_def add_endpoint_step_def Let_def split: prod.splits
      intro!: reported_fold reported_step)

lemma Internal_RemoveEndpoint_reported: "reported (snd (Internal_RemoveEndpoint E t a))"
  by (auto simp: Internal_RemoveEndpoint_def remove_endpoint_step_def Let_def split: prod.splits
      intro!: reported_fold reported_step)

lemma Internal_SetRoutes_reported: "reported (snd (Internal_SetRoutes E t before after))"
  by (auto simp: Internal_SetRoutes_def set_routes_step_def remove_routes_step_def Let_def
      split: prod.splits option.splits intro!: reported_fold reported_step)

lemma reported_quiet: "reported (m, msgs, c) \<Longrightarrow> \<not> c \<Longrightarrow> m = no_mappings \<and> msgs = no_messages"
  by (simp add: reported_def no_emission_def)

lemma merge3_quiet: "merge3 (no_mappings, no_messages) (no_mappings, no_messages) (no_mappings, no_messages) = (no_mappings, no_messages)"
  by (simp add: merge3_def)

text \<open>
  C33: whenever an operation of the table returns something to emit it writes a line to the log: an operation
  that writes none returns no message and no mapping.
\<close>

theorem emissions_are_logged:
  "(AddEndpoint_log E t a = [] \<longrightarrow> fst (snd (AddEndpoint E t a)) = (no_mappings, no_messages)) \<and>
   (RemoveEndpoint_log E t a = [] \<longrightarrow> snd (RemoveEndpoint E t a) = (no_mappings, no_messages)) \<and>
   (SetRoutes_log E N t before after = [] \<longrightarrow> snd (SetRoutes E t before after) = (no_mappings, no_messages)) \<and>
   (RemoveRoutes_log E N t before = [] \<longrightarrow> snd (RemoveRoutes E t before) = (no_mappings, no_messages))"
proof (intro conjI impI)
  assume "AddEndpoint_log E t a = []"
  with Internal_AddEndpoint_reported [of E "httpRoutesRoutingTable t" a]
    Internal_AddEndpoint_reported [of E "tcpRoutesRoutingTable t" a]
    Internal_AddEndpoint_reported [of E "internalRoutesRoutingTable t" a]
  show "fst (snd (AddEndpoint E t a)) = (no_mappings, no_messages)"
    by (auto simp: AddEndpoint_def AddEndpoint_log_def Let_def merge3_quiet dest!: reported_quiet split: prod.splits if_splits)
next
  assume "RemoveEndpoint_log E t a = []"
  with Internal_RemoveEndpoint_reported [of E "httpRoutesRoutingTable t" a]
    Internal_RemoveEndpoint_reported [of E "tcpRoutesRoutingTable t" a]
    Internal_RemoveEndpoint_reported [of E "internalRoutesRoutingTable t" a]
  show "snd (RemoveEndpoint E t a) = (no_mappings, no_messages)"
    by (auto simp: RemoveEndpoint_def RemoveEndpoint_log_def Let_def merge3_quiet dest!: reported_quiet split: prod.splits if_splits)
next
  assume "SetRoutes_log E N t before after = []"
  with Internal_SetRoutes_reported [of E "httpRoutesRoutingTable t" before after]
    Internal_SetRoutes_reported [of E "tcpRoutesRoutingTable t" before after]
    Internal_SetRoutes_reported [of E "internalRoutesRoutingTable t" before after]
  show "snd (SetRoutes E t before after) = (no_mappings, no_messages)"
    by (auto simp: SetRoutes_def SetRoutes_log_def Let_def merge3_quiet dest!: reported_quiet split: prod.splits if_splits)
next
  assume "RemoveRoutes_log E N t before = []"
  with Internal_SetRoutes_reported [of E "httpRoutesRoutingTable t" before None]
    Internal_SetRoutes_reported [of E "tcpRoutesRoutingTable t" before None]
    Internal_SetRoutes_reported [of E "internalRoutesRoutingTable t" before None]
  show "snd (RemoveRoutes E t before) = (no_mappings, no_messages)"
    by (auto simp: RemoveRoutes_def RemoveRoutes_log_def Internal_RemoveRoutes_def Let_def merge3_quiet
        dest!: reported_quiet split: prod.splits if_splits)
qed

theorem emissions_are_logged_witness:
  "fst (snd (AddEndpoint example_env example_table (example_actual ''ig1'' 0 ActualLRP_Ordinary 1))) = (no_mappings, no_messages)"
proof -
  have "AddEndpoint_log example_env example_table (example_actual ''ig1'' 0 ActualLRP_Ordinary 1) = []" by code_simp
  then show ?thesis using emissions_are_logged by blast
qed

section \<open>What the log shows\<close>

text \<open>
  The log data of a desired LRP is a function of its process guid, its domain, its number of instances and
  the routing info under the three router names. Whatever else the LRP carries, such as the keys other
  components keep in its routing info, its log guid or its metric tags, does not reach the log. A missing LRP
  and one without routing info give empty data.
\<close>

theorem DesiredLRPData_reveals:
  assumes "dl_ProcessGuid l = dl_ProcessGuid l'" "dl_Domain l = dl_Domain l'" "dl_Instances l = dl_Instances l'"
    and "dl_Routes l = Some r" "dl_Routes l' = Some r'"
    and "\<And>name. name \<in> {CF_ROUTER N, TCP_ROUTER N, INTERNAL_ROUTER N} \<Longrightarrow> go_get r name = go_get r' name"
  shows "DesiredLRPData N (Some l) = DesiredLRPData N (Some l') \<and>
    DesiredLRPData N (Some (l\<lparr>dl_Routes := None\<rparr>)) = [] \<and> DesiredLRPData N None = []"
  using assms by (simp add: DesiredLRPData_def log_routes_def)

theorem DesiredLRPData_reveals_witness:
  "DesiredLRPData \<lparr>CF_ROUTER = ''cf-router'', TCP_ROUTER = ''tcp-router'', INTERNAL_ROUTER = ''internal-router''\<rparr>
     (Some ((example_desired ''h1'' 2 1)\<lparr>dl_Routes := Some [(''diego-ssh'', ''key''), (''cf-router'', ''h1'')]\<rparr>)) =
   [(''process-guid'', LogString ''pg''),
    (''routes'', LogRoutes [(''cf-router'', Some ''h1''), (''tcp-router'', None), (''internal-router'', None)]),
    (''domain'', LogString ''tests''), (''instances'', LogInt32 2)]"
proof -
  let ?N = "\<lparr>CF_ROUTER = ''cf-router'', TCP_ROUTER = ''tcp-router'', INTERNAL_ROUTER = ''internal-router''\<rparr>"
  have "DesiredLRPData ?N (Some (example_desired ''h1'' 2 1)) =
   [(''process-guid'', LogString ''pg''),
    (''routes'', LogRoutes [(''cf-router'', Some ''h1''), (''tcp-router'', None), (''internal-router'', None)]),
    (''domain'', LogString ''tests''), (''instances'', LogInt32 2)]" by code_simp
  moreover have "go_get [(''diego-ssh'', ''key''), (''cf-router'', ''h1'')] name = go_get [(''cf-router'', ''h1'')] name"
    if "name \<in> {CF_ROUTER ?N, TCP_ROUTER ?N, INTERNAL_ROUTER ?N}" for name
    using that by (auto simp: go_get_def)
  ultimately show ?thesis
    using DesiredLRPData_reveals [of "(example_desired ''h1'' 2 1)\<lparr>dl_Routes := Some [(''diego-ssh'', ''key''), (''cf-router'', ''h1'')]\<rparr>"
        "example_desired ''h1'' 2 1" "[(''diego-ssh'', ''key''), (''cf-router'', ''h1'')]" "[(''cf-router'', ''h1'')]" ?N]
    by (simp only: example_desired_def DesiredLRP.simps simp_thms)
qed

end
