(* ===== verification/Matchers.thy ===== *)
theory Matchers
  imports Registry_Message "HOL-Library.Multiset" "HOL-Library.List_Lexorder" "HOL-Library.Char_ord"
begin

text \<open>
  \<open>routingtable/matchers/\<close>: how the tests compare what a table returned with what they expect. Lists of messages
  are compared up to their order and up to the order of the host names in each message, by sorting both and
  comparing position by position. \<open>sort.Sort\<close> is not stable, so the sorting is a parameter of which only
  its contract is used; so is the text \<open>%v\<close> prints for a message, by which the messages are sorted.
  The lemmas show that the comparison is the permutation test it stands for.
\<close>

section \<open>Comparing messages\<close>

text \<open>\<open>reflect.DeepEqual\<close> on messages: maps are equal when they have the same entries.\<close>

definition same_map :: "('k, 'v) gomap \<Rightarrow> ('k, 'v) gomap \<Rightarrow> bool" where
  "same_map m m' = list_all (\<lambda>k. go_get m k = go_get m' k) (go_keys m @ go_keys m')"

definition DeepEqual :: "RegistryMessage \<Rightarrow> RegistryMessage \<Rightarrow> bool" where
  "DeepEqual a b = (a\<lparr>rm_Tags := []\<rparr> = b\<lparr>rm_Tags := []\<rparr> \<and> same_map (rm_Tags a) (rm_Tags b))"

definition sort_URIs :: "RegistryMessage \<Rightarrow> RegistryMessage" where
  "sort_URIs message = message\<lparr>rm_URIs := sort (rm_URIs message)\<rparr>"

definition matchArrs :: "(RegistryMessage list \<Rightarrow> RegistryMessage list) \<Rightarrow> RegistryMessage list \<Rightarrow> RegistryMessage list \<Rightarrow> bool" where
  "matchArrs sort_messages actual expected =
     (if length actual \<noteq> length expected then False
      else (let fixedActual = sort_messages (map sort_URIs actual);
                fixedExpected = sort_messages (map sort_URIs expected) in
            list_all (\<lambda>i. DeepEqual (fixedActual ! i) (fixedExpected ! i)) [0..<length fixedActual]))"

text \<open>
  The matcher. \<open>None\<close> is a value of another type; its error prints \<open>actual\<close>, which is then the zero value,
  with gomega's \<open>format.Object\<close>, a parameter.
\<close>

definition Match :: "(RegistryMessage list \<Rightarrow> RegistryMessage list) \<Rightarrow> (MessagesToEmit \<Rightarrow> nat \<Rightarrow> string) \<Rightarrow> MessagesToEmit \<Rightarrow>
    MessagesToEmit option \<Rightarrow> bool \<times> go_error option" where
  "Match sort_messages format_object expected a =
     (case a of
        None \<Rightarrow> (False, Some (format_object no_messages 1 @ '' is not a routingtable.MessagesToEmit''))
      | Some actual \<Rightarrow>
          (let registrationsMatch = matchArrs sort_messages (RegistrationMessages actual) (RegistrationMessages expected);
               unregistrationsMatch = matchArrs sort_messages (UnregistrationMessages actual) (UnregistrationMessages expected);
               internalRegistrationsMatch =
                 matchArrs sort_messages (InternalRegistrationMessages actual) (InternalRegistrationMessages expected);
               internalUnregistrationsMatch =
                 matchArrs sort_messages (InternalUnregistrationMessages actual) (InternalUnregistrationMessages expected) in
           (registrationsMatch \<and> unregistrationsMatch \<and> internalRegistrationsMatch \<and> internalUnregistrationsMatch, None)))"

text \<open>What gomega prints when the assertion fails; \<open>format.Message\<close> is a parameter.\<close>

definition FailureMessage :: "('a \<Rightarrow> string \<Rightarrow> MessagesToEmit \<Rightarrow> string) \<Rightarrow> MessagesToEmit \<Rightarrow> 'a \<Rightarrow> string" where
  "FailureMessage format_message expected actual = format_message actual ''to match'' expected"

definition NegatedFailureMessage :: "('a \<Rightarrow> string \<Rightarrow> MessagesToEmit \<Rightarrow> string) \<Rightarrow> MessagesToEmit \<Rightarrow> 'a \<Rightarrow> string" where
  "NegatedFailureMessage format_message expected actual = format_message actual ''not to match'' expected"

text \<open>The type \<open>sort.Sort\<close> works on, \<open>None\<close> for an index out of range.\<close>

definition ByMessage_Len :: "RegistryMessage list \<Rightarrow> nat" where
  "ByMessage_Len a = length a"

definition ByMessage_Swap :: "nat \<Rightarrow> nat \<Rightarrow> RegistryMessage list \<Rightarrow> RegistryMessage list option" where
  "ByMessage_Swap i j a = (if i < length a \<and> j < length a then Some (a[i := a ! j, j := a ! i]) else None)"

definition ByMessage_Less :: "(RegistryMessage \<Rightarrow> string) \<Rightarrow> nat \<Rightarrow> nat \<Rightarrow> RegistryMessage list \<Rightarrow> bool option" where
  "ByMessage_Less shown i j a = (if i < length a \<and> j < length a then Some (shown (a ! i) < shown (a ! j)) else None)"

section \<open>The comparison is a permutation test\<close>

text \<open>The contract of \<open>sort.Sort\<close> on a list: a permutation in which no element is before a smaller one.\<close>

definition sorted_by :: "(RegistryMessage \<Rightarrow> string) \<Rightarrow> (RegistryMessage list \<Rightarrow> RegistryMessage list) \<Rightarrow> RegistryMessage list \<Rightarrow> bool" where
  "sorted_by shown sort_messages xs = (mset (sort_messages xs) = mset xs \<and> sorted (map shown (sort_messages xs)))"

text \<open>
  That is what \<open>sort.Sort\<close> promises of \<open>ByMessage\<close>: no element is less than one before it, and every exchange keeps
  the elements.
\<close>

lemma sorted_ByMessage:
  "sorted (map shown a) \<longleftrightarrow> (\<forall>j < ByMessage_Len a. \<forall>i < j. ByMessage_Less shown j i a = Some False)"
  by (auto simp: sorted_iff_nth_mono_less ByMessage_Len_def ByMessage_Less_def linorder_not_less)

lemma ByMessage_Swap_mset: "ByMessage_Swap i j a = Some a' \<Longrightarrow> mset a' = mset a"
  by (auto simp: ByMessage_Swap_def mset_swap split: if_splits)

text \<open>The reference: equal but for the order of the host names, and a pairing of the two lists.\<close>

definition same_message :: "RegistryMessage \<Rightarrow> RegistryMessage \<Rightarrow> bool" where
  "same_message a b = (mset (rm_URIs a) = mset (rm_URIs b) \<and> DeepEqual (a\<lparr>rm_URIs := []\<rparr>) (b\<lparr>rm_URIs := []\<rparr>))"

definition same_messages :: "RegistryMessage list \<Rightarrow> RegistryMessage list \<Rightarrow> bool" where
  "same_messages xs ys = (\<exists>zs. mset zs = mset ys \<and> list_all2 same_message xs zs)"

lemma sort_eq_iff: "sort xs = sort ys \<longleftrightarrow> mset xs = mset ys"
  by (metis mset_sort properties_for_sort sorted_sort)

lemma same_message_sorted: "same_message a b \<longleftrightarrow> DeepEqual (sort_URIs a) (sort_URIs b)"
  by (cases a; cases b) (auto simp: same_message_def DeepEqual_def sort_URIs_def sort_eq_iff)

lemma reorder_map:
  assumes "mset ys = mset (map f es)"
  shows "\<exists>zs. mset zs = mset es \<and> ys = map f zs"
proof -
  have "list_all2 (\<lambda>y e. y = f e) (map f es) es" by (simp add: list_all2_conv_all_nth)
  from list_all2_reorder_left_invariance [OF this assms]
  obtain zs where "list_all2 (\<lambda>y e. y = f e) ys zs" "mset zs = mset es" by blast
  moreover from this(1) have "ys = map f zs" by (simp add: list_all2_conv_all_nth list_eq_iff_nth_eq)
  ultimately show ?thesis by blast
qed

lemma matchArrs_sorted:
  assumes "sorted_by shown sort_messages (map sort_URIs actual)" "sorted_by shown sort_messages (map sort_URIs expected)"
  shows "matchArrs sort_messages actual expected \<longleftrightarrow>
    list_all2 DeepEqual (sort_messages (map sort_URIs actual)) (sort_messages (map sort_URIs expected))"
proof -
  have "length (sort_messages (map sort_URIs actual)) = length actual" "length (sort_messages (map sort_URIs expected)) = length expected"
    using assms by (metis length_map size_mset sorted_by_def)+
  then show ?thesis
    by (auto simp: matchArrs_def Let_def list_all2_conv_all_nth list_all_iff)
qed

lemma matchArrs_sound:
  assumes "sorted_by shown sort_messages (map sort_URIs actual)" "sorted_by shown sort_messages (map sort_URIs expected)"
    and "matchArrs sort_messages actual expected"
  shows "same_messages actual expected"
proof -
  let ?a = "map sort_URIs actual" and ?e = "map sort_URIs expected"
  have perm: "mset (sort_messages ?a) = mset ?a" "mset (sort_messages ?e) = mset ?e"
    using assms(1,2) by (simp_all add: sorted_by_def)
  from list_all2_reorder_left_invariance [OF assms(3) [unfolded matchArrs_sorted [OF assms(1,2)]] perm(1) [symmetric]]
  obtain ys where ys: "list_all2 DeepEqual ?a ys" "mset ys = mset ?e" using perm(2) by auto
  from reorder_map [OF ys(2)] obtain zs where "mset zs = mset expected" "ys = map sort_URIs zs" by blast
  with ys(1) show ?thesis
    unfolding same_messages_def by (auto simp: list_all2_map1 list_all2_map2 same_message_sorted [abs_def])
qed

lemma matchArrs_complete:
  assumes "sorted_by shown sort_messages (map sort_URIs actual)" "sorted_by shown sort_messages (map sort_URIs expected)"
    and shown: "\<And>a b. a \<in> sort_URIs ` set actual \<Longrightarrow> b \<in> sort_URIs ` set expected \<Longrightarrow> shown a = shown b \<longleftrightarrow> DeepEqual a b"
    and "same_messages actual expected"
  shows "matchArrs sort_messages actual expected"
proof -
  let ?a = "map sort_URIs actual" and ?e = "map sort_URIs expected"
  have perm: "mset (sort_messages ?a) = mset ?a" "mset (sort_messages ?e) = mset ?e"
    and sorted: "sorted (map shown (sort_messages ?a))" "sorted (map shown (sort_messages ?e))"
    using assms(1,2) by (simp_all add: sorted_by_def)
  from assms(4) obtain zs where zs: "mset zs = mset expected" "list_all2 same_message actual zs"
    unfolding same_messages_def by blast
  then have "set zs = set expected" by (metis set_mset_mset)
  with shown have print: "shown (sort_URIs a) = shown (sort_URIs b)" if "a \<in> set actual" "b \<in> set zs" "same_message a b" for a b
    using that by (simp add: same_message_sorted)
  have "map shown ?a = map shown (map sort_URIs zs)"
  proof (rule nth_equalityI)
    show "length (map shown ?a) = length (map shown (map sort_URIs zs))" using zs(2) by (simp add: list_all2_lengthD)
    show "map shown ?a ! i = map shown (map sort_URIs zs) ! i" if "i < length (map shown ?a)" for i
      using that zs(2) print [of "actual ! i" "zs ! i"] by (simp add: list_all2_conv_all_nth)
  qed
  then have "mset (map shown ?a) = mset (map shown ?e)" using zs(1) by (metis mset_map)
  then have "mset (map shown (sort_messages ?a)) = mset (map shown (sort_messages ?e))" by (metis mset_map perm)
  with sorted have same: "map shown (sort_messages ?a) = map shown (sort_messages ?e)"
    by (metis properties_for_sort)
  have members: "set (sort_messages ?a) = sort_URIs ` set actual" "set (sort_messages ?e) = sort_URIs ` set expected"
    using perm by (metis set_mset_mset list.set_map)+
  have "list_all2 DeepEqual (sort_messages ?a) (sort_messages ?e)"
  proof (rule list_all2_all_nthI)
    show len: "length (sort_messages ?a) = length (sort_messages ?e)" using same by (metis length_map)
    show "DeepEqual (sort_messages ?a ! i) (sort_messages ?e ! i)" if i: "i < length (sort_messages ?a)" for i
    proof -
      have "shown (sort_messages ?a ! i) = shown (sort_messages ?e ! i)" using same i len by (metis nth_map)
      with i len members shown show ?thesis by (metis nth_mem)
    qed
  qed
  then show ?thesis by (simp add: matchArrs_sorted [OF assms(1,2)])
qed


definition example_message :: "string \<Rightarrow> string list \<Rightarrow> RegistryMessage" where
  "example_message app uris = (RegistryMessageFor (NewEndpoint ''ig'' ActualLRP_Ordinary ''1.1.1.1'' ''10.0.0.1'' 61001 8080
     PreferredAddressUnknown None '''') \<lparr>rt_Hostname = '''', rt_RouteServiceUrl = '''', rt_IsolationSegment = '''',
       rt_LogGUID = app, rt_Protocol = '''', rt_MetricTags = [], rt_Options = ''''\<rparr> False)\<lparr>rm_URIs := uris\<rparr>"


section \<open>Matching one message\<close>

text \<open>
  \<open>MatchRegistryMessage\<close> builds a matcher of gomega: for every field it names, the value the field must equal
  or the elements it must consist of.
\<close>

datatype field_matcher =
    EqualString string
  | EqualPort uint32
  | EqualTags "(string, string) gomap"
  | ConsistOf "string list"

definition MatchRegistryMessage :: "RegistryMessage \<Rightarrow> (string, field_matcher) gomap" where
  "MatchRegistryMessage message =
     [(''Host'', EqualString (rm_Host message)), (''Port'', EqualPort (rm_Port message)),
      (''TlsPort'', EqualPort (rm_TlsPort message)), (''URIs'', ConsistOf (rm_URIs message)),
      (''App'', EqualString (rm_App message)), (''RouteServiceUrl'', EqualString (rm_RouteServiceUrl message)),
      (''PrivateInstanceId'', EqualString (rm_PrivateInstanceId message)),
      (''PrivateInstanceIndex'', EqualString (rm_PrivateInstanceIndex message)),
      (''ServerCertDomainSAN'', EqualString (rm_ServerCertDomainSAN message)),
      (''IsolationSegment'', EqualString (rm_IsolationSegment message)), (''Tags'', EqualTags (rm_Tags message))]"

text \<open>Protocol, time stamp, availability zone and options of a message are not compared, all other fields are.\<close>

lemma MatchRegistryMessage_eq:
  "MatchRegistryMessage a = MatchRegistryMessage b \<longleftrightarrow>
     a\<lparr>rm_Protocol := '''', rm_EndpointUpdatedAtNs := 0, rm_AvailabilityZone := '''', rm_Options := ''''\<rparr> =
     b\<lparr>rm_Protocol := '''', rm_EndpointUpdatedAtNs := 0, rm_AvailabilityZone := '''', rm_Options := ''''\<rparr>"
  by (cases a; cases b) (auto simp: MatchRegistryMessage_def)

end
