(* ===== verification/Fake_NATS.thy ===== *)
theory Fake_NATS
  imports RE_Prelude
begin

text \<open>
  \<open>diegonats/fake_nats_client.go\<close>: the in-memory NATS client the tests of the emitter, the scheduler and the
  watcher run against. It keeps what was published per subject and calls the handlers of a subject's
  subscriptions when something is published to it.

  A handler is a closure; here it is a name, and the parameter \<open>reaction\<close> gives the publications the handler
  makes for a message. Handlers may publish, so a publication can set off others, and may never end. The
  functions a test injects answer with an error or none. Subscriptions are pointers; here they are numbered.
\<close>

section \<open>The client\<close>

record nats_msg =
  msg_Subject :: string
  msg_Reply :: string
  msg_Data :: string

record Subscription =
  sub_id :: nat
  sub_Subject :: string
  sub_Queue :: string

text \<open>A handler of a test, or the one \<open>Request\<close> makes, which puts the message into its channel.\<close>

datatype MsgHandler = TestHandler nat | RespChan string

type_synonym reaction = "nat \<Rightarrow> nats_msg \<Rightarrow> (string \<times> string \<times> string) list"

text \<open>
  \<open>fk_inbox\<close> holds what is in the channels \<open>Request\<close> made, which have room for one message,
  \<open>fk_delivered\<close> lists the calls of handlers in order, \<open>fk_next\<close> numbers the subscriptions.
\<close>

record FakeNATSClient =
  fk_subscriptions :: "(string, (Subscription, MsgHandler) gomap) gomap"
  fk_publishedMessages :: "(string, nats_msg list) gomap"
  fk_unsubscriptions :: "Subscription list"
  fk_unsubscribedSubjects :: "string list"
  fk_connectError :: "go_error option"
  fk_unsubscribeError :: "go_error option"
  fk_whenSubscribing :: "(string, MsgHandler \<Rightarrow> go_error option) gomap"
  fk_whenPublishing :: "(string, nats_msg \<Rightarrow> go_error option) gomap"
  fk_onPing :: "bool option"
  fk_pingResponse :: bool
  fk_pingInterval :: int64
  fk_next :: nat
  fk_inbox :: "(string, nats_msg) gomap"
  fk_delivered :: "(MsgHandler \<times> nats_msg) list"

definition Reset :: "FakeNATSClient \<Rightarrow> FakeNATSClient" where
  "Reset f = f\<lparr>fk_publishedMessages := [], fk_subscriptions := [], fk_unsubscriptions := [],
     fk_unsubscribedSubjects := [], fk_connectError := None, fk_unsubscribeError := None,
     fk_pingInterval := -1, fk_whenSubscribing := [], fk_whenPublishing := [], fk_pingResponse := True\<rparr>"

definition zero_client :: FakeNATSClient where
  "zero_client = \<lparr>fk_subscriptions = [], fk_publishedMessages = [], fk_unsubscriptions = [], fk_unsubscribedSubjects = [],
     fk_connectError = None, fk_unsubscribeError = None, fk_whenSubscribing = [], fk_whenPublishing = [],
     fk_onPing = None, fk_pingResponse = False, fk_pingInterval = 0, fk_next = 0, fk_inbox = [],
     fk_delivered = []\<rparr>"

definition NewFakeClient :: FakeNATSClient where
  "NewFakeClient = Reset zero_client"

definition fake_Connect :: "string list \<Rightarrow> FakeNATSClient \<Rightarrow> go_error option" where
  "fake_Connect urls f = fk_connectError f"

definition fake_SetPingInterval :: "int64 \<Rightarrow> FakeNATSClient \<Rightarrow> FakeNATSClient" where
  "fake_SetPingInterval interval f = f\<lparr>fk_pingInterval := interval\<rparr>"

text \<open>Closing changes nothing: a closed client still takes publications.\<close>

definition fake_Close :: "FakeNATSClient \<Rightarrow> FakeNATSClient" where
  "fake_Close f = f"

text \<open>The callback answers with a truth value.\<close>

definition OnPing :: "bool \<Rightarrow> FakeNATSClient \<Rightarrow> FakeNATSClient" where
  "OnPing answer f = f\<lparr>fk_onPing := Some answer\<rparr>"

definition fake_Ping :: "FakeNATSClient \<Rightarrow> bool" where
  "fake_Ping f = (case fk_onPing f of Some answer \<Rightarrow> answer | None \<Rightarrow> fk_pingResponse f)"

section \<open>Subscribing\<close>

definition addSubscriptionHandler :: "Subscription \<Rightarrow> MsgHandler \<Rightarrow> FakeNATSClient \<Rightarrow> FakeNATSClient" where
  "addSubscriptionHandler subscription handler f =
     (let subs = (case go_get (fk_subscriptions f) (sub_Subject subscription) of None \<Rightarrow> [] | Some subs \<Rightarrow> subs) in
      f\<lparr>fk_subscriptions := go_put (fk_subscriptions f) (sub_Subject subscription) (go_put subs subscription handler)\<rparr>)"

definition QueueSubscribe :: "string \<Rightarrow> string \<Rightarrow> MsgHandler \<Rightarrow> FakeNATSClient \<Rightarrow> FakeNATSClient \<times> (go_error + Subscription)" where
  "QueueSubscribe subject queue callback f =
     (let injected = go_get (fk_whenSubscribing f) subject;
          subscription = \<lparr>sub_id = fk_next f, sub_Subject = subject, sub_Queue = queue\<rparr>;
          f = f\<lparr>fk_next := fk_next f + 1\<rparr> in
      case (case injected of None \<Rightarrow> None | Some injectedCallback \<Rightarrow> injectedCallback callback) of
        Some err \<Rightarrow> (f, Inl err)
      | None \<Rightarrow> (addSubscriptionHandler subscription callback f, Inr subscription))"

definition fake_Subscribe :: "string \<Rightarrow> MsgHandler \<Rightarrow> FakeNATSClient \<Rightarrow> FakeNATSClient \<times> (go_error + Subscription)" where
  "fake_Subscribe subject callback = QueueSubscribe subject '''' callback"

definition fake_Unsubscribe :: "Subscription \<Rightarrow> FakeNATSClient \<Rightarrow> FakeNATSClient \<times> go_error option" where
  "fake_Unsubscribe subscription f =
     (case fk_unsubscribeError f of
        Some err \<Rightarrow> (f, Some err)
      | None \<Rightarrow> (f\<lparr>fk_unsubscriptions := fk_unsubscriptions f @ [subscription]\<rparr>, None))"

definition WhenSubscribing :: "string \<Rightarrow> (MsgHandler \<Rightarrow> go_error option) \<Rightarrow> FakeNATSClient \<Rightarrow> FakeNATSClient" where
  "WhenSubscribing subject callback f = f\<lparr>fk_whenSubscribing := go_put (fk_whenSubscribing f) subject callback\<rparr>"

definition subs_of :: "string \<Rightarrow> FakeNATSClient \<Rightarrow> (Subscription, MsgHandler) gomap" where
  "subs_of subject f = (case go_get (fk_subscriptions f) subject of None \<Rightarrow> [] | Some subs \<Rightarrow> subs)"

definition SubjectCallbacks :: "string \<Rightarrow> FakeNATSClient \<Rightarrow> MsgHandler list" where
  "SubjectCallbacks subject f = go_values (subs_of subject f)"

definition Subscriptions :: "string \<Rightarrow> FakeNATSClient \<Rightarrow> Subscription list" where
  "Subscriptions subject f = go_keys (subs_of subject f)"

definition SubscriptionCount :: "FakeNATSClient \<Rightarrow> nat" where
  "SubscriptionCount f = fold (\<lambda>(_, subs) cnt. cnt + length subs) (fk_subscriptions f) 0"

section \<open>Publishing\<close>

definition WhenPublishing :: "string \<Rightarrow> (nats_msg \<Rightarrow> go_error option) \<Rightarrow> FakeNATSClient \<Rightarrow> FakeNATSClient" where
  "WhenPublishing subject callback f = f\<lparr>fk_whenPublishing := go_put (fk_whenPublishing f) subject callback\<rparr>"

definition PublishedMessages :: "string \<Rightarrow> FakeNATSClient \<Rightarrow> nats_msg list" where
  "PublishedMessages subject f = (case go_get (fk_publishedMessages f) subject of None \<Rightarrow> [] | Some ms \<Rightarrow> ms)"

definition PublishedMessageCount :: "FakeNATSClient \<Rightarrow> nat" where
  "PublishedMessageCount f = length (fk_publishedMessages f)"

text \<open>What \<open>PublishRequest\<close> does before it calls the handlers, which it looked up first.\<close>

definition begin_publish :: "string \<Rightarrow> string \<Rightarrow> string \<Rightarrow> FakeNATSClient \<Rightarrow>
    go_error + FakeNATSClient \<times> (MsgHandler \<times> nats_msg) list" where
  "begin_publish subject reply payload f =
     (let callbacks = SubjectCallbacks subject f;
          message = \<lparr>msg_Subject = subject, msg_Reply = reply, msg_Data = payload\<rparr> in
      case (case go_get (fk_whenPublishing f) subject of None \<Rightarrow> None | Some injectedCallback \<Rightarrow> injectedCallback message) of
        Some err \<Rightarrow> Inl err
      | None \<Rightarrow> Inr (f\<lparr>fk_publishedMessages := go_put (fk_publishedMessages f) subject (PublishedMessages subject f @ [message])\<rparr>,
          map (\<lambda>cb. (cb, message)) callbacks))"

text \<open>
  What remains to be done: calls of handlers, and the publications a handler makes, each with the calls it
  leads to before the next. A handler ignores an error of its publications. The send of \<open>Request\<close>'s handler
  on a full channel blocks for ever: \<open>None\<close>, as is a chain of publications that never ends.
\<close>

datatype task = Call MsgHandler nats_msg | Publication string string string

definition reacts :: "reaction \<Rightarrow> MsgHandler \<Rightarrow> nats_msg \<Rightarrow> task list" where
  "reacts reaction handler message =
     (case handler of
        TestHandler k \<Rightarrow> map (\<lambda>(subject, reply, payload). Publication subject reply payload) (reaction k message)
      | RespChan _ \<Rightarrow> [])"

definition deliver_to :: "MsgHandler \<Rightarrow> nats_msg \<Rightarrow> FakeNATSClient \<Rightarrow> FakeNATSClient option" where
  "deliver_to handler message f =
     (let f = f\<lparr>fk_delivered := fk_delivered f @ [(handler, message)]\<rparr> in
      case handler of
        TestHandler _ \<Rightarrow> Some f
      | RespChan guid \<Rightarrow>
          if go_get (fk_inbox f) guid = None then Some (f\<lparr>fk_inbox := go_put (fk_inbox f) guid message\<rparr>) else None)"

partial_function (option) run_tasks :: "reaction \<Rightarrow> task list \<Rightarrow> FakeNATSClient \<Rightarrow> FakeNATSClient option" where
  [code]: "run_tasks reaction tasks f =
     (case tasks of
        [] \<Rightarrow> Some f
      | Publication subject reply payload # tasks' \<Rightarrow>
          (case begin_publish subject reply payload f of
             Inl err \<Rightarrow> run_tasks reaction tasks' f
           | Inr (f', calls) \<Rightarrow> run_tasks reaction (map (\<lambda>(h, m). Call h m) calls @ tasks') f')
      | Call handler message # tasks' \<Rightarrow>
          (case deliver_to handler message f of
             None \<Rightarrow> None
           | Some f' \<Rightarrow> run_tasks reaction (reacts reaction handler message @ tasks') f'))"

definition fake_PublishRequest :: "reaction \<Rightarrow> string \<Rightarrow> string \<Rightarrow> string \<Rightarrow> FakeNATSClient \<Rightarrow>
    (FakeNATSClient \<times> go_error option) option" where
  "fake_PublishRequest reaction subject reply payload f =
     (case begin_publish subject reply payload f of
        Inl err \<Rightarrow> Some (f, Some err)
      | Inr (f', calls) \<Rightarrow> map_option (\<lambda>f''. (f'', None)) (run_tasks reaction (map (\<lambda>(h, m). Call h m) calls) f'))"

definition fake_Publish :: "reaction \<Rightarrow> string \<Rightarrow> string \<Rightarrow> FakeNATSClient \<Rightarrow> (FakeNATSClient \<times> go_error option) option" where
  "fake_Publish reaction subject payload = fake_PublishRequest reaction subject '''' payload"

text \<open>
  The last \<open>select\<close> of \<open>Request\<close> takes the message when there is one, unless the timer fired as well and is
  picked (\<open>expired\<close>); without a message it waits for the timer. \<open>errTimeout\<close> is the library's error.
\<close>

definition fake_Request :: "reaction \<Rightarrow> go_error \<Rightarrow> go_error + string \<Rightarrow> bool \<Rightarrow> string \<Rightarrow> string \<Rightarrow> FakeNATSClient \<Rightarrow>
    (FakeNATSClient \<times> (go_error + nats_msg)) option" where
  "fake_Request reaction errTimeout uuid expired subj data f =
     (case uuid of
        Inl err \<Rightarrow> Some (f, Inl err)
      | Inr guid \<Rightarrow>
          (case fake_Subscribe guid (RespChan guid) f of
             (f, Inl err) \<Rightarrow> Some (f, Inl err)
           | (f, Inr _) \<Rightarrow>
               (case fake_PublishRequest reaction subj guid data f of
                  None \<Rightarrow> None
                | Some (f, Some err) \<Rightarrow> Some (f, Inl err)
                | Some (f, None) \<Rightarrow>
                    (case go_get (fk_inbox f) guid of
                       Some msg \<Rightarrow> if expired then Some (f, Inl errTimeout)
                         else Some (f\<lparr>fk_inbox := go_del (fk_inbox f) guid\<rparr>, Inr msg)
                     | None \<Rightarrow> Some (f, Inl errTimeout)))))"

section \<open>Publications reach the subscribers\<close>

lemma run_tasks_simps:
  "run_tasks reaction [] f = Some f"
  "run_tasks reaction (Publication subject reply payload # tasks) f =
     (case begin_publish subject reply payload f of
        Inl err \<Rightarrow> run_tasks reaction tasks f
      | Inr (f', calls) \<Rightarrow> run_tasks reaction (map (\<lambda>(h, m). Call h m) calls @ tasks) f')"
  "run_tasks reaction (Call handler message # tasks) f =
     (case deliver_to handler message f of
        None \<Rightarrow> None
      | Some f' \<Rightarrow> run_tasks reaction (reacts reaction handler message @ tasks) f')"
  by (subst run_tasks.simps; simp)+

lemma run_quiet_calls:
  assumes "\<forall>(h, m) \<in> set calls. \<exists>k. h = TestHandler k \<and> reaction k m = []"
  shows "run_tasks reaction (map (\<lambda>(h, m). Call h m) calls) f = Some (f\<lparr>fk_delivered := fk_delivered f @ calls\<rparr>)"
  using assms
  by (induction calls arbitrary: f) (auto simp: run_tasks_simps deliver_to_def reacts_def Let_def)

text \<open>
  A publication to a subject whose handlers publish nothing themselves returns, with the message recorded
  under its subject and every handler called once with it, in the order of the subscriptions. When the test
  injected an error, the error is returned and nothing else happens.
\<close>

theorem publication_reaches_subscribers:
  fixes subject reply payload :: string
  assumes "\<And>h. h \<in> set (SubjectCallbacks subject f) \<Longrightarrow> \<exists>k. h = TestHandler k \<and> (\<forall>m. reaction k m = [])"
  defines "message \<equiv> \<lparr>msg_Subject = subject, msg_Reply = reply, msg_Data = payload\<rparr>"
  shows "fake_PublishRequest reaction subject reply payload f =
    Some (case (case go_get (fk_whenPublishing f) subject of None \<Rightarrow> None | Some injected \<Rightarrow> injected message) of
       Some err \<Rightarrow> (f, Some err)
     | None \<Rightarrow> (f\<lparr>fk_publishedMessages := go_put (fk_publishedMessages f) subject (PublishedMessages subject f @ [message]),
         fk_delivered := fk_delivered f @ map (\<lambda>h. (h, message)) (SubjectCallbacks subject f)\<rparr>, None))"
proof -
  have "run_tasks reaction (map (\<lambda>(h, m). Call h m) (map (\<lambda>h. (h, message)) (SubjectCallbacks subject f))) g =
      Some (g\<lparr>fk_delivered := fk_delivered g @ map (\<lambda>h. (h, message)) (SubjectCallbacks subject f)\<rparr>)" for g
    by (rule run_quiet_calls) (use assms(1) in fastforce)
  then show ?thesis
    by (auto simp: fake_PublishRequest_def begin_publish_def message_def Let_def split: option.splits)
qed

theorem publication_reaches_subscribers_witness:
  "\<exists>f. fake_Publish (\<lambda>k m. []) ''router.start'' ''{}''
      (fst (fake_Subscribe ''router.start'' (TestHandler 3) NewFakeClient)) = Some (f, None) \<and>
    fk_delivered f = [(TestHandler 3, \<lparr>msg_Subject = ''router.start'', msg_Reply = '''', msg_Data = ''{}''\<rparr>)]"
proof -
  let ?f = "fst (fake_Subscribe ''router.start'' (TestHandler 3) NewFakeClient)"
  have cbs: "SubjectCallbacks ''router.start'' ?f = [TestHandler 3]" "fk_whenPublishing ?f = []" "fk_delivered ?f = []"
    by code_simp+
  have "\<exists>k. h = TestHandler k \<and> (\<forall>m. [] = ([] :: (string \<times> string \<times> string) list))"
    if "h \<in> set (SubjectCallbacks ''router.start'' ?f)" for h
    using that unfolding cbs by simp
  note result = publication_reaches_subscribers [where reaction = "\<lambda>k m. []" and subject = "''router.start''" and f = ?f
      and reply = "''''" and payload = "''{}''", OF this]
  show ?thesis unfolding fake_Publish_def by (subst result) (simp_all add: cbs)
qed

section \<open>Requests\<close>

lemma publish_to_channel:
  assumes "SubjectCallbacks guid g = [RespChan guid]" "go_get (fk_whenPublishing g) guid = None"
  shows "\<exists>g'. (\<forall>tasks. run_tasks reaction (Publication guid reply a # tasks) g =
      (if go_get (fk_inbox g) guid = None then run_tasks reaction tasks g' else None)) \<and>
    go_get (fk_inbox g') guid = Some \<lparr>msg_Subject = guid, msg_Reply = reply, msg_Data = a\<rparr> \<and>
    SubjectCallbacks guid g' = [RespChan guid] \<and> fk_whenPublishing g' = fk_whenPublishing g"
proof -
  let ?m = "\<lparr>msg_Subject = guid, msg_Reply = reply, msg_Data = a\<rparr>"
  let ?g = "g\<lparr>fk_publishedMessages := go_put (fk_publishedMessages g) guid (PublishedMessages guid g @ [?m]),
    fk_delivered := fk_delivered g @ [(RespChan guid, ?m)], fk_inbox := go_put (fk_inbox g) guid ?m\<rparr>"
  have "SubjectCallbacks guid ?g = SubjectCallbacks guid g" by (simp add: SubjectCallbacks_def subs_of_def)
  with assms show ?thesis
    by (intro exI [of _ ?g]) (auto simp: run_tasks_simps begin_publish_def deliver_to_def reacts_def Let_def)
qed

lemma answers_run:
  assumes "SubjectCallbacks guid g = [RespChan guid]" "go_get (fk_whenPublishing g) guid = None" "go_get (fk_inbox g) guid = None"
  shows "if others = []
    then \<exists>g'. run_tasks reaction (map (\<lambda>a. Publication guid '''' a) (answer # others)) g = Some g' \<and>
      go_get (fk_inbox g') guid = Some \<lparr>msg_Subject = guid, msg_Reply = '''', msg_Data = answer\<rparr>
    else run_tasks reaction (map (\<lambda>a. Publication guid '''' a) (answer # others)) g = None"
proof -
  obtain g1 where raw: "\<And>tasks. run_tasks reaction (Publication guid '''' answer # tasks) g =
      (if go_get (fk_inbox g) guid = None then run_tasks reaction tasks g1 else None)"
    and g1: "go_get (fk_inbox g1) guid = Some \<lparr>msg_Subject = guid, msg_Reply = '''', msg_Data = answer\<rparr>"
    "SubjectCallbacks guid g1 = [RespChan guid]" "fk_whenPublishing g1 = fk_whenPublishing g"
    using publish_to_channel [OF assms(1,2), of reaction "''''" answer] by blast
  have first: "run_tasks reaction (Publication guid '''' answer # tasks) g = run_tasks reaction tasks g1" for tasks
    using raw assms(3) by simp
  show ?thesis
  proof (cases others)
    case Nil
    with first g1 show ?thesis by (simp add: run_tasks_simps)
  next
    case (Cons b rest)
    obtain g2 where "\<And>tasks. run_tasks reaction (Publication guid '''' b # tasks) g1 =
        (if go_get (fk_inbox g1) guid = None then run_tasks reaction tasks g2 else None)"
      using publish_to_channel [OF g1(2), of reaction "''''" b] assms(2) g1(3) by auto
    with Cons first g1(1) show ?thesis by simp
  qed
qed

text \<open>
  \<open>Request\<close> returns the answer of a handler that answers once; a second answer fills the channel that nobody
  reads yet, so the handler's publication, and with it \<open>Request\<close>, blocks for ever.
\<close>

theorem request_answers:
  assumes "go_get (fk_whenSubscribing f) guid = None" "go_get (fk_whenPublishing f) guid = None"
    and "go_get (fk_whenPublishing f) subj = None" "subs_of guid f = []" "go_get (fk_inbox f) guid = None"
    and "guid \<noteq> subj" "SubjectCallbacks subj f = [TestHandler k]"
    and "reaction k \<lparr>msg_Subject = subj, msg_Reply = guid, msg_Data = data\<rparr> = map (\<lambda>a. (guid, '''', a)) (answer # others)"
  shows "if others = []
    then \<exists>f'. fake_Request reaction errTimeout (Inr guid) False subj data f =
      Some (f', Inr \<lparr>msg_Subject = guid, msg_Reply = '''', msg_Data = answer\<rparr>)
    else fake_Request reaction errTimeout (Inr guid) False subj data f = None"
proof -
  obtain sub where sub: "fake_Subscribe guid (RespChan guid) f =
      (f\<lparr>fk_next := Suc (fk_next f), fk_subscriptions := go_put (fk_subscriptions f) guid [(sub, RespChan guid)]\<rparr>, Inr sub)"
    using assms(1,4) by (auto simp: fake_Subscribe_def QueueSubscribe_def addSubscriptionHandler_def subs_of_def Let_def
        go_put_def split: option.splits)
  let ?f = "f\<lparr>fk_next := Suc (fk_next f), fk_subscriptions := go_put (fk_subscriptions f) guid [(sub, RespChan guid)]\<rparr>"
  let ?m = "\<lparr>msg_Subject = subj, msg_Reply = guid, msg_Data = data\<rparr>"
  let ?g = "?f\<lparr>fk_publishedMessages := go_put (fk_publishedMessages ?f) subj (PublishedMessages subj ?f @ [?m]),
    fk_delivered := fk_delivered f @ [(TestHandler k, ?m)]\<rparr>"
  have "SubjectCallbacks subj ?f = [TestHandler k]"
    using assms(6,7) by (simp add: SubjectCallbacks_def subs_of_def)
  then have pub: "fake_PublishRequest reaction subj guid data ?f =
      map_option (\<lambda>f''. (f'', None)) (run_tasks reaction (map (\<lambda>a. Publication guid '''' a) (answer # others)) ?g)"
    using assms(3,8) by (simp add: fake_PublishRequest_def begin_publish_def run_tasks_simps deliver_to_def reacts_def Let_def comp_def)
  have "SubjectCallbacks guid ?g = [RespChan guid]" by (simp add: SubjectCallbacks_def subs_of_def go_values_def)
  from answers_run [OF this, of others reaction answer] assms(2,5) show ?thesis
    by (cases "others = []") (auto simp: fake_Request_def sub pub)
qed

theorem request_answers_witness:
  "let react = (\<lambda>n k m. map (\<lambda>a. (msg_Reply m, '''', a)) (take n [''pong'', ''again'']));
       f = fst (fake_Subscribe ''ping'' (TestHandler 0) NewFakeClient) in
   (\<exists>f'. fake_Request (react 1) ''timeout'' (Inr ''guid'') False ''ping'' '''' f =
      Some (f', Inr \<lparr>msg_Subject = ''guid'', msg_Reply = '''', msg_Data = ''pong''\<rparr>)) \<and>
   fake_Request (react 2) ''timeout'' (Inr ''guid'') False ''ping'' '''' f = None"
proof -
  let ?react = "\<lambda>n k m. map (\<lambda>a. (msg_Reply m, '''', a)) (take n [''pong'', ''again''])"
  let ?f = "fst (fake_Subscribe ''ping'' (TestHandler 0) NewFakeClient)"
  have f: "fk_whenSubscribing ?f = []" "fk_whenPublishing ?f = []" "fk_inbox ?f = []" "subs_of ''guid'' ?f = []"
    "SubjectCallbacks ''ping'' ?f = [TestHandler 0]" by code_simp+
  have guid: "''guid'' \<noteq> ''ping''" by simp
  have none: "go_get [] k = None" for k :: string by simp
  note answers = request_answers [where f = ?f and guid = "''guid''" and subj = "''ping''" and k = 0 and data = "''''"
      and answer = "''pong''" and errTimeout = "''timeout''", unfolded f, OF none none none refl none guid refl]
  have "\<exists>f'. fake_Request (?react 1) ''timeout'' (Inr ''guid'') False ''ping'' '''' ?f =
      Some (f', Inr \<lparr>msg_Subject = ''guid'', msg_Reply = '''', msg_Data = ''pong''\<rparr>)"
    using answers [of "?react 1" "[]"] by simp
  moreover have "fake_Request (?react 2) ''timeout'' (Inr ''guid'') False ''ping'' '''' ?f = None"
    using answers [of "?react 2" "[''again'']"] by simp
  ultimately show ?thesis by (simp add: Let_def)
qed

section \<open>Subscriptions\<close>

text \<open>Subscriptions are pairwise different pointers, kept under their subject.\<close>

definition wf_subs :: "nat \<Rightarrow> string \<Rightarrow> (Subscription, MsgHandler) gomap \<Rightarrow> bool" where
  "wf_subs n subject subs = (go_wf subs \<and> list_all (\<lambda>(s, h). sub_Subject s = subject \<and> sub_id s < n) subs)"

definition wf_fake :: "FakeNATSClient \<Rightarrow> bool" where
  "wf_fake f = (go_wf (fk_subscriptions f) \<and> (\<forall>subject. wf_subs (fk_next f) subject (subs_of subject f)))"

lemma wf_subs_put:
  assumes "wf_subs n subject subs" "sub_Subject s = subject" "sub_id s = n"
  shows "wf_subs (Suc n) subject (go_put subs s h)" "go_get subs s = None" "(s, h) \<in> set (go_put subs s h)"
proof -
  have wf: "go_wf subs" and old: "(x, g) \<in> set subs \<Longrightarrow> sub_Subject x = subject \<and> sub_id x < n" for x g
    using assms(1) by (auto simp: wf_subs_def list_all_iff)
  have items: "(x, g) \<in> set (go_put subs s h) \<longleftrightarrow> (if x = s then g = h else (x, g) \<in> set subs)" for x g
    using wf by (auto simp: gm.items_get)
  then show "(s, h) \<in> set (go_put subs s h)" by simp
  show "go_get subs s = None"
    using old assms(3) gm.items_get [OF wf] by (metis less_irrefl not_None_eq)
  show "wf_subs (Suc n) subject (go_put subs s h)"
    unfolding wf_subs_def list_all_iff using wf items old assms(2,3) by (fastforce split: if_splits)
qed

lemma wf_subs_mono: "wf_subs n subject subs \<Longrightarrow> wf_subs (Suc n) subject subs"
  by (fastforce simp: wf_subs_def list_all_iff)

lemma SubscriptionCount_sum: "SubscriptionCount f = sum_list (map (\<lambda>(subject, subs). length subs) (fk_subscriptions f))"
proof -
  have "fold (\<lambda>(_, subs) cnt. cnt + length subs) xs n = n + sum_list (map (\<lambda>(subject, subs). length subs) xs)"
    for xs :: "(string \<times> (Subscription, MsgHandler) gomap) list" and n
    by (induction xs arbitrary: n) auto
  then show ?thesis by (simp add: SubscriptionCount_def)
qed

lemma length_put_new: "go_get m k = None \<Longrightarrow> length (go_put m k v) = Suc (length m)"
  unfolding go_get_def go_put_def by (induction m) (auto split: if_splits)

lemma sum_put:
  fixes m :: "('k, 'x list) gomap"
  assumes "go_wf m" "length new = Suc (length (case go_get m k of None \<Rightarrow> [] | Some old \<Rightarrow> old))"
  shows "sum_list (map (\<lambda>(k, v). length v) (go_put m k new)) = Suc (sum_list (map (\<lambda>(k, v). length v) m))"
  using assms unfolding go_get_def go_put_def go_wf_def
  by (induction m) (auto split: if_splits)

text \<open>
  A subscription that is not refused adds one handler to its subject and counts once; what unsubscribes only
  leaves a note, so its handler is still called and still counted.
\<close>

theorem subscriptions_count:
  assumes "wf_fake f" "QueueSubscribe subject queue callback f = (f', Inr sub)"
  shows "wf_fake f' \<and> SubscriptionCount f' = Suc (SubscriptionCount f) \<and> sub \<in> set (Subscriptions subject f') \<and>
    callback \<in> set (SubjectCallbacks subject f') \<and>
    SubscriptionCount (fst (fake_Unsubscribe sub f')) = SubscriptionCount f' \<and>
    SubjectCallbacks subject (fst (fake_Unsubscribe sub f')) = SubjectCallbacks subject f'"
proof -
  let ?subs = "subs_of subject f"
  have sub: "sub = \<lparr>sub_id = fk_next f, sub_Subject = subject, sub_Queue = queue\<rparr>"
    and f': "f' = f\<lparr>fk_next := Suc (fk_next f), fk_subscriptions := go_put (fk_subscriptions f) subject (go_put ?subs sub callback)\<rparr>"
    using assms(2) by (auto simp: QueueSubscribe_def addSubscriptionHandler_def subs_of_def Let_def split: option.splits)
  have wf: "go_wf (fk_subscriptions f)" "wf_subs (fk_next f) s (subs_of s f)" for s
    using assms(1) by (simp_all add: wf_fake_def)
  note put = wf_subs_put(1) [OF wf(2) [of subject], of sub callback] wf_subs_put(2) [OF wf(2) [of subject], of sub]
    wf_subs_put(3) [OF wf(2) [of subject], of sub callback]
  have subs: "subs_of s f' = (if s = subject then go_put ?subs sub callback else subs_of s f)" for s
    by (simp add: f' subs_of_def)
  have "wf_subs (Suc (fk_next f)) s (subs_of s f')" for s
    using put(1) wf_subs_mono [OF wf(2)] by (simp add: subs sub)
  then have "wf_fake f'" using wf(1) by (simp add: wf_fake_def f')
  moreover have "SubscriptionCount f' = Suc (SubscriptionCount f)"
    unfolding SubscriptionCount_sum f' using put(2) wf(1)
    by (simp add: sum_put length_put_new sub flip: subs_of_def)
  moreover have "SubscriptionCount (fst (fake_Unsubscribe sub f')) = SubscriptionCount f'"
    "SubjectCallbacks subject (fst (fake_Unsubscribe sub f')) = SubjectCallbacks subject f'"
    by (simp_all add: fake_Unsubscribe_def SubscriptionCount_def SubjectCallbacks_def subs_of_def split: option.splits)
  moreover have "sub \<in> set (Subscriptions subject f')" "callback \<in> set (SubjectCallbacks subject f')"
    using put(3) by (force simp: Subscriptions_def SubjectCallbacks_def subs go_keys_def go_values_def sub)+
  ultimately show ?thesis by blast
qed

theorem subscriptions_count_witness:
  "SubscriptionCount (fst (QueueSubscribe ''router.start'' '''' (TestHandler 0) NewFakeClient)) = 1"
proof -
  let ?r = "QueueSubscribe ''router.start'' '''' (TestHandler 0) NewFakeClient"
  let ?sub = "\<lparr>sub_id = 0, sub_Subject = ''router.start'', sub_Queue = ''''\<rparr>"
  have wf: "wf_fake NewFakeClient"
    by (simp add: wf_fake_def wf_subs_def NewFakeClient_def Reset_def zero_client_def subs_of_def)
  have "snd ?r = Inr ?sub" by code_simp
  then have r: "?r = (fst ?r, Inr ?sub)" by (metis prod.collapse)
  have "SubscriptionCount NewFakeClient = 0" by code_simp
  with subscriptions_count [OF wf r] show ?thesis by simp
qed

section \<open>What the counters count\<close>

text \<open>
  \<open>PublishedMessageCount\<close> is the number of subjects something was published to, not the number of messages;
  and \<open>Reset\<close> leaves the ping callback in place.
\<close>

theorem fake_client_leftovers:
  "(let publish = (\<lambda>f. fst (the (fake_Publish (\<lambda>k m. []) ''router.register'' ''{}'' f))) in
    PublishedMessageCount (publish (publish NewFakeClient)) = 1 \<and>
    length (PublishedMessages ''router.register'' (publish (publish NewFakeClient))) = 2) \<and>
   fake_Ping (Reset (OnPing False f)) = False"
proof
  show "let publish = (\<lambda>f. fst (the (fake_Publish (\<lambda>k m. []) ''router.register'' ''{}'' f))) in
    PublishedMessageCount (publish (publish NewFakeClient)) = 1 \<and>
    length (PublishedMessages ''router.register'' (publish (publish NewFakeClient))) = 2"
    by code_simp
  show "fake_Ping (Reset (OnPing False f)) = False" by (simp add: fake_Ping_def Reset_def OnPing_def)
qed

end
