(* ===== verification/Test_Servers.thy ===== *)
theory Test_Servers
  imports NATS_Client
begin

text \<open>
  The servers the integration tests start: \<open>cmd/route-emitter/runners/routingapi.go\<close> writes a configuration file for
  the routing API and runs its binary, \<open>diegonats/natsserverrunner/nats_server_test_runner.go\<close> runs a NATS server
  and connects a client to it. What is not theirs is a parameter: the files of the operating system, the YAML
  encoder, the TLS library, the process runner \<open>ginkgomon\<close> and the environment. A process is named by the
  configuration its runner was made from.
\<close>

section \<open>Runners\<close>

text \<open>The fields of \<open>ginkgomon.Config\<close> that are set; a command is its path and its arguments.\<close>

record ginkgomon_config =
  gc_Name :: string
  gc_AnsiColorCode :: string
  gc_StartCheck :: string
  gc_StartCheckTimeout :: int64
  gc_Command :: "string \<times> string list"

section \<open>The routing API\<close>

record RouterGroup =
  rg_Name :: string
  rg_Type :: string
  rg_ReservablePorts :: string

record SqlDB =
  sql_Host :: string
  sql_Port :: uint16
  sql_Schema :: string
  sql_Type :: string
  sql_Username :: string
  sql_Password :: string

text \<open>
  \<open>apiconfig.Config\<close> of the routing API. The runner sets the named fields; \<open>ac_others\<close> stands for all the others,
  which only the options of the caller touch.
\<close>

record 'o apiconfig =
  ac_AdminPort :: uint16
  ac_MetricsReportingIntervalString :: string
  ac_StatsdClientFlushIntervalString :: string
  ac_SystemDomain :: string
  ac_LogGuid :: string
  ac_RouterGroups :: "RouterGroup list"
  ac_SqlDB :: SqlDB
  ac_UUID :: string
  ac_others :: 'o

record 'o runner_config =
  rc_Config :: "'o apiconfig"
  rc_DevMode :: bool
  rc_IP :: string

record SQLConfig =
  sc_Port :: int64
  sc_DBName :: string
  sc_DriverName :: string
  sc_Username :: string
  sc_Password :: string

record 'o RoutingAPIRunner =
  rr_Config :: "'o runner_config"
  rr_configPath :: string
  rr_binPath :: string

text \<open>
  The operating system and the YAML encoder. \<open>CreateTemp\<close> answers with the name of the new file, \<open>Write\<close> with
  what it wrote and an error; a directory is a map from names to contents.
\<close>

type_synonym files = "(string, string) gomap"

record 'o test_os =
  os_TempDir :: string
  os_CreateTemp :: "files \<Rightarrow> string \<Rightarrow> string \<Rightarrow> go_error + string"
  os_Write :: "string \<Rightarrow> string \<Rightarrow> string \<times> go_error option"
  os_Marshal :: "'o apiconfig \<Rightarrow> go_error + string"

definition default_config :: "'o \<Rightarrow> int64 \<Rightarrow> SQLConfig \<Rightarrow> 'o runner_config" where
  "default_config zero adminPort sqlConfig =
     \<lparr>rc_Config =
        \<lparr>ac_AdminPort = ucast adminPort, ac_MetricsReportingIntervalString = ''500ms'',
         ac_StatsdClientFlushIntervalString = ''10ms'', ac_SystemDomain = ''example.com'', ac_LogGuid = ''routing-api-logs'',
         ac_RouterGroups = [\<lparr>rg_Name = ''default-tcp'', rg_Type = ''tcp'', rg_ReservablePorts = ''1024-65535''\<rparr>],
         ac_SqlDB = \<lparr>sql_Host = ''localhost'', sql_Port = ucast (sc_Port sqlConfig), sql_Schema = sc_DBName sqlConfig,
           sql_Type = sc_DriverName sqlConfig, sql_Username = sc_Username sqlConfig, sql_Password = sc_Password sqlConfig\<rparr>,
         ac_UUID = ''routing-api-uuid'', ac_others = zero\<rparr>,
      rc_DevMode = True, rc_IP = ''''\<rparr>"

text \<open>The result with the files as they are afterwards: a file that was created is left behind on an error.\<close>

definition NewRoutingAPIRunner :: "'o test_os \<Rightarrow> 'o \<Rightarrow> string \<Rightarrow> int64 \<Rightarrow> SQLConfig \<Rightarrow> ('o runner_config \<Rightarrow> 'o runner_config) list \<Rightarrow>
    files \<Rightarrow> files \<times> (go_error + 'o RoutingAPIRunner)" where
  "NewRoutingAPIRunner os zero binPath adminPort sqlConfig fs files =
     (let cfg = fold (\<lambda>f cfg. f cfg) fs (default_config zero adminPort sqlConfig) in
      case os_CreateTemp os files (os_TempDir os) ''routing-api-config'' of
        Inl err \<Rightarrow> (files, Inl err)
      | Inr name \<Rightarrow>
          (let files = go_put files name '''' in
           case os_Marshal os (rc_Config cfg) of
             Inl err \<Rightarrow> (files, Inl err)
           | Inr configBytes \<Rightarrow>
               (case os_Write os name configBytes of
                  (written, Some err) \<Rightarrow> (go_put files name written, Inl err)
                | (written, None) \<Rightarrow>
                    (go_put files name written, Inr \<lparr>rr_Config = cfg, rr_configPath = name, rr_binPath = binPath\<rparr>))))"

definition format_bool :: "bool \<Rightarrow> string" where
  "format_bool b = (if b then ''true'' else ''false'')"

definition routing_api_args :: "'o RoutingAPIRunner \<Rightarrow> string list" where
  "routing_api_args runner =
     [''-ip'', ''localhost'', ''-config'', rr_configPath runner, ''-logLevel=debug'',
      ''-devMode='' @ format_bool (rc_DevMode (rr_Config runner))]"

definition routing_api_Run :: "(ginkgomon_config \<Rightarrow> go_error option) \<Rightarrow> 'o RoutingAPIRunner \<Rightarrow> go_error option" where
  "routing_api_Run run runner =
     run \<lparr>gc_Name = ''routing-api'', gc_AnsiColorCode = '''', gc_StartCheck = ''routing-api.started'',
          gc_StartCheckTimeout = 20000000000, gc_Command = (rr_binPath runner, routing_api_args runner)\<rparr>"

record RoutingAPIClientConfig =
  cc_Port :: uint16
  cc_CACertFile :: string
  cc_ClientCertFile :: string
  cc_ClientKeyFile :: string

datatype api_client = ClientWithTLS string string | PlainClient string bool

text \<open>The TLS library reads certificate, key and authority.\<close>

definition NewRoutingAPIClient :: "(string \<Rightarrow> string \<Rightarrow> string \<Rightarrow> go_error + string) \<Rightarrow> RoutingAPIClientConfig \<Rightarrow> go_error + api_client" where
  "NewRoutingAPIClient tlsClient config =
     (if cc_CACertFile config \<noteq> '''' \<and> cc_ClientCertFile config \<noteq> '''' \<and> cc_ClientKeyFile config \<noteq> ''''
      then (case tlsClient (cc_ClientCertFile config) (cc_ClientKeyFile config) (cc_CACertFile config) of
          Inl err \<Rightarrow> Inl err
        | Inr tlsConfig \<Rightarrow> Inr (ClientWithTLS (''https://127.0.0.1:'' @ itoa (uint (cc_Port config))) tlsConfig))
      else Inr (PlainClient (''http://127.0.0.1:'' @ itoa (uint (cc_Port config))) False))"

section \<open>The NATS server\<close>

text \<open>
  What a test sees: the process ended with a code after printing a line, an assertion failed, or the server runs
  and the client is connected.
\<close>

datatype 'a test_result = TestExit nat string | AssertionFailed string | TestOK 'a

definition nats_server_config :: "string \<Rightarrow> string list \<Rightarrow> ginkgomon_config" where
  "nats_server_config path args =
     \<lparr>gc_Name = ''nats-server'', gc_AnsiColorCode = ''99m'', gc_StartCheck = ''Server is ready'',
      gc_StartCheckTimeout = 5000000000, gc_Command = (path, args)\<rparr>"

definition no_server_binary :: string where
  "no_server_binary = ''You need nats-server install set NATS_SERVER_BINARY env variable''"

definition NewNatsServerTestRunner :: "(string \<rightharpoonup> string) \<Rightarrow> int64 \<Rightarrow> ginkgomon_config test_result" where
  "NewNatsServerTestRunner getenv natsPort =
     (case getenv ''NATS_SERVER_BINARY'' of
        None \<Rightarrow> TestExit 1 no_server_binary
      | Some natsServerPath \<Rightarrow> TestOK (nats_server_config natsServerPath [''-p'', itoa (sint natsPort)]))"

definition NewNatsServerWithTLSTestRunner :: "(string \<rightharpoonup> string) \<Rightarrow> int64 \<Rightarrow> string \<Rightarrow> string \<Rightarrow> string \<Rightarrow>
    ginkgomon_config test_result" where
  "NewNatsServerWithTLSTestRunner getenv natsPort caFile certFile keyFile =
     (case getenv ''NATS_SERVER_BINARY'' of
        None \<Rightarrow> TestExit 1 no_server_binary
      | Some natsServerPath \<Rightarrow> TestOK (nats_server_config natsServerPath
          [''-p'', itoa (sint natsPort), ''--tlsverify'', ''--tlscacert'', caFile, ''--tlscert'', certFile, ''--tlskey'', keyFile]))"

text \<open>\<open>ready\<close> tells whether the process is ready within the five seconds of the first assertion.\<close>

definition connect_to_server :: "nats_lib \<Rightarrow> int64 \<Rightarrow> ginkgomon_config \<Rightarrow> natsClient \<Rightarrow> (ginkgomon_config \<times> natsClient) test_result" where
  "connect_to_server L natsPort process natsClient =
     (case nats_Connect L [''nats://127.0.0.1:'' @ itoa (sint natsPort)] natsClient of
        (natsClient, Some err) \<Rightarrow> AssertionFailed err
      | (natsClient, None) \<Rightarrow> TestOK (process, natsClient))"

definition StartNatsServer :: "nats_lib \<Rightarrow> (string \<rightharpoonup> string) \<Rightarrow> (ginkgomon_config \<Rightarrow> bool) \<Rightarrow> int64 \<Rightarrow>
    (ginkgomon_config \<times> natsClient) test_result" where
  "StartNatsServer L getenv ready natsPort =
     (case NewNatsServerTestRunner getenv natsPort of
        TestOK ginkgomonRunner \<Rightarrow>
          if \<not> ready ginkgomonRunner then AssertionFailed ''not ready''
          else connect_to_server L natsPort ginkgomonRunner (NewClient L)
      | TestExit code line \<Rightarrow> TestExit code line
      | AssertionFailed what \<Rightarrow> AssertionFailed what)"

definition StartNatsServerWithTLS :: "nats_lib \<Rightarrow> (string \<Rightarrow> string \<Rightarrow> string \<Rightarrow> go_error + string) \<Rightarrow> (string \<rightharpoonup> string) \<Rightarrow>
    (ginkgomon_config \<Rightarrow> bool) \<Rightarrow> int64 \<Rightarrow> string \<Rightarrow> string \<Rightarrow> string \<Rightarrow> (ginkgomon_config \<times> natsClient) test_result" where
  "StartNatsServerWithTLS L tlsClient getenv ready natsPort caFile certFile keyFile =
     (case NewNatsServerWithTLSTestRunner getenv natsPort caFile certFile keyFile of
        TestOK ginkgomonRunner \<Rightarrow>
          if \<not> ready ginkgomonRunner then AssertionFailed ''not ready''
          else (case tlsClient certFile keyFile caFile of
              Inl err \<Rightarrow> AssertionFailed err
            | Inr tlsConfig \<Rightarrow> connect_to_server L natsPort ginkgomonRunner (NewClientWithTLSConfig L tlsConfig))
      | TestExit code line \<Rightarrow> TestExit code line
      | AssertionFailed what \<Rightarrow> AssertionFailed what)"

section \<open>The configuration file\<close>

text \<open>What \<open>os.CreateTemp\<close> and \<open>io.Writer\<close> promise: a new name, and no error only when everything was written.\<close>

definition os_contract :: "'o test_os \<Rightarrow> files \<Rightarrow> bool" where
  "os_contract os files =
     ((\<forall>dir pat name. os_CreateTemp os files dir pat = Inr name \<longrightarrow> go_get files name = None) \<and>
      (\<forall>name bytes written. os_Write os name bytes = (written, None) \<longrightarrow> written = bytes))"

text \<open>
  A runner that was made names a new file that holds the encoded configuration, with the options applied in their
  order to the defaults, and every other file is as it was; without a runner the error is the first of creating
  the file, encoding and writing, and the files that existed are as they were. The server is then started on that file.
\<close>

theorem routing_api_config_file:
  assumes "os_contract os files" "NewRoutingAPIRunner os zero binPath adminPort sqlConfig fs files = (files', r)"
  shows "(\<forall>name. go_get files name \<noteq> None \<longrightarrow> go_get files' name = go_get files name) \<and>
    (case r of
       Inr runner \<Rightarrow>
         rr_Config runner = fold (\<lambda>f cfg. f cfg) fs (default_config zero adminPort sqlConfig) \<and>
         go_get files (rr_configPath runner) = None \<and>
         (\<exists>bytes. os_Marshal os (rc_Config (rr_Config runner)) = Inr bytes \<and> go_get files' (rr_configPath runner) = Some bytes) \<and>
         (\<exists>before after. routing_api_args runner = before @ [''-config'', rr_configPath runner] @ after)
     | Inl err \<Rightarrow>
         (case os_CreateTemp os files (os_TempDir os) ''routing-api-config'' of
            Inl e \<Rightarrow> err = e
          | Inr name \<Rightarrow>
              (case os_Marshal os (rc_Config (fold (\<lambda>f cfg. f cfg) fs (default_config zero adminPort sqlConfig))) of
                 Inl e \<Rightarrow> err = e
               | Inr bytes \<Rightarrow> snd (os_Write os name bytes) = Some err)))"
proof -
  have args: "\<exists>before after. routing_api_args runner = before @ [''-config'', rr_configPath runner] @ after" for runner
    by (rule exI [of _ "[''-ip'', ''localhost'']"]) (simp add: routing_api_args_def)
  show ?thesis
    using assms args
    by (auto simp: NewRoutingAPIRunner_def os_contract_def Let_def split: sum.splits prod.splits option.splits)
qed

definition example_os :: "unit test_os" where
  "example_os =
     \<lparr>os_TempDir = ''/tmp'', os_CreateTemp = (\<lambda>files dir pat. if files = [] then Inr (dir @ ''/'' @ pat) else Inl ''exists''),
      os_Write = (\<lambda>name bytes. (bytes, None)), os_Marshal = (\<lambda>cfg. Inr (ac_UUID cfg))\<rparr>"

theorem routing_api_config_file_witness:
  "\<exists>files' runner. NewRoutingAPIRunner example_os () ''routing-api'' 8080 \<lparr>sc_Port = 5432, sc_DBName = ''db'',
      sc_DriverName = ''postgres'', sc_Username = ''u'', sc_Password = ''p''\<rparr>
      [\<lambda>cfg. cfg\<lparr>rc_Config := (rc_Config cfg)\<lparr>ac_UUID := ''first''\<rparr>\<rparr>, \<lambda>cfg. cfg\<lparr>rc_Config := (rc_Config cfg)\<lparr>ac_UUID := ''second''\<rparr>\<rparr>]
      [] = (files', Inr runner) \<and> go_get files' (rr_configPath runner) = Some ''second''"
proof -
  have os: "os_contract example_os []" by (simp add: os_contract_def example_os_def)
  let ?r = "NewRoutingAPIRunner example_os () ''routing-api'' 8080 \<lparr>sc_Port = 5432, sc_DBName = ''db'',
      sc_DriverName = ''postgres'', sc_Username = ''u'', sc_Password = ''p''\<rparr>
      [\<lambda>cfg. cfg\<lparr>rc_Config := (rc_Config cfg)\<lparr>ac_UUID := ''first''\<rparr>\<rparr>, \<lambda>cfg. cfg\<lparr>rc_Config := (rc_Config cfg)\<lparr>ac_UUID := ''second''\<rparr>\<rparr>] []"
  obtain files' runner where r: "?r = (files', Inr runner)"
    by (simp add: NewRoutingAPIRunner_def example_os_def Let_def)
  from routing_api_config_file [OF os r] r show ?thesis by (auto simp: example_os_def)
qed

text \<open>
  The ports are cut to 16 bits without a check, and the server listens on \<open>localhost\<close> whatever address an option
  sets.
\<close>

theorem routing_api_ports:
  "uint (ac_AdminPort (rc_Config (default_config zero adminPort sqlConfig))) = sint adminPort mod 65536 \<and>
   uint (sql_Port (ac_SqlDB (rc_Config (default_config zero adminPort sqlConfig)))) = sint (sc_Port sqlConfig) mod 65536 \<and>
   routing_api_args (runner\<lparr>rr_Config := (rr_Config runner)\<lparr>rc_IP := ip\<rparr>\<rparr>) = routing_api_args runner"
proof -
  have "uint (ucast p :: uint16) = sint p mod 65536" for p :: int64
  proof -
    have "sint p = signed_take_bit 63 (uint p)" by (simp add: sint_uint)
    moreover have "uint (ucast p :: uint16) = take_bit 16 (uint p)" by (simp add: unsigned_ucast_eq take_bit_word_eq_self)
    ultimately show ?thesis by (simp add: take_bit_signed_take_bit flip: take_bit_eq_mod [of 16, simplified])
  qed
  then show ?thesis by (simp add: default_config_def routing_api_args_def)
qed

text \<open>The client uses TLS exactly when all three files are named, and then fails exactly when they cannot be read.\<close>

theorem routing_api_client_tls:
  "(case NewRoutingAPIClient tlsClient config of
      Inl err \<Rightarrow> '''' \<notin> {cc_CACertFile config, cc_ClientCertFile config, cc_ClientKeyFile config} \<and>
        tlsClient (cc_ClientCertFile config) (cc_ClientKeyFile config) (cc_CACertFile config) = Inl err
    | Inr (ClientWithTLS url tls) \<Rightarrow> '''' \<notin> {cc_CACertFile config, cc_ClientCertFile config, cc_ClientKeyFile config} \<and>
        tlsClient (cc_ClientCertFile config) (cc_ClientKeyFile config) (cc_CACertFile config) = Inr tls \<and>
        url = ''https://127.0.0.1:'' @ itoa (uint (cc_Port config))
    | Inr (PlainClient url skip) \<Rightarrow> '''' \<in> {cc_CACertFile config, cc_ClientCertFile config, cc_ClientKeyFile config} \<and> \<not> skip \<and>
        url = ''http://127.0.0.1:'' @ itoa (uint (cc_Port config)))"
  by (auto simp: NewRoutingAPIClient_def split: sum.splits)

section \<open>Server and client meet\<close>

lemma connect_to_server_OK:
  assumes "connect_to_server L natsPort process natsClient = TestOK (process', client)"
  shows "process' = process \<and> nc_tlsConfig client = nc_tlsConfig natsClient \<and>
    (\<exists>conn. nl_Connect L (connect_options L [''nats://127.0.0.1:'' @ itoa (sint natsPort)] natsClient) = Inr conn \<and> nc_Conn client = Some conn)"
  using assms by (auto simp: connect_to_server_def nats_Connect_def split: sum.splits)

text \<open>
  When a server with TLS was started, the binary comes from the environment, it was given the port the client
  connects to and the three files the client's TLS configuration is made from, and the client is connected.
  Without the variable the test ends with code 1, whatever else is asked for.
\<close>

theorem nats_server_meets_client:
  "case StartNatsServerWithTLS L tlsClient getenv ready natsPort caFile certFile keyFile of
     TestOK (process, client) \<Rightarrow>
       (\<exists>path conn tls. getenv ''NATS_SERVER_BINARY'' = Some path \<and> ready process \<and>
         gc_Command process = (path, [''-p'', itoa (sint natsPort), ''--tlsverify'', ''--tlscacert'', caFile, ''--tlscert'', certFile,
           ''--tlskey'', keyFile]) \<and>
         tlsClient certFile keyFile caFile = Inr tls \<and> nc_tlsConfig client = Some tls \<and> nc_Conn client = Some conn \<and>
         nl_Connect L (connect_options L [''nats://127.0.0.1:'' @ itoa (sint natsPort)] (NewClientWithTLSConfig L tls)) = Inr conn)
   | TestExit code line \<Rightarrow> code = 1 \<and> getenv ''NATS_SERVER_BINARY'' = None
   | AssertionFailed what \<Rightarrow> getenv ''NATS_SERVER_BINARY'' \<noteq> None"
proof -
  have meet: "process' = process \<and> nc_tlsConfig client = Some tls \<and>
      (\<exists>conn. nc_Conn client = Some conn \<and>
        nl_Connect L (connect_options L [''nats://127.0.0.1:'' @ itoa (sint natsPort)] (NewClientWithTLSConfig L tls)) = Inr conn)"
    if "connect_to_server L natsPort process (NewClientWithTLSConfig L tls) = TestOK (process', client)" for process process' client tls
    using connect_to_server_OK [OF that] by (auto simp: NewClientWithTLSConfig_def)
  have none: "connect_to_server L natsPort process c \<noteq> TestExit code line" for process c code line
    by (auto simp: connect_to_server_def split: prod.splits option.splits)
  show ?thesis
    by (auto simp: StartNatsServerWithTLS_def NewNatsServerWithTLSTestRunner_def nats_server_config_def none dest: meet
        split: test_result.splits option.splits sum.splits if_splits)
qed

end
