(* ===== verification/Test_Doubles.thy ===== *)
theory Test_Doubles
  imports Watcher
begin

text \<open>
  The test doubles that \<open>counterfeiter\<close> writes from the interfaces: for each method of an interface a stub, the
  arguments of the calls so far, the results to return and results for single calls, with the same six operations
  each time. The record \<open>faked\<close> is what a double keeps for one method and \<open>faked_call\<close> and its siblings are the
  bodies of the six operations; the theories of the doubles compose them as the files do.

  A stub is a closure of a test. It may change the test's own state, which is the last component \<open>'w\<close> of the
  types, but not the double itself. Slices are values here, so the copies the doubles make of
  their arguments are the arguments.
\<close>

section \<open>What a double keeps for a method\<close>

record ('a, 'r, 'w) faked =
  Stub :: "('a \<Rightarrow> 'w \<Rightarrow> 'r \<times> 'w) option"
  argsForCall :: "'a list"
  returns :: 'r
  returnsOnCall :: "(int64, 'r) gomap"

definition new_faked :: "'r \<Rightarrow> ('a, 'r, 'w) faked" where
  "new_faked zero = \<lparr>Stub = None, argsForCall = [], returns = zero, returnsOnCall = []\<rparr>"

definition faked_call :: "'a \<Rightarrow> ('a, 'r, 'w) faked \<Rightarrow> ('a, 'r, 'w) faked" where
  "faked_call arg m = m\<lparr>argsForCall := argsForCall m @ [arg]\<rparr>"

text \<open>The result of the call: the stub's, else the one set for this call, else the one set for all calls.\<close>

definition faked_result :: "'a \<Rightarrow> ('a, 'r, 'w) faked \<Rightarrow> 'w \<Rightarrow> 'r \<times> 'w" where
  "faked_result arg m w =
     (let specificReturn = go_get (returnsOnCall m) (of_nat (length (argsForCall m))) in
      case Stub m of
        Some stub \<Rightarrow> stub arg w
      | None \<Rightarrow> (case specificReturn of Some ret \<Rightarrow> (ret, w) | None \<Rightarrow> (returns m, w)))"

definition faked_CallCount :: "('a, 'r, 'w) faked \<Rightarrow> int64" where
  "faked_CallCount m = of_nat (length (argsForCall m))"

definition faked_Calls :: "('a \<Rightarrow> 'w \<Rightarrow> 'r \<times> 'w) option \<Rightarrow> ('a, 'r, 'w) faked \<Rightarrow> ('a, 'r, 'w) faked" where
  "faked_Calls stub m = m\<lparr>Stub := stub\<rparr>"

text \<open>An index out of range panics.\<close>

definition faked_ArgsForCall :: "int64 \<Rightarrow> ('a, 'r, 'w) faked \<Rightarrow> 'a option" where
  "faked_ArgsForCall i m =
     (if 0 \<le> sint i \<and> sint i < int (length (argsForCall m)) then Some (argsForCall m ! nat (sint i)) else None)"

definition faked_Returns :: "'r \<Rightarrow> ('a, 'r, 'w) faked \<Rightarrow> ('a, 'r, 'w) faked" where
  "faked_Returns result m = m\<lparr>Stub := None, returns := result\<rparr>"

definition faked_ReturnsOnCall :: "int64 \<Rightarrow> 'r \<Rightarrow> ('a, 'r, 'w) faked \<Rightarrow> ('a, 'r, 'w) faked" where
  "faked_ReturnsOnCall i result m = m\<lparr>Stub := None, returnsOnCall := go_put (returnsOnCall m) i result\<rparr>"

section \<open>Invocations\<close>

text \<open>The arguments of all methods, by the name of the method: the values Go keeps as \<open>interface{}\<close>.\<close>

type_synonym logger = string

datatype any =
    AnyLogger logger
  | AnyEvent Event
  | AnyDesired "DesiredLRP option"
  | AnyDesireds "DesiredLRP list"
  | AnyActual ActualLRP
  | AnyActuals "ActualLRP list"
  | AnyDomains DomainSet
  | AnyEvents "(string, Event) gomap"
  | AnyMessages "RegistryMessage list"
  | AnyMessagesToEmit MessagesToEmit
  | AnyMappings TCPRouteMappings
  | AnyTable "routingTable option"

type_synonym invocations = "(string, any list list) gomap"

definition invocations_of :: "invocations \<Rightarrow> string \<Rightarrow> any list list" where
  "invocations_of logged key = (case go_get logged key of None \<Rightarrow> [] | Some calls \<Rightarrow> calls)"

definition record_invocation :: "string \<Rightarrow> any list \<Rightarrow> invocations \<Rightarrow> invocations" where
  "record_invocation key args logged = go_put logged key (invocations_of logged key @ [args])"

lemma invocations_of_record [simp]:
  "invocations_of (record_invocation key args logged) key' =
     (if key' = key then invocations_of logged key @ [args] else invocations_of logged key')"
  by (simp add: invocations_of_def record_invocation_def)

section \<open>What every method of every double promises\<close>

text \<open>
  The contract of a method: \<open>kept\<close> reads what the double keeps for it, \<open>log\<close> the invocations of the double,
  \<open>shown\<close> the arguments as they are logged.
\<close>

locale test_double =
  fixes kept :: "'s \<Rightarrow> ('a, 'r, 'w) faked" and log :: "'s \<Rightarrow> invocations"
    and name :: string and shown :: "'a \<Rightarrow> any list"
    and invoke :: "'a \<Rightarrow> 's \<times> 'w \<Rightarrow> 'r \<times> 's \<times> 'w"
  assumes keeps: "kept (fst (snd (invoke a (s, w)))) = faked_call a (kept s)"
    and logs: "log (fst (snd (invoke a (s, w)))) = record_invocation name (shown a) (log s)"
    and answers: "(fst (invoke a (s, w)), snd (snd (invoke a (s, w)))) = faked_result a (kept s) w"
begin

definition after :: "'a list \<Rightarrow> 's \<times> 'w \<Rightarrow> 's \<times> 'w" where
  "after args = fold (\<lambda>a st. snd (invoke a st)) args"

lemma after_simps [simp]: "after [] st = st" "after (a # args) st = after args (snd (invoke a st))"
  by (simp_all add: after_def)

lemma calls_recorded: "argsForCall (kept (fst (after args (s, w)))) = argsForCall (kept s) @ args"
proof (induction args arbitrary: s w)
  case (Cons a args)
  obtain s' w' where step: "snd (invoke a (s, w)) = (s', w')" by (metis surj_pair)
  with keeps [of a s w] Cons [of s' w'] show ?case by (simp add: faked_call_def)
qed simp

lemma calls_logged:
  "invocations_of (log (fst (after args (s, w)))) key =
     invocations_of (log s) key @ (if key = name then map shown args else [])"
proof (induction args arbitrary: s w)
  case (Cons a args)
  obtain s' w' where step: "snd (invoke a (s, w)) = (s', w')" by (metis surj_pair)
  with logs [of a s w] Cons [of s' w'] show ?case by simp
qed simp

lemma log_wf: "go_wf (log s) \<Longrightarrow> go_wf (log (fst (after args (s, w))))"
proof (induction args arbitrary: s w)
  case (Cons a args)
  obtain s' w' where step: "snd (invoke a (s, w)) = (s', w')" by (metis surj_pair)
  with logs [of a s w] Cons.prems have "go_wf (log s')" by (simp add: record_invocation_def)
  with Cons.IH [of s' w'] step show ?case by simp
qed simp

lemma settings_kept:
  "Stub (kept (fst (after args (s, w)))) = Stub (kept s)" "returns (kept (fst (after args (s, w)))) = returns (kept s)"
  "returnsOnCall (kept (fst (after args (s, w)))) = returnsOnCall (kept s)"
proof -
  have "Stub (kept (fst (after args (s, w)))) = Stub (kept s) \<and> returns (kept (fst (after args (s, w)))) = returns (kept s) \<and>
      returnsOnCall (kept (fst (after args (s, w)))) = returnsOnCall (kept s)"
  proof (induction args arbitrary: s w)
    case (Cons a args)
    obtain s' w' where step: "snd (invoke a (s, w)) = (s', w')" by (metis surj_pair)
    with keeps [of a s w] Cons [of s' w'] show ?case by (simp add: faked_call_def)
  qed simp
  then show "Stub (kept (fst (after args (s, w)))) = Stub (kept s)" "returns (kept (fst (after args (s, w)))) = returns (kept s)"
    "returnsOnCall (kept (fst (after args (s, w)))) = returnsOnCall (kept s)" by blast+
qed

text \<open>Without a stub the test's state is untouched, and the n-th call has the result that was set for it, or for all.\<close>

lemma world_kept: "Stub (kept s) = None \<Longrightarrow> snd (after args (s, w)) = w"
proof (induction args arbitrary: s w)
  case (Cons x args)
  obtain r s' w' where step: "invoke x (s, w) = (r, s', w')" by (metis surj_pair)
  with answers [of x s w] Cons.prems have "w' = w"
    by (auto simp: faked_result_def Let_def split: option.splits)
  moreover have "Stub (kept s') = None" using keeps [of x s w] step Cons.prems by (simp add: faked_call_def)
  ultimately show ?case using Cons.IH [of s' w'] step by simp
qed simp

lemma nth_result:
  assumes "Stub (kept s) = None" "argsForCall (kept s) = []"
  shows "fst (invoke a (after args (s, w))) =
    (case go_get (returnsOnCall (kept s)) (of_nat (length args)) of Some ret \<Rightarrow> ret | None \<Rightarrow> returns (kept s))"
proof -
  obtain s' w' where st: "after args (s, w) = (s', w')" by (metis surj_pair)
  have same: "Stub (kept s') = None" "returns (kept s') = returns (kept s)"
    "returnsOnCall (kept s') = returnsOnCall (kept s)" "argsForCall (kept s') = args"
    using settings_kept [of args s w] calls_recorded [of args s w] st assms by simp_all
  have "fst (invoke a (s', w')) = fst (faked_result a (kept s') w')" using answers [of a s' w'] by (metis fst_conv)
  then show ?thesis
    unfolding st by (simp add: faked_result_def Let_def same split: option.split)
qed

end

section \<open>Reading the records\<close>

lemma ArgsForCall_nth:
  assumes "i < 2 ^ 63"
  shows "faked_ArgsForCall (of_nat i) m = (if i < length (argsForCall m) then Some (argsForCall m ! i) else None)"
proof -
  have "sint (of_nat i :: int64) = int i" using assms by (simp add: signed_of_nat signed_take_bit_int_eq_self)
  then show ?thesis by (simp add: faked_ArgsForCall_def)
qed

lemma CallCount_append: "faked_CallCount (m\<lparr>argsForCall := xs @ ys\<rparr>) = faked_CallCount (m\<lparr>argsForCall := xs\<rparr>) + of_nat (length ys)"
  by (simp add: faked_CallCount_def)

text \<open>Setting a result withdraws the stub, and the results of single calls stay when the result of all calls is set.\<close>

lemma faked_settings [simp]:
  "Stub (faked_Returns r m) = None" "returns (faked_Returns r m) = r" "returnsOnCall (faked_Returns r m) = returnsOnCall m"
  "argsForCall (faked_Returns r m) = argsForCall m"
  "Stub (faked_ReturnsOnCall i r m) = None" "returns (faked_ReturnsOnCall i r m) = returns m"
  "returnsOnCall (faked_ReturnsOnCall i r m) = go_put (returnsOnCall m) i r" "argsForCall (faked_ReturnsOnCall i r m) = argsForCall m"
  "Stub (new_faked z) = None" "returns (new_faked z) = z" "returnsOnCall (new_faked z) = []" "argsForCall (new_faked z) = []"
  by (simp_all add: faked_Returns_def faked_ReturnsOnCall_def new_faked_def)

end
