(* ===== verification/Fake_Emitters.thy ===== *)
theory Fake_Emitters
  imports Test_Doubles
begin

text \<open>
  The doubles \<open>FakeNATSEmitter\<close> and \<open>FakeRoutingAPIEmitter\<close> (\<open>emitter/fakes/\<close>) and \<open>FakeCache\<close>
  (\<open>unregistration/fakes/\<close>), method by method, and that every method keeps the contract of a double.
\<close>

section \<open>\<open>FakeNATSEmitter\<close>\<close>

record 'w FakeNATSEmitter =
  fne_Emit :: "(MessagesToEmit, go_error option, 'w) faked"
  fne_invocations :: invocations

definition new_FakeNATSEmitter :: "'w FakeNATSEmitter" where
  "new_FakeNATSEmitter =
     \<lparr>fne_Emit = new_faked None,
      fne_invocations = []\<rparr>"

definition FakeNATSEmitter_recordInvocation :: "string \<Rightarrow> any list \<Rightarrow> 'w FakeNATSEmitter \<Rightarrow> 'w FakeNATSEmitter" where
  "FakeNATSEmitter_recordInvocation key args fake = fake\<lparr>fne_invocations := record_invocation key args (fne_invocations fake)\<rparr>"

definition FakeNATSEmitter_Invocations :: "'w FakeNATSEmitter \<Rightarrow> invocations" where
  "FakeNATSEmitter_Invocations fake = go_copy (fne_invocations fake)"

text \<open>\<open>Emit\<close>\<close>

definition FakeNATSEmitter_Emit :: "MessagesToEmit \<Rightarrow> 'w FakeNATSEmitter \<times> 'w \<Rightarrow> go_error option \<times> 'w FakeNATSEmitter \<times> 'w" where
  "FakeNATSEmitter_Emit = (\<lambda>arg1 (fake, w).
     (let (ret, w') = faked_result arg1 (fne_Emit fake) w in
      (ret, FakeNATSEmitter_recordInvocation ''Emit'' [AnyMessagesToEmit arg1] (fake\<lparr>fne_Emit := faked_call arg1 (fne_Emit fake)\<rparr>), w')))"

definition FakeNATSEmitter_EmitCallCount :: "'w FakeNATSEmitter \<Rightarrow> int64" where
  "FakeNATSEmitter_EmitCallCount fake = faked_CallCount (fne_Emit fake)"

definition FakeNATSEmitter_EmitCalls :: "(MessagesToEmit \<Rightarrow> 'w \<Rightarrow> go_error option \<times> 'w) option \<Rightarrow> 'w FakeNATSEmitter \<Rightarrow> 'w FakeNATSEmitter" where
  "FakeNATSEmitter_EmitCalls stub fake = fake\<lparr>fne_Emit := faked_Calls stub (fne_Emit fake)\<rparr>"

definition FakeNATSEmitter_EmitArgsForCall :: "int64 \<Rightarrow> 'w FakeNATSEmitter \<Rightarrow> MessagesToEmit option" where
  "FakeNATSEmitter_EmitArgsForCall i fake = faked_ArgsForCall i (fne_Emit fake)"

definition FakeNATSEmitter_EmitReturns :: "go_error option \<Rightarrow> 'w FakeNATSEmitter \<Rightarrow> 'w FakeNATSEmitter" where
  "FakeNATSEmitter_EmitReturns result fake = fake\<lparr>fne_Emit := faked_Returns result (fne_Emit fake)\<rparr>"

definition FakeNATSEmitter_EmitReturnsOnCall :: "int64 \<Rightarrow> go_error option \<Rightarrow> 'w FakeNATSEmitter \<Rightarrow> 'w FakeNATSEmitter" where
  "FakeNATSEmitter_EmitReturnsOnCall i result fake = fake\<lparr>fne_Emit := faked_ReturnsOnCall i result (fne_Emit fake)\<rparr>"

lemmas FakeNATSEmitter_invoke = FakeNATSEmitter_recordInvocation_def
  FakeNATSEmitter_Emit_def

interpretation fne_Emit: test_double fne_Emit fne_invocations "''Emit''" "\<lambda>arg1. [AnyMessagesToEmit arg1]" FakeNATSEmitter_Emit
  by unfold_locales (auto simp: FakeNATSEmitter_invoke Let_def split: prod.splits)

section \<open>\<open>FakeRoutingAPIEmitter\<close>\<close>

record 'w FakeRoutingAPIEmitter =
  fra_Emit :: "(TCPRouteMappings, go_error option, 'w) faked"
  fra_invocations :: invocations

definition new_FakeRoutingAPIEmitter :: "'w FakeRoutingAPIEmitter" where
  "new_FakeRoutingAPIEmitter =
     \<lparr>fra_Emit = new_faked None,
      fra_invocations = []\<rparr>"

definition FakeRoutingAPIEmitter_recordInvocation :: "string \<Rightarrow> any list \<Rightarrow> 'w FakeRoutingAPIEmitter \<Rightarrow> 'w FakeRoutingAPIEmitter" where
  "FakeRoutingAPIEmitter_recordInvocation key args fake = fake\<lparr>fra_invocations := record_invocation key args (fra_invocations fake)\<rparr>"

definition FakeRoutingAPIEmitter_Invocations :: "'w FakeRoutingAPIEmitter \<Rightarrow> invocations" where
  "FakeRoutingAPIEmitter_Invocations fake = go_copy (fra_invocations fake)"

text \<open>\<open>Emit\<close>\<close>

definition FakeRoutingAPIEmitter_Emit :: "TCPRouteMappings \<Rightarrow> 'w FakeRoutingAPIEmitter \<times> 'w \<Rightarrow> go_error option \<times> 'w FakeRoutingAPIEmitter \<times> 'w" where
  "FakeRoutingAPIEmitter_Emit = (\<lambda>arg1 (fake, w).
     (let (ret, w') = faked_result arg1 (fra_Emit fake) w in
      (ret, FakeRoutingAPIEmitter_recordInvocation ''Emit'' [AnyMappings arg1] (fake\<lparr>fra_Emit := faked_call arg1 (fra_Emit fake)\<rparr>), w')))"

definition FakeRoutingAPIEmitter_EmitCallCount :: "'w FakeRoutingAPIEmitter \<Rightarrow> int64" where
  "FakeRoutingAPIEmitter_EmitCallCount fake = faked_CallCount (fra_Emit fake)"

definition FakeRoutingAPIEmitter_EmitCalls :: "(TCPRouteMappings \<Rightarrow> 'w \<Rightarrow> go_error option \<times> 'w) option \<Rightarrow> 'w FakeRoutingAPIEmitter \<Rightarrow> 'w FakeRoutingAPIEmitter" where
  "FakeRoutingAPIEmitter_EmitCalls stub fake = fake\<lparr>fra_Emit := faked_Calls stub (fra_Emit fake)\<rparr>"

definition FakeRoutingAPIEmitter_EmitArgsForCall :: "int64 \<Rightarrow> 'w FakeRoutingAPIEmitter \<Rightarrow> TCPRouteMappings option" where
  "FakeRoutingAPIEmitter_EmitArgsForCall i fake = faked_ArgsForCall i (fra_Emit fake)"

definition FakeRoutingAPIEmitter_EmitReturns :: "go_error option \<Rightarrow> 'w FakeRoutingAPIEmitter \<Rightarrow> 'w FakeRoutingAPIEmitter" where
  "FakeRoutingAPIEmitter_EmitReturns result fake = fake\<lparr>fra_Emit := faked_Returns result (fra_Emit fake)\<rparr>"

definition FakeRoutingAPIEmitter_EmitReturnsOnCall :: "int64 \<Rightarrow> go_error option \<Rightarrow> 'w FakeRoutingAPIEmitter \<Rightarrow> 'w FakeRoutingAPIEmitter" where
  "FakeRoutingAPIEmitter_EmitReturnsOnCall i result fake = fake\<lparr>fra_Emit := faked_ReturnsOnCall i result (fra_Emit fake)\<rparr>"

lemmas FakeRoutingAPIEmitter_invoke = FakeRoutingAPIEmitter_recordInvocation_def
  FakeRoutingAPIEmitter_Emit_def

interpretation fra_Emit: test_double fra_Emit fra_invocations "''Emit''" "\<lambda>arg1. [AnyMappings arg1]" FakeRoutingAPIEmitter_Emit
  by unfold_locales (auto simp: FakeRoutingAPIEmitter_invoke Let_def split: prod.splits)

section \<open>\<open>FakeCache\<close>\<close>

record 'w FakeCache =
  fc_Add :: "(RegistryMessage list, go_error option, 'w) faked"
  fc_List :: "(unit, nat list, 'w) faked"
  fc_Remove :: "(RegistryMessage list, go_error option, 'w) faked"
  fc_invocations :: invocations

definition new_FakeCache :: "'w FakeCache" where
  "new_FakeCache =
     \<lparr>fc_Add = new_faked None,
      fc_List = new_faked [],
      fc_Remove = new_faked None,
      fc_invocations = []\<rparr>"

definition FakeCache_recordInvocation :: "string \<Rightarrow> any list \<Rightarrow> 'w FakeCache \<Rightarrow> 'w FakeCache" where
  "FakeCache_recordInvocation key args fake = fake\<lparr>fc_invocations := record_invocation key args (fc_invocations fake)\<rparr>"

definition FakeCache_Invocations :: "'w FakeCache \<Rightarrow> invocations" where
  "FakeCache_Invocations fake = go_copy (fc_invocations fake)"

text \<open>\<open>Add\<close>\<close>

definition FakeCache_Add :: "RegistryMessage list \<Rightarrow> 'w FakeCache \<times> 'w \<Rightarrow> go_error option \<times> 'w FakeCache \<times> 'w" where
  "FakeCache_Add = (\<lambda>arg1 (fake, w).
     (let (ret, w') = faked_result arg1 (fc_Add fake) w in
      (ret, FakeCache_recordInvocation ''Add'' [AnyMessages arg1] (fake\<lparr>fc_Add := faked_call arg1 (fc_Add fake)\<rparr>), w')))"

definition FakeCache_AddCallCount :: "'w FakeCache \<Rightarrow> int64" where
  "FakeCache_AddCallCount fake = faked_CallCount (fc_Add fake)"

definition FakeCache_AddCalls :: "(RegistryMessage list \<Rightarrow> 'w \<Rightarrow> go_error option \<times> 'w) option \<Rightarrow> 'w FakeCache \<Rightarrow> 'w FakeCache" where
  "FakeCache_AddCalls stub fake = fake\<lparr>fc_Add := faked_Calls stub (fc_Add fake)\<rparr>"

definition FakeCache_AddArgsForCall :: "int64 \<Rightarrow> 'w FakeCache \<Rightarrow> (RegistryMessage list) option" where
  "FakeCache_AddArgsForCall i fake = faked_ArgsForCall i (fc_Add fake)"

definition FakeCache_AddReturns :: "go_error option \<Rightarrow> 'w FakeCache \<Rightarrow> 'w FakeCache" where
  "FakeCache_AddReturns result fake = fake\<lparr>fc_Add := faked_Returns result (fc_Add fake)\<rparr>"

definition FakeCache_AddReturnsOnCall :: "int64 \<Rightarrow> go_error option \<Rightarrow> 'w FakeCache \<Rightarrow> 'w FakeCache" where
  "FakeCache_AddReturnsOnCall i result fake = fake\<lparr>fc_Add := faked_ReturnsOnCall i result (fc_Add fake)\<rparr>"

text \<open>\<open>List\<close>\<close>

definition FakeCache_List :: "unit \<Rightarrow> 'w FakeCache \<times> 'w \<Rightarrow> nat list \<times> 'w FakeCache \<times> 'w" where
  "FakeCache_List = (\<lambda>_ (fake, w).
     (let (ret, w') = faked_result () (fc_List fake) w in
      (ret, FakeCache_recordInvocation ''List'' [] (fake\<lparr>fc_List := faked_call () (fc_List fake)\<rparr>), w')))"

definition FakeCache_ListCallCount :: "'w FakeCache \<Rightarrow> int64" where
  "FakeCache_ListCallCount fake = faked_CallCount (fc_List fake)"

definition FakeCache_ListCalls :: "(unit \<Rightarrow> 'w \<Rightarrow> nat list \<times> 'w) option \<Rightarrow> 'w FakeCache \<Rightarrow> 'w FakeCache" where
  "FakeCache_ListCalls stub fake = fake\<lparr>fc_List := faked_Calls stub (fc_List fake)\<rparr>"

definition FakeCache_ListReturns :: "nat list \<Rightarrow> 'w FakeCache \<Rightarrow> 'w FakeCache" where
  "FakeCache_ListReturns result fake = fake\<lparr>fc_List := faked_Returns result (fc_List fake)\<rparr>"

definition FakeCache_ListReturnsOnCall :: "int64 \<Rightarrow> nat list \<Rightarrow> 'w FakeCache \<Rightarrow> 'w FakeCache" where
  "FakeCache_ListReturnsOnCall i result fake = fake\<lparr>fc_List := faked_ReturnsOnCall i result (fc_List fake)\<rparr>"

text \<open>\<open>Remove\<close>\<close>

definition FakeCache_Remove :: "RegistryMessage list \<Rightarrow> 'w FakeCache \<times> 'w \<Rightarrow> go_error option \<times> 'w FakeCache \<times> 'w" where
  "FakeCache_Remove = (\<lambda>arg1 (fake, w).
     (let (ret, w') = faked_result arg1 (fc_Remove fake) w in
      (ret, FakeCache_recordInvocation ''Remove'' [AnyMessages arg1] (fake\<lparr>fc_Remove := faked_call arg1 (fc_Remove fake)\<rparr>), w')))"

definition FakeCache_RemoveCallCount :: "'w FakeCache \<Rightarrow> int64" where
  "FakeCache_RemoveCallCount fake = faked_CallCount (fc_Remove fake)"

definition FakeCache_RemoveCalls :: "(RegistryMessage list \<Rightarrow> 'w \<Rightarrow> go_error option \<times> 'w) option \<Rightarrow> 'w FakeCache \<Rightarrow> 'w FakeCache" where
  "FakeCache_RemoveCalls stub fake = fake\<lparr>fc_Remove := faked_Calls stub (fc_Remove fake)\<rparr>"

definition FakeCache_RemoveArgsForCall :: "int64 \<Rightarrow> 'w FakeCache \<Rightarrow> (RegistryMessage list) option" where
  "FakeCache_RemoveArgsForCall i fake = faked_ArgsForCall i (fc_Remove fake)"

definition FakeCache_RemoveReturns :: "go_error option \<Rightarrow> 'w FakeCache \<Rightarrow> 'w FakeCache" where
  "FakeCache_RemoveReturns result fake = fake\<lparr>fc_Remove := faked_Returns result (fc_Remove fake)\<rparr>"

definition FakeCache_RemoveReturnsOnCall :: "int64 \<Rightarrow> go_error option \<Rightarrow> 'w FakeCache \<Rightarrow> 'w FakeCache" where
  "FakeCache_RemoveReturnsOnCall i result fake = fake\<lparr>fc_Remove := faked_ReturnsOnCall i result (fc_Remove fake)\<rparr>"

lemmas FakeCache_invoke = FakeCache_recordInvocation_def
  FakeCache_Add_def
  FakeCache_List_def
  FakeCache_Remove_def

interpretation fc_Add: test_double fc_Add fc_invocations "''Add''" "\<lambda>arg1. [AnyMessages arg1]" FakeCache_Add
  by unfold_locales (auto simp: FakeCache_invoke Let_def split: prod.splits)

interpretation fc_List: test_double fc_List fc_invocations "''List''" "\<lambda>_. []" FakeCache_List
  by unfold_locales (auto simp: FakeCache_invoke Let_def split: prod.splits)

interpretation fc_Remove: test_double fc_Remove fc_invocations "''Remove''" "\<lambda>arg1. [AnyMessages arg1]" FakeCache_Remove
  by unfold_locales (auto simp: FakeCache_invoke Let_def split: prod.splits)

section \<open>A scripted emitter\<close>

text \<open>
  An emitter that is told to fail in one call fails in that call and in no other, and its records are the messages it
  was given, in order, whichever way a test reads them.
\<close>

theorem scripted_emitter:
  fixes w :: 'w
  assumes "length msgs < 2 ^ 63" "i < 2 ^ 63"
  shows "let fake = FakeNATSEmitter_EmitReturnsOnCall (of_nat i) (Some err) new_FakeNATSEmitter;
      st = fold (\<lambda>m st. snd (FakeNATSEmitter_Emit m st)) msgs (fake, w) in
    fst (FakeNATSEmitter_Emit m st) = (if length msgs = i then Some err else None) \<and>
    FakeNATSEmitter_EmitCallCount (fst st) = of_nat (length msgs) \<and>
    (\<forall>k < length msgs. FakeNATSEmitter_EmitArgsForCall (of_nat k) (fst st) = Some (msgs ! k)) \<and>
    invocations_of (FakeNATSEmitter_Invocations (fst st)) ''Emit'' = map (\<lambda>m. [AnyMessagesToEmit m]) msgs"
proof -
  let ?fake = "FakeNATSEmitter_EmitReturnsOnCall (of_nat i) (Some err) new_FakeNATSEmitter :: 'w FakeNATSEmitter"
  let ?st = "fold (\<lambda>m st. snd (FakeNATSEmitter_Emit m st)) msgs (?fake, w)"
  have after: "?st = fne_Emit.after msgs (?fake, w)" by (simp add: fne_Emit.after_def)
  have fake: "fne_Emit ?fake = faked_ReturnsOnCall (of_nat i) (Some err) (new_faked None)" "fne_invocations ?fake = []"
    by (simp_all add: FakeNATSEmitter_EmitReturnsOnCall_def new_FakeNATSEmitter_def)
  have inj: "(of_nat (length msgs) = (of_nat i :: int64)) = (length msgs = i)"
    using assms by (simp add: word_of_nat_eq_iff take_bit_nat_eq_self)
  have "fst (FakeNATSEmitter_Emit m ?st) = (if length msgs = i then Some err else None)"
    using fne_Emit.nth_result [of ?fake m msgs w] unfolding after by (simp add: fake inj)
  moreover have args: "argsForCall (fne_Emit (fst ?st)) = msgs"
    using fne_Emit.calls_recorded [of msgs ?fake w] unfolding after by (simp add: fake)
  moreover have "invocations_of (fne_invocations (fst ?st)) ''Emit'' = map (\<lambda>m. [AnyMessagesToEmit m]) msgs"
    using fne_Emit.calls_logged [of msgs ?fake w "''Emit''"] unfolding after by (simp add: fake invocations_of_def)
  moreover have "go_wf (fne_invocations (fst ?st))"
    using fne_Emit.log_wf [of ?fake msgs w] unfolding after by (simp add: fake)
  ultimately show ?thesis
    using assms by (simp add: Let_def FakeNATSEmitter_EmitCallCount_def FakeNATSEmitter_EmitArgsForCall_def
        FakeNATSEmitter_Invocations_def faked_CallCount_def ArgsForCall_nth)
qed

end
