(* ===== verification/Fake_Handler.thy ===== *)
theory Fake_Handler
  imports Test_Doubles
begin

text \<open>
  The double \<open>FakeRouteHandler\<close> (\<open>watcher/fakes/fake_routehandler.go\<close>) the watcher is tested against, method by
  method. The theorem shows that what it has recorded after any calls of the watcher are these calls.
\<close>

section \<open>\<open>FakeRouteHandler\<close>\<close>

record 'w FakeRouteHandler =
  fh_EmitExternal :: "(logger, unit, 'w) faked"
  fh_EmitInternal :: "(logger, unit, 'w) faked"
  fh_HandleEvent :: "(logger \<times> Event, unit, 'w) faked"
  fh_RefreshDesired :: "(logger \<times> DesiredLRP list, unit, 'w) faked"
  fh_ShouldRefreshDesired :: "(ActualLRP, bool, 'w) faked"
  fh_Sync :: "(logger \<times> DesiredLRP list \<times> ActualLRP list \<times> DomainSet \<times> (string, Event) gomap, unit, 'w) faked"
  fh_invocations :: invocations

definition new_FakeRouteHandler :: "'w FakeRouteHandler" where
  "new_FakeRouteHandler =
     \<lparr>fh_EmitExternal = new_faked (),
      fh_EmitInternal = new_faked (),
      fh_HandleEvent = new_faked (),
      fh_RefreshDesired = new_faked (),
      fh_ShouldRefreshDesired = new_faked False,
      fh_Sync = new_faked (),
      fh_invocations = []\<rparr>"

definition FakeRouteHandler_recordInvocation :: "string \<Rightarrow> any list \<Rightarrow> 'w FakeRouteHandler \<Rightarrow> 'w FakeRouteHandler" where
  "FakeRouteHandler_recordInvocation key args fake = fake\<lparr>fh_invocations := record_invocation key args (fh_invocations fake)\<rparr>"

definition FakeRouteHandler_Invocations :: "'w FakeRouteHandler \<Rightarrow> invocations" where
  "FakeRouteHandler_Invocations fake = go_copy (fh_invocations fake)"

text \<open>\<open>EmitExternal\<close>\<close>

definition FakeRouteHandler_EmitExternal :: "logger \<Rightarrow> 'w FakeRouteHandler \<times> 'w \<Rightarrow> unit \<times> 'w FakeRouteHandler \<times> 'w" where
  "FakeRouteHandler_EmitExternal = (\<lambda>arg1 (fake, w).
     (let (ret, w') = faked_result arg1 (fh_EmitExternal fake) w in
      (ret, FakeRouteHandler_recordInvocation ''EmitExternal'' [AnyLogger arg1] (fake\<lparr>fh_EmitExternal := faked_call arg1 (fh_EmitExternal fake)\<rparr>), w')))"

definition FakeRouteHandler_EmitExternalCallCount :: "'w FakeRouteHandler \<Rightarrow> int64" where
  "FakeRouteHandler_EmitExternalCallCount fake = faked_CallCount (fh_EmitExternal fake)"

definition FakeRouteHandler_EmitExternalCalls :: "(logger \<Rightarrow> 'w \<Rightarrow> unit \<times> 'w) option \<Rightarrow> 'w FakeRouteHandler \<Rightarrow> 'w FakeRouteHandler" where
  "FakeRouteHandler_EmitExternalCalls stub fake = fake\<lparr>fh_EmitExternal := faked_Calls stub (fh_EmitExternal fake)\<rparr>"

definition FakeRouteHandler_EmitExternalArgsForCall :: "int64 \<Rightarrow> 'w FakeRouteHandler \<Rightarrow> logger option" where
  "FakeRouteHandler_EmitExternalArgsForCall i fake = faked_ArgsForCall i (fh_EmitExternal fake)"

text \<open>\<open>EmitInternal\<close>\<close>

definition FakeRouteHandler_EmitInternal :: "logger \<Rightarrow> 'w FakeRouteHandler \<times> 'w \<Rightarrow> unit \<times> 'w FakeRouteHandler \<times> 'w" where
  "FakeRouteHandler_EmitInternal = (\<lambda>arg1 (fake, w).
     (let (ret, w') = faked_result arg1 (fh_EmitInternal fake) w in
      (ret, FakeRouteHandler_recordInvocation ''EmitInternal'' [AnyLogger arg1] (fake\<lparr>fh_EmitInternal := faked_call arg1 (fh_EmitInternal fake)\<rparr>), w')))"

definition FakeRouteHandler_EmitInternalCallCount :: "'w FakeRouteHandler \<Rightarrow> int64" where
  "FakeRouteHandler_EmitInternalCallCount fake = faked_CallCount (fh_EmitInternal fake)"

definition FakeRouteHandler_EmitInternalCalls :: "(logger \<Rightarrow> 'w \<Rightarrow> unit \<times> 'w) option \<Rightarrow> 'w FakeRouteHandler \<Rightarrow> 'w FakeRouteHandler" where
  "FakeRouteHandler_EmitInternalCalls stub fake = fake\<lparr>fh_EmitInternal := faked_Calls stub (fh_EmitInternal fake)\<rparr>"

definition FakeRouteHandler_EmitInternalArgsForCall :: "int64 \<Rightarrow> 'w FakeRouteHandler \<Rightarrow> logger option" where
  "FakeRouteHandler_EmitInternalArgsForCall i fake = faked_ArgsForCall i (fh_EmitInternal fake)"

text \<open>\<open>HandleEvent\<close>\<close>

definition FakeRouteHandler_HandleEvent :: "(logger \<times> Event) \<Rightarrow> 'w FakeRouteHandler \<times> 'w \<Rightarrow> unit \<times> 'w FakeRouteHandler \<times> 'w" where
  "FakeRouteHandler_HandleEvent = (\<lambda>(arg1, arg2) (fake, w).
     (let (ret, w') = faked_result (arg1, arg2) (fh_HandleEvent fake) w in
      (ret, FakeRouteHandler_recordInvocation ''HandleEvent'' [AnyLogger arg1, AnyEvent arg2] (fake\<lparr>fh_HandleEvent := faked_call (arg1, arg2) (fh_HandleEvent fake)\<rparr>), w')))"

definition FakeRouteHandler_HandleEventCallCount :: "'w FakeRouteHandler \<Rightarrow> int64" where
  "FakeRouteHandler_HandleEventCallCount fake = faked_CallCount (fh_HandleEvent fake)"

definition FakeRouteHandler_HandleEventCalls :: "((logger \<times> Event) \<Rightarrow> 'w \<Rightarrow> unit \<times> 'w) option \<Rightarrow> 'w FakeRouteHandler \<Rightarrow> 'w FakeRouteHandler" where
  "FakeRouteHandler_HandleEventCalls stub fake = fake\<lparr>fh_HandleEvent := faked_Calls stub (fh_HandleEvent fake)\<rparr>"

definition FakeRouteHandler_HandleEventArgsForCall :: "int64 \<Rightarrow> 'w FakeRouteHandler \<Rightarrow> (logger \<times> Event) option" where
  "FakeRouteHandler_HandleEventArgsForCall i fake = faked_ArgsForCall i (fh_HandleEvent fake)"

text \<open>\<open>RefreshDesired\<close>\<close>

definition FakeRouteHandler_RefreshDesired :: "(logger \<times> DesiredLRP list) \<Rightarrow> 'w FakeRouteHandler \<times> 'w \<Rightarrow> unit \<times> 'w FakeRouteHandler \<times> 'w" where
  "FakeRouteHandler_RefreshDesired = (\<lambda>(arg1, arg2) (fake, w).
     (let (ret, w') = faked_result (arg1, arg2) (fh_RefreshDesired fake) w in
      (ret, FakeRouteHandler_recordInvocation ''RefreshDesired'' [AnyLogger arg1, AnyDesireds arg2] (fake\<lparr>fh_RefreshDesired := faked_call (arg1, arg2) (fh_RefreshDesired fake)\<rparr>), w')))"

definition FakeRouteHandler_RefreshDesiredCallCount :: "'w FakeRouteHandler \<Rightarrow> int64" where
  "FakeRouteHandler_RefreshDesiredCallCount fake = faked_CallCount (fh_RefreshDesired fake)"

definition FakeRouteHandler_RefreshDesiredCalls :: "((logger \<times> DesiredLRP list) \<Rightarrow> 'w \<Rightarrow> unit \<times> 'w) option \<Rightarrow> 'w FakeRouteHandler \<Rightarrow> 'w FakeRouteHandler" where
  "FakeRouteHandler_RefreshDesiredCalls stub fake = fake\<lparr>fh_RefreshDesired := faked_Calls stub (fh_RefreshDesired fake)\<rparr>"

definition FakeRouteHandler_RefreshDesiredArgsForCall :: "int64 \<Rightarrow> 'w FakeRouteHandler \<Rightarrow> (logger \<times> DesiredLRP list) option" where
  "FakeRouteHandler_RefreshDesiredArgsForCall i fake = faked_ArgsForCall i (fh_RefreshDesired fake)"

text \<open>\<open>ShouldRefreshDesired\<close>\<close>

definition FakeRouteHandler_ShouldRefreshDesired :: "ActualLRP \<Rightarrow> 'w FakeRouteHandler \<times> 'w \<Rightarrow> bool \<times> 'w FakeRouteHandler \<times> 'w" where
  "FakeRouteHandler_ShouldRefreshDesired = (\<lambda>arg1 (fake, w).
     (let (ret, w') = faked_result arg1 (fh_ShouldRefreshDesired fake) w in
      (ret, FakeRouteHandler_recordInvocation ''ShouldRefreshDesired'' [AnyActual arg1] (fake\<lparr>fh_ShouldRefreshDesired := faked_call arg1 (fh_ShouldRefreshDesired fake)\<rparr>), w')))"

definition FakeRouteHandler_ShouldRefreshDesiredCallCount :: "'w FakeRouteHandler \<Rightarrow> int64" where
  "FakeRouteHandler_ShouldRefreshDesiredCallCount fake = faked_CallCount (fh_ShouldRefreshDesired fake)"

definition FakeRouteHandler_ShouldRefreshDesiredCalls :: "(ActualLRP \<Rightarrow> 'w \<Rightarrow> bool \<times> 'w) option \<Rightarrow> 'w FakeRouteHandler \<Rightarrow> 'w FakeRouteHandler" where
  "FakeRouteHandler_ShouldRefreshDesiredCalls stub fake = fake\<lparr>fh_ShouldRefreshDesired := faked_Calls stub (fh_ShouldRefreshDesired fake)\<rparr>"

definition FakeRouteHandler_ShouldRefreshDesiredArgsForCall :: "int64 \<Rightarrow> 'w FakeRouteHandler \<Rightarrow> ActualLRP option" where
  "FakeRouteHandler_ShouldRefreshDesiredArgsForCall i fake = faked_ArgsForCall i (fh_ShouldRefreshDesired fake)"

definition FakeRouteHandler_ShouldRefreshDesiredReturns :: "bool \<Rightarrow> 'w FakeRouteHandler \<Rightarrow> 'w FakeRouteHandler" where
  "FakeRouteHandler_ShouldRefreshDesiredReturns result fake = fake\<lparr>fh_ShouldRefreshDesired := faked_Returns result (fh_ShouldRefreshDesired fake)\<rparr>"

definition FakeRouteHandler_ShouldRefreshDesiredReturnsOnCall :: "int64 \<Rightarrow> bool \<Rightarrow> 'w FakeRouteHandler \<Rightarrow> 'w FakeRouteHandler" where
  "FakeRouteHandler_ShouldRefreshDesiredReturnsOnCall i result fake = fake\<lparr>fh_ShouldRefreshDesired := faked_ReturnsOnCall i result (fh_ShouldRefreshDesired fake)\<rparr>"

text \<open>\<open>Sync\<close>\<close>

definition FakeRouteHandler_Sync :: "(logger \<times> DesiredLRP list \<times> ActualLRP list \<times> DomainSet \<times> (string, Event) gomap) \<Rightarrow> 'w FakeRouteHandler \<times> 'w \<Rightarrow> unit \<times> 'w FakeRouteHandler \<times> 'w" where
  "FakeRouteHandler_Sync = (\<lambda>(arg1, arg2, arg3, arg4, arg5) (fake, w).
     (let (ret, w') = faked_result (arg1, arg2, arg3, arg4, arg5) (fh_Sync fake) w in
      (ret, FakeRouteHandler_recordInvocation ''Sync'' [AnyLogger arg1, AnyDesireds arg2, AnyActuals arg3, AnyDomains arg4, AnyEvents arg5] (fake\<lparr>fh_Sync := faked_call (arg1, arg2, arg3, arg4, arg5) (fh_Sync fake)\<rparr>), w')))"

definition FakeRouteHandler_SyncCallCount :: "'w FakeRouteHandler \<Rightarrow> int64" where
  "FakeRouteHandler_SyncCallCount fake = faked_CallCount (fh_Sync fake)"

definition FakeRouteHandler_SyncCalls :: "((logger \<times> DesiredLRP list \<times> ActualLRP list \<times> DomainSet \<times> (string, Event) gomap) \<Rightarrow> 'w \<Rightarrow> unit \<times> 'w) option \<Rightarrow> 'w FakeRouteHandler \<Rightarrow> 'w FakeRouteHandler" where
  "FakeRouteHandler_SyncCalls stub fake = fake\<lparr>fh_Sync := faked_Calls stub (fh_Sync fake)\<rparr>"

definition FakeRouteHandler_SyncArgsForCall :: "int64 \<Rightarrow> 'w FakeRouteHandler \<Rightarrow> (logger \<times> DesiredLRP list \<times> ActualLRP list \<times> DomainSet \<times> (string, Event) gomap) option" where
  "FakeRouteHandler_SyncArgsForCall i fake = faked_ArgsForCall i (fh_Sync fake)"

lemmas FakeRouteHandler_invoke = FakeRouteHandler_recordInvocation_def
  FakeRouteHandler_EmitExternal_def
  FakeRouteHandler_EmitInternal_def
  FakeRouteHandler_HandleEvent_def
  FakeRouteHandler_RefreshDesired_def
  FakeRouteHandler_ShouldRefreshDesired_def
  FakeRouteHandler_Sync_def

interpretation fh_EmitExternal: test_double fh_EmitExternal fh_invocations "''EmitExternal''" "\<lambda>arg1. [AnyLogger arg1]" FakeRouteHandler_EmitExternal
  by unfold_locales (auto simp: FakeRouteHandler_invoke Let_def split: prod.splits)

interpretation fh_EmitInternal: test_double fh_EmitInternal fh_invocations "''EmitInternal''" "\<lambda>arg1. [AnyLogger arg1]" FakeRouteHandler_EmitInternal
  by unfold_locales (auto simp: FakeRouteHandler_invoke Let_def split: prod.splits)

interpretation fh_HandleEvent: test_double fh_HandleEvent fh_invocations "''HandleEvent''" "\<lambda>(arg1, arg2). [AnyLogger arg1, AnyEvent arg2]" FakeRouteHandler_HandleEvent
  by unfold_locales (auto simp: FakeRouteHandler_invoke Let_def split: prod.splits)

interpretation fh_RefreshDesired: test_double fh_RefreshDesired fh_invocations "''RefreshDesired''" "\<lambda>(arg1, arg2). [AnyLogger arg1, AnyDesireds arg2]" FakeRouteHandler_RefreshDesired
  by unfold_locales (auto simp: FakeRouteHandler_invoke Let_def split: prod.splits)

interpretation fh_ShouldRefreshDesired: test_double fh_ShouldRefreshDesired fh_invocations "''ShouldRefreshDesired''" "\<lambda>arg1. [AnyActual arg1]" FakeRouteHandler_ShouldRefreshDesired
  by unfold_locales (auto simp: FakeRouteHandler_invoke Let_def split: prod.splits)

interpretation fh_Sync: test_double fh_Sync fh_invocations "''Sync''" "\<lambda>(arg1, arg2, arg3, arg4, arg5). [AnyLogger arg1, AnyDesireds arg2, AnyActuals arg3, AnyDomains arg4, AnyEvents arg5]" FakeRouteHandler_Sync
  by unfold_locales (auto simp: FakeRouteHandler_invoke Let_def split: prod.splits)

section \<open>The watcher's calls\<close>

text \<open>A call of the watcher on the double, with the watcher's logger.\<close>

fun fake_do_call :: "logger \<Rightarrow> handler_call \<Rightarrow> 'w FakeRouteHandler \<times> 'w \<Rightarrow> 'w FakeRouteHandler \<times> 'w" where
  "fake_do_call logger (CallHandleEvent ev) st = snd (FakeRouteHandler_HandleEvent (logger, ev) st)"
| "fake_do_call logger (CallSync desired actuals domains cached) st =
     snd (FakeRouteHandler_Sync (logger, desired, actuals, domains, cached) st)"
| "fake_do_call logger (CallRefreshDesired lrps) st = snd (FakeRouteHandler_RefreshDesired (logger, lrps) st)"
| "fake_do_call logger CallEmitExternal st = snd (FakeRouteHandler_EmitExternal logger st)"
| "fake_do_call logger CallEmitInternal st = snd (FakeRouteHandler_EmitInternal logger st)"

text \<open>The calls of one kind among the watcher's calls.\<close>

definition handled_events :: "handler_call list \<Rightarrow> Event list" where
  "handled_events cs = concat (map (\<lambda>c. case c of CallHandleEvent ev \<Rightarrow> [ev] | _ \<Rightarrow> []) cs)"

definition refreshed :: "handler_call list \<Rightarrow> DesiredLRP list list" where
  "refreshed cs = concat (map (\<lambda>c. case c of CallRefreshDesired lrps \<Rightarrow> [lrps] | _ \<Rightarrow> []) cs)"

definition synced :: "handler_call list \<Rightarrow> (DesiredLRP list \<times> ActualLRP list \<times> DomainSet \<times> (string, Event) gomap) list" where
  "synced cs = concat (map (\<lambda>c. case c of CallSync ds as doms evs \<Rightarrow> [(ds, as, doms, evs)] | _ \<Rightarrow> []) cs)"

lemma fake_do_call_args:
  "argsForCall (fh_HandleEvent (fst (fake_do_call logger c st))) = argsForCall (fh_HandleEvent (fst st)) @ map (Pair logger) (handled_events [c])"
  "argsForCall (fh_RefreshDesired (fst (fake_do_call logger c st))) = argsForCall (fh_RefreshDesired (fst st)) @ map (Pair logger) (refreshed [c])"
  "argsForCall (fh_Sync (fst (fake_do_call logger c st))) = argsForCall (fh_Sync (fst st)) @ map (Pair logger) (synced [c])"
  "argsForCall (fh_EmitExternal (fst (fake_do_call logger c st))) =
     argsForCall (fh_EmitExternal (fst st)) @ (if c = CallEmitExternal then [logger] else [])"
  "argsForCall (fh_EmitInternal (fst (fake_do_call logger c st))) =
     argsForCall (fh_EmitInternal (fst st)) @ (if c = CallEmitInternal then [logger] else [])"
  by (cases c; cases st; auto simp: FakeRouteHandler_invoke faked_call_def handled_events_def refreshed_def synced_def Let_def
      split: prod.splits)+

text \<open>
  What the double has recorded after any calls of the watcher, whatever the stubs do, are these calls: each method has
  the arguments of its calls in their order, and nothing else.
\<close>

theorem fake_handler_records:
  fixes fake :: "'w FakeRouteHandler"
  shows "let fake' = fst (fold (fake_do_call logger) cs (fake, w)) in
    argsForCall (fh_HandleEvent fake') = argsForCall (fh_HandleEvent fake) @ map (Pair logger) (handled_events cs) \<and>
    argsForCall (fh_RefreshDesired fake') = argsForCall (fh_RefreshDesired fake) @ map (Pair logger) (refreshed cs) \<and>
    argsForCall (fh_Sync fake') = argsForCall (fh_Sync fake) @ map (Pair logger) (synced cs) \<and>
    FakeRouteHandler_EmitExternalCallCount fake' =
      FakeRouteHandler_EmitExternalCallCount fake + of_nat (length (filter ((=) CallEmitExternal) cs)) \<and>
    FakeRouteHandler_EmitInternalCallCount fake' =
      FakeRouteHandler_EmitInternalCallCount fake + of_nat (length (filter ((=) CallEmitInternal) cs))"
proof (induction cs arbitrary: fake w)
  case (Cons c cs)
  obtain fake1 w1 where step: "fake_do_call logger c (fake, w) = (fake1, w1)" by (metis surj_pair)
  note one = fake_do_call_args [of logger c "(fake, w)", unfolded step fst_conv]
  have more: "handled_events (c # cs) = handled_events [c] @ handled_events cs" "refreshed (c # cs) = refreshed [c] @ refreshed cs"
    "synced (c # cs) = synced [c] @ synced cs"
    by (simp_all add: handled_events_def refreshed_def synced_def)
  show ?case
    using Cons [of fake1 w1] one
    by (auto simp: step more Let_def FakeRouteHandler_EmitExternalCallCount_def FakeRouteHandler_EmitInternalCallCount_def
        faked_CallCount_def)
qed (simp add: handled_events_def refreshed_def synced_def)

text \<open>
  So a test that feeds the watcher an event outside a synchronisation sees exactly one \<open>HandleEvent\<close> with this event,
  after at most one \<open>RefreshDesired\<close>, and during a synchronisation it sees nothing.
\<close>

theorem event_seen_by_double:
  assumes "watcher_step E U C (InEvent ev) watcher = Some watcher'"
  shows "let cs = watcher_calls E C (InEvent ev) watcher in
    handled_events cs = (if w_syncing watcher then [] else [ev]) \<and> length (refreshed cs) \<le> 1 \<and> synced cs = []"
  using assms
  by (auto simp: watcher_handleEvent_def handled_events_def refreshed_def synced_def Let_def split: option.splits if_splits)

end
