(* ===== verification/Fake_Table.thy ===== *)
theory Fake_Table
  imports Test_Doubles
begin

text \<open>
  The double \<open>FakeRoutingTable\<close> (\<open>routingtable/fakeroutingtable/fake_routingtable.go\<close>), method by method, and that
  every method keeps the contract of a double.
\<close>

section \<open>\<open>FakeRoutingTable\<close>\<close>

record 'w FakeRoutingTable =
  ft_AddEndpoint :: "(logger \<times> ActualLRP, TCPRouteMappings \<times> MessagesToEmit, 'w) faked"
  ft_GetExternalRoutingEvents :: "(unit, TCPRouteMappings \<times> MessagesToEmit, 'w) faked"
  ft_GetInternalRoutingEvents :: "(unit, TCPRouteMappings \<times> MessagesToEmit, 'w) faked"
  ft_HTTPAssociationsCount :: "(unit, int64, 'w) faked"
  ft_HasExternalRoutes :: "(ActualLRP, bool, 'w) faked"
  ft_InternalAssociationsCount :: "(unit, int64, 'w) faked"
  ft_RemoveEndpoint :: "(logger \<times> ActualLRP, TCPRouteMappings \<times> MessagesToEmit, 'w) faked"
  ft_RemoveRoutes :: "(logger \<times> DesiredLRP option, TCPRouteMappings \<times> MessagesToEmit, 'w) faked"
  ft_SetRoutes :: "(logger \<times> DesiredLRP option \<times> DesiredLRP option, TCPRouteMappings \<times> MessagesToEmit, 'w) faked"
  ft_Swap :: "(logger \<times> routingTable option \<times> DomainSet, TCPRouteMappings \<times> MessagesToEmit, 'w) faked"
  ft_TCPAssociationsCount :: "(unit, int64, 'w) faked"
  ft_TableSize :: "(unit, int64, 'w) faked"
  ft_invocations :: invocations

definition new_FakeRoutingTable :: "'w FakeRoutingTable" where
  "new_FakeRoutingTable =
     \<lparr>ft_AddEndpoint = new_faked (no_mappings, no_messages),
      ft_GetExternalRoutingEvents = new_faked (no_mappings, no_messages),
      ft_GetInternalRoutingEvents = new_faked (no_mappings, no_messages),
      ft_HTTPAssociationsCount = new_faked 0,
      ft_HasExternalRoutes = new_faked False,
      ft_InternalAssociationsCount = new_faked 0,
      ft_RemoveEndpoint = new_faked (no_mappings, no_messages),
      ft_RemoveRoutes = new_faked (no_mappings, no_messages),
      ft_SetRoutes = new_faked (no_mappings, no_messages),
      ft_Swap = new_faked (no_mappings, no_messages),
      ft_TCPAssociationsCount = new_faked 0,
      ft_TableSize = new_faked 0,
      ft_invocations = []\<rparr>"

definition FakeRoutingTable_recordInvocation :: "string \<Rightarrow> any list \<Rightarrow> 'w FakeRoutingTable \<Rightarrow> 'w FakeRoutingTable" where
  "FakeRoutingTable_recordInvocation key args fake = fake\<lparr>ft_invocations := record_invocation key args (ft_invocations fake)\<rparr>"

definition FakeRoutingTable_Invocations :: "'w FakeRoutingTable \<Rightarrow> invocations" where
  "FakeRoutingTable_Invocations fake = go_copy (ft_invocations fake)"

text \<open>\<open>AddEndpoint\<close>\<close>

definition FakeRoutingTable_AddEndpoint :: "(logger \<times> ActualLRP) \<Rightarrow> 'w FakeRoutingTable \<times> 'w \<Rightarrow> (TCPRouteMappings \<times> MessagesToEmit) \<times> 'w FakeRoutingTable \<times> 'w" where
  "FakeRoutingTable_AddEndpoint = (\<lambda>(arg1, arg2) (fake, w).
     (let (ret, w') = faked_result (arg1, arg2) (ft_AddEndpoint fake) w in
      (ret, FakeRoutingTable_recordInvocation ''AddEndpoint'' [AnyLogger arg1, AnyActual arg2] (fake\<lparr>ft_AddEndpoint := faked_call (arg1, arg2) (ft_AddEndpoint fake)\<rparr>), w')))"

definition FakeRoutingTable_AddEndpointCallCount :: "'w FakeRoutingTable \<Rightarrow> int64" where
  "FakeRoutingTable_AddEndpointCallCount fake = faked_CallCount (ft_AddEndpoint fake)"

definition FakeRoutingTable_AddEndpointCalls :: "((logger \<times> ActualLRP) \<Rightarrow> 'w \<Rightarrow> (TCPRouteMappings \<times> MessagesToEmit) \<times> 'w) option \<Rightarrow> 'w FakeRoutingTable \<Rightarrow> 'w FakeRoutingTable" where
  "FakeRoutingTable_AddEndpointCalls stub fake = fake\<lparr>ft_AddEndpoint := faked_Calls stub (ft_AddEndpoint fake)\<rparr>"

definition FakeRoutingTable_AddEndpointArgsForCall :: "int64 \<Rightarrow> 'w FakeRoutingTable \<Rightarrow> (logger \<times> ActualLRP) option" where
  "FakeRoutingTable_AddEndpointArgsForCall i fake = faked_ArgsForCall i (ft_AddEndpoint fake)"

definition FakeRoutingTable_AddEndpointReturns :: "(TCPRouteMappings \<times> MessagesToEmit) \<Rightarrow> 'w FakeRoutingTable \<Rightarrow> 'w FakeRoutingTable" where
  "FakeRoutingTable_AddEndpointReturns result fake = fake\<lparr>ft_AddEndpoint := faked_Returns result (ft_AddEndpoint fake)\<rparr>"

definition FakeRoutingTable_AddEndpointReturnsOnCall :: "int64 \<Rightarrow> (TCPRouteMappings \<times> MessagesToEmit) \<Rightarrow> 'w FakeRoutingTable \<Rightarrow> 'w FakeRoutingTable" where
  "FakeRoutingTable_AddEndpointReturnsOnCall i result fake = fake\<lparr>ft_AddEndpoint := faked_ReturnsOnCall i result (ft_AddEndpoint fake)\<rparr>"

text \<open>\<open>GetExternalRoutingEvents\<close>\<close>

definition FakeRoutingTable_GetExternalRoutingEvents :: "unit \<Rightarrow> 'w FakeRoutingTable \<times> 'w \<Rightarrow> (TCPRouteMappings \<times> MessagesToEmit) \<times> 'w FakeRoutingTable \<times> 'w" where
  "FakeRoutingTable_GetExternalRoutingEvents = (\<lambda>_ (fake, w).
     (let (ret, w') = faked_result () (ft_GetExternalRoutingEvents fake) w in
      (ret, FakeRoutingTable_recordInvocation ''GetExternalRoutingEvents'' [] (fake\<lparr>ft_GetExternalRoutingEvents := faked_call () (ft_GetExternalRoutingEvents fake)\<rparr>), w')))"

definition FakeRoutingTable_GetExternalRoutingEventsCallCount :: "'w FakeRoutingTable \<Rightarrow> int64" where
  "FakeRoutingTable_GetExternalRoutingEventsCallCount fake = faked_CallCount (ft_GetExternalRoutingEvents fake)"

definition FakeRoutingTable_GetExternalRoutingEventsCalls :: "(unit \<Rightarrow> 'w \<Rightarrow> (TCPRouteMappings \<times> MessagesToEmit) \<times> 'w) option \<Rightarrow> 'w FakeRoutingTable \<Rightarrow> 'w FakeRoutingTable" where
  "FakeRoutingTable_GetExternalRoutingEventsCalls stub fake = fake\<lparr>ft_GetExternalRoutingEvents := faked_Calls stub (ft_GetExternalRoutingEvents fake)\<rparr>"

definition FakeRoutingTable_GetExternalRoutingEventsReturns :: "(TCPRouteMappings \<times> MessagesToEmit) \<Rightarrow> 'w FakeRoutingTable \<Rightarrow> 'w FakeRoutingTable" where
  "FakeRoutingTable_GetExternalRoutingEventsReturns result fake = fake\<lparr>ft_GetExternalRoutingEvents := faked_Returns result (ft_GetExternalRoutingEvents fake)\<rparr>"

definition FakeRoutingTable_GetExternalRoutingEventsReturnsOnCall :: "int64 \<Rightarrow> (TCPRouteMappings \<times> MessagesToEmit) \<Rightarrow> 'w FakeRoutingTable \<Rightarrow> 'w FakeRoutingTable" where
  "FakeRoutingTable_GetExternalRoutingEventsReturnsOnCall i result fake = fake\<lparr>ft_GetExternalRoutingEvents := faked_ReturnsOnCall i result (ft_GetExternalRoutingEvents fake)\<rparr>"

text \<open>\<open>GetInternalRoutingEvents\<close>\<close>

definition FakeRoutingTable_GetInternalRoutingEvents :: "unit \<Rightarrow> 'w FakeRoutingTable \<times> 'w \<Rightarrow> (TCPRouteMappings \<times> MessagesToEmit) \<times> 'w FakeRoutingTable \<times> 'w" where
  "FakeRoutingTable_GetInternalRoutingEvents = (\<lambda>_ (fake, w).
     (let (ret, w') = faked_result () (ft_GetInternalRoutingEvents fake) w in
      (ret, FakeRoutingTable_recordInvocation ''GetInternalRoutingEvents'' [] (fake\<lparr>ft_GetInternalRoutingEvents := faked_call () (ft_GetInternalRoutingEvents fake)\<rparr>), w')))"

definition FakeRoutingTable_GetInternalRoutingEventsCallCount :: "'w FakeRoutingTable \<Rightarrow> int64" where
  "FakeRoutingTable_GetInternalRoutingEventsCallCount fake = faked_CallCount (ft_GetInternalRoutingEvents fake)"

definition FakeRoutingTable_GetInternalRoutingEventsCalls :: "(unit \<Rightarrow> 'w \<Rightarrow> (TCPRouteMappings \<times> MessagesToEmit) \<times> 'w) option \<Rightarrow> 'w FakeRoutingTable \<Rightarrow> 'w FakeRoutingTable" where
  "FakeRoutingTable_GetInternalRoutingEventsCalls stub fake = fake\<lparr>ft_GetInternalRoutingEvents := faked_Calls stub (ft_GetInternalRoutingEvents fake)\<rparr>"

definition FakeRoutingTable_GetInternalRoutingEventsReturns :: "(TCPRouteMappings \<times> MessagesToEmit) \<Rightarrow> 'w FakeRoutingTable \<Rightarrow> 'w FakeRoutingTable" where
  "FakeRoutingTable_GetInternalRoutingEventsReturns result fake = fake\<lparr>ft_GetInternalRoutingEvents := faked_Returns result (ft_GetInternalRoutingEvents fake)\<rparr>"

definition FakeRoutingTable_GetInternalRoutingEventsReturnsOnCall :: "int64 \<Rightarrow> (TCPRouteMappings \<times> MessagesToEmit) \<Rightarrow> 'w FakeRoutingTable \<Rightarrow> 'w FakeRoutingTable" where
  "FakeRoutingTable_GetInternalRoutingEventsReturnsOnCall i result fake = fake\<lparr>ft_GetInternalRoutingEvents := faked_ReturnsOnCall i result (ft_GetInternalRoutingEvents fake)\<rparr>"

text \<open>\<open>HTTPAssociationsCount\<close>\<close>

definition FakeRoutingTable_HTTPAssociationsCount :: "unit \<Rightarrow> 'w FakeRoutingTable \<times> 'w \<Rightarrow> int64 \<times> 'w FakeRoutingTable \<times> 'w" where
  "FakeRoutingTable_HTTPAssociationsCount = (\<lambda>_ (fake, w).
     (let (ret, w') = faked_result () (ft_HTTPAssociationsCount fake) w in
      (ret, FakeRoutingTable_recordInvocation ''HTTPAssociationsCount'' [] (fake\<lparr>ft_HTTPAssociationsCount := faked_call () (ft_HTTPAssociationsCount fake)\<rparr>), w')))"

definition FakeRoutingTable_HTTPAssociationsCountCallCount :: "'w FakeRoutingTable \<Rightarrow> int64" where
  "FakeRoutingTable_HTTPAssociationsCountCallCount fake = faked_CallCount (ft_HTTPAssociationsCount fake)"

definition FakeRoutingTable_HTTPAssociationsCountCalls :: "(unit \<Rightarrow> 'w \<Rightarrow> int64 \<times> 'w) option \<Rightarrow> 'w FakeRoutingTable \<Rightarrow> 'w FakeRoutingTable" where
  "FakeRoutingTable_HTTPAssociationsCountCalls stub fake = fake\<lparr>ft_HTTPAssociationsCount := faked_Calls stub (ft_HTTPAssociationsCount fake)\<rparr>"

definition FakeRoutingTable_HTTPAssociationsCountReturns :: "int64 \<Rightarrow> 'w FakeRoutingTable \<Rightarrow> 'w FakeRoutingTable" where
  "FakeRoutingTable_HTTPAssociationsCountReturns result fake = fake\<lparr>ft_HTTPAssociationsCount := faked_Returns result (ft_HTTPAssociationsCount fake)\<rparr>"

definition FakeRoutingTable_HTTPAssociationsCountReturnsOnCall :: "int64 \<Rightarrow> int64 \<Rightarrow> 'w FakeRoutingTable \<Rightarrow> 'w FakeRoutingTable" where
  "FakeRoutingTable_HTTPAssociationsCountReturnsOnCall i result fake = fake\<lparr>ft_HTTPAssociationsCount := faked_ReturnsOnCall i result (ft_HTTPAssociationsCount fake)\<rparr>"

text \<open>\<open>HasExternalRoutes\<close>\<close>

definition FakeRoutingTable_HasExternalRoutes :: "ActualLRP \<Rightarrow> 'w FakeRoutingTable \<times> 'w \<Rightarrow> bool \<times> 'w FakeRoutingTable \<times> 'w" where
  "FakeRoutingTable_HasExternalRoutes = (\<lambda>arg1 (fake, w).
     (let (ret, w') = faked_result arg1 (ft_HasExternalRoutes fake) w in
      (ret, FakeRoutingTable_recordInvocation ''HasExternalRoutes'' [AnyActual arg1] (fake\<lparr>ft_HasExternalRoutes := faked_call arg1 (ft_HasExternalRoutes fake)\<rparr>), w')))"

definition FakeRoutingTable_HasExternalRoutesCallCount :: "'w FakeRoutingTable \<Rightarrow> int64" where
  "FakeRoutingTable_HasExternalRoutesCallCount fake = faked_CallCount (ft_HasExternalRoutes fake)"

definition FakeRoutingTable_HasExternalRoutesCalls :: "(ActualLRP \<Rightarrow> 'w \<Rightarrow> bool \<times> 'w) option \<Rightarrow> 'w FakeRoutingTable \<Rightarrow> 'w FakeRoutingTable" where
  "FakeRoutingTable_HasExternalRoutesCalls stub fake = fake\<lparr>ft_HasExternalRoutes := faked_Calls stub (ft_HasExternalRoutes fake)\<rparr>"

definition FakeRoutingTable_HasExternalRoutesArgsForCall :: "int64 \<Rightarrow> 'w FakeRoutingTable \<Rightarrow> ActualLRP option" where
  "FakeRoutingTable_HasExternalRoutesArgsForCall i fake = faked_ArgsForCall i (ft_HasExternalRoutes fake)"

definition FakeRoutingTable_HasExternalRoutesReturns :: "bool \<Rightarrow> 'w FakeRoutingTable \<Rightarrow> 'w FakeRoutingTable" where
  "FakeRoutingTable_HasExternalRoutesReturns result fake = fake\<lparr>ft_HasExternalRoutes := faked_Returns result (ft_HasExternalRoutes fake)\<rparr>"

definition FakeRoutingTable_HasExternalRoutesReturnsOnCall :: "int64 \<Rightarrow> bool \<Rightarrow> 'w FakeRoutingTable \<Rightarrow> 'w FakeRoutingTable" where
  "FakeRoutingTable_HasExternalRoutesReturnsOnCall i result fake = fake\<lparr>ft_HasExternalRoutes := faked_ReturnsOnCall i result (ft_HasExternalRoutes fake)\<rparr>"

text \<open>\<open>InternalAssociationsCount\<close>\<close>

definition FakeRoutingTable_InternalAssociationsCount :: "unit \<Rightarrow> 'w FakeRoutingTable \<times> 'w \<Rightarrow> int64 \<times> 'w FakeRoutingTable \<times> 'w" where
  "FakeRoutingTable_InternalAssociationsCount = (\<lambda>_ (fake, w).
     (let (ret, w') = faked_result () (ft_InternalAssociationsCount fake) w in
      (ret, FakeRoutingTable_recordInvocation ''InternalAssociationsCount'' [] (fake\<lparr>ft_InternalAssociationsCount := faked_call () (ft_InternalAssociationsCount fake)\<rparr>), w')))"

definition FakeRoutingTable_InternalAssociationsCountCallCount :: "'w FakeRoutingTable \<Rightarrow> int64" where
  "FakeRoutingTable_InternalAssociationsCountCallCount fake = faked_CallCount (ft_InternalAssociationsCount fake)"

definition FakeRoutingTable_InternalAssociationsCountCalls :: "(unit \<Rightarrow> 'w \<Rightarrow> int64 \<times> 'w) option \<Rightarrow> 'w FakeRoutingTable \<Rightarrow> 'w FakeRoutingTable" where
  "FakeRoutingTable_InternalAssociationsCountCalls stub fake = fake\<lparr>ft_InternalAssociationsCount := faked_Calls stub (ft_InternalAssociationsCount fake)\<rparr>"

definition FakeRoutingTable_InternalAssociationsCountReturns :: "int64 \<Rightarrow> 'w FakeRoutingTable \<Rightarrow> 'w FakeRoutingTable" where
  "FakeRoutingTable_InternalAssociationsCountReturns result fake = fake\<lparr>ft_InternalAssociationsCount := faked_Returns result (ft_InternalAssociationsCount fake)\<rparr>"

definition FakeRoutingTable_InternalAssociationsCountReturnsOnCall :: "int64 \<Rightarrow> int64 \<Rightarrow> 'w FakeRoutingTable \<Rightarrow> 'w FakeRoutingTable" where
  "FakeRoutingTable_InternalAssociationsCountReturnsOnCall i result fake = fake\<lparr>ft_InternalAssociationsCount := faked_ReturnsOnCall i result (ft_InternalAssociationsCount fake)\<rparr>"

text \<open>\<open>RemoveEndpoint\<close>\<close>

definition FakeRoutingTable_RemoveEndpoint :: "(logger \<times> ActualLRP) \<Rightarrow> 'w FakeRoutingTable \<times> 'w \<Rightarrow> (TCPRouteMappings \<times> MessagesToEmit) \<times> 'w FakeRoutingTable \<times> 'w" where
  "FakeRoutingTable_RemoveEndpoint = (\<lambda>(arg1, arg2) (fake, w).
     (let (ret, w') = faked_result (arg1, arg2) (ft_RemoveEndpoint fake) w in
      (ret, FakeRoutingTable_recordInvocation ''RemoveEndpoint'' [AnyLogger arg1, AnyActual arg2] (fake\<lparr>ft_RemoveEndpoint := faked_call (arg1, arg2) (ft_RemoveEndpoint fake)\<rparr>), w')))"

definition FakeRoutingTable_RemoveEndpointCallCount :: "'w FakeRoutingTable \<Rightarrow> int64" where
  "FakeRoutingTable_RemoveEndpointCallCount fake = faked_CallCount (ft_RemoveEndpoint fake)"

definition FakeRoutingTable_RemoveEndpointCalls :: "((logger \<times> ActualLRP) \<Rightarrow> 'w \<Rightarrow> (TCPRouteMappings \<times> MessagesToEmit) \<times> 'w) option \<Rightarrow> 'w FakeRoutingTable \<Rightarrow> 'w FakeRoutingTable" where
  "FakeRoutingTable_RemoveEndpointCalls stub fake = fake\<lparr>ft_RemoveEndpoint := faked_Calls stub (ft_RemoveEndpoint fake)\<rparr>"

definition FakeRoutingTable_RemoveEndpointArgsForCall :: "int64 \<Rightarrow> 'w FakeRoutingTable \<Rightarrow> (logger \<times> ActualLRP) option" where
  "FakeRoutingTable_RemoveEndpointArgsForCall i fake = faked_ArgsForCall i (ft_RemoveEndpoint fake)"

definition FakeRoutingTable_RemoveEndpointReturns :: "(TCPRouteMappings \<times> MessagesToEmit) \<Rightarrow> 'w FakeRoutingTable \<Rightarrow> 'w FakeRoutingTable" where
  "FakeRoutingTable_RemoveEndpointReturns result fake = fake\<lparr>ft_RemoveEndpoint := faked_Returns result (ft_RemoveEndpoint fake)\<rparr>"

definition FakeRoutingTable_RemoveEndpointReturnsOnCall :: "int64 \<Rightarrow> (TCPRouteMappings \<times> MessagesToEmit) \<Rightarrow> 'w FakeRoutingTable \<Rightarrow> 'w FakeRoutingTable" where
  "FakeRoutingTable_RemoveEndpointReturnsOnCall i result fake = fake\<lparr>ft_RemoveEndpoint := faked_ReturnsOnCall i result (ft_RemoveEndpoint fake)\<rparr>"

text \<open>\<open>RemoveRoutes\<close>\<close>

definition FakeRoutingTable_RemoveRoutes :: "(logger \<times> DesiredLRP option) \<Rightarrow> 'w FakeRoutingTable \<times> 'w \<Rightarrow> (TCPRouteMappings \<times> MessagesToEmit) \<times> 'w FakeRoutingTable \<times> 'w" where
  "FakeRoutingTable_RemoveRoutes = (\<lambda>(arg1, arg2) (fake, w).
     (let (ret, w') = faked_result (arg1, arg2) (ft_RemoveRoutes fake) w in
      (ret, FakeRoutingTable_recordInvocation ''RemoveRoutes'' [AnyLogger arg1, AnyDesired arg2] (fake\<lparr>ft_RemoveRoutes := faked_call (arg1, arg2) (ft_RemoveRoutes fake)\<rparr>), w')))"

definition FakeRoutingTable_RemoveRoutesCallCount :: "'w FakeRoutingTable \<Rightarrow> int64" where
  "FakeRoutingTable_RemoveRoutesCallCount fake = faked_CallCount (ft_RemoveRoutes fake)"

definition FakeRoutingTable_RemoveRoutesCalls :: "((logger \<times> DesiredLRP option) \<Rightarrow> 'w \<Rightarrow> (TCPRouteMappings \<times> MessagesToEmit) \<times> 'w) option \<Rightarrow> 'w FakeRoutingTable \<Rightarrow> 'w FakeRoutingTable" where
  "FakeRoutingTable_RemoveRoutesCalls stub fake = fake\<lparr>ft_RemoveRoutes := faked_Calls stub (ft_RemoveRoutes fake)\<rparr>"

definition FakeRoutingTable_RemoveRoutesArgsForCall :: "int64 \<Rightarrow> 'w FakeRoutingTable \<Rightarrow> (logger \<times> DesiredLRP option) option" where
  "FakeRoutingTable_RemoveRoutesArgsForCall i fake = faked_ArgsForCall i (ft_RemoveRoutes fake)"

definition FakeRoutingTable_RemoveRoutesReturns :: "(TCPRouteMappings \<times> MessagesToEmit) \<Rightarrow> 'w FakeRoutingTable \<Rightarrow> 'w FakeRoutingTable" where
  "FakeRoutingTable_RemoveRoutesReturns result fake = fake\<lparr>ft_RemoveRoutes := faked_Returns result (ft_RemoveRoutes fake)\<rparr>"

definition FakeRoutingTable_RemoveRoutesReturnsOnCall :: "int64 \<Rightarrow> (TCPRouteMappings \<times> MessagesToEmit) \<Rightarrow> 'w FakeRoutingTable \<Rightarrow> 'w FakeRoutingTable" where
  "FakeRoutingTable_RemoveRoutesReturnsOnCall i result fake = fake\<lparr>ft_RemoveRoutes := faked_ReturnsOnCall i result (ft_RemoveRoutes fake)\<rparr>"

text \<open>\<open>SetRoutes\<close>\<close>

definition FakeRoutingTable_SetRoutes :: "(logger \<times> DesiredLRP option \<times> DesiredLRP option) \<Rightarrow> 'w FakeRoutingTable \<times> 'w \<Rightarrow> (TCPRouteMappings \<times> MessagesToEmit) \<times> 'w FakeRoutingTable \<times> 'w" where
  "FakeRoutingTable_SetRoutes = (\<lambda>(arg1, arg2, arg3) (fake, w).
     (let (ret, w') = faked_result (arg1, arg2, arg3) (ft_SetRoutes fake) w in
      (ret, FakeRoutingTable_recordInvocation ''SetRoutes'' [AnyLogger arg1, AnyDesired arg2, AnyDesired arg3] (fake\<lparr>ft_SetRoutes := faked_call (arg1, arg2, arg3) (ft_SetRoutes fake)\<rparr>), w')))"

definition FakeRoutingTable_SetRoutesCallCount :: "'w FakeRoutingTable \<Rightarrow> int64" where
  "FakeRoutingTable_SetRoutesCallCount fake = faked_CallCount (ft_SetRoutes fake)"

definition FakeRoutingTable_SetRoutesCalls :: "((logger \<times> DesiredLRP option \<times> DesiredLRP option) \<Rightarrow> 'w \<Rightarrow> (TCPRouteMappings \<times> MessagesToEmit) \<times> 'w) option \<Rightarrow> 'w FakeRoutingTable \<Rightarrow> 'w FakeRoutingTable" where
  "FakeRoutingTable_SetRoutesCalls stub fake = fake\<lparr>ft_SetRoutes := faked_Calls stub (ft_SetRoutes fake)\<rparr>"

definition FakeRoutingTable_SetRoutesArgsForCall :: "int64 \<Rightarrow> 'w FakeRoutingTable \<Rightarrow> (logger \<times> DesiredLRP option \<times> DesiredLRP option) option" where
  "FakeRoutingTable_SetRoutesArgsForCall i fake = faked_ArgsForCall i (ft_SetRoutes fake)"

definition FakeRoutingTable_SetRoutesReturns :: "(TCPRouteMappings \<times> MessagesToEmit) \<Rightarrow> 'w FakeRoutingTable \<Rightarrow> 'w FakeRoutingTable" where
  "FakeRoutingTable_SetRoutesReturns result fake = fake\<lparr>ft_SetRoutes := faked_Returns result (ft_SetRoutes fake)\<rparr>"

definition FakeRoutingTable_SetRoutesReturnsOnCall :: "int64 \<Rightarrow> (TCPRouteMappings \<times> MessagesToEmit) \<Rightarrow> 'w FakeRoutingTable \<Rightarrow> 'w FakeRoutingTable" where
  "FakeRoutingTable_SetRoutesReturnsOnCall i result fake = fake\<lparr>ft_SetRoutes := faked_ReturnsOnCall i result (ft_SetRoutes fake)\<rparr>"

text \<open>\<open>Swap\<close>\<close>

definition FakeRoutingTable_Swap :: "(logger \<times> routingTable option \<times> DomainSet) \<Rightarrow> 'w FakeRoutingTable \<times> 'w \<Rightarrow> (TCPRouteMappings \<times> MessagesToEmit) \<times> 'w FakeRoutingTable \<times> 'w" where
  "FakeRoutingTable_Swap = (\<lambda>(arg1, arg2, arg3) (fake, w).
     (let (ret, w') = faked_result (arg1, arg2, arg3) (ft_Swap fake) w in
      (ret, FakeRoutingTable_recordInvocation ''Swap'' [AnyLogger arg1, AnyTable arg2, AnyDomains arg3] (fake\<lparr>ft_Swap := faked_call (arg1, arg2, arg3) (ft_Swap fake)\<rparr>), w')))"

definition FakeRoutingTable_SwapCallCount :: "'w FakeRoutingTable \<Rightarrow> int64" where
  "FakeRoutingTable_SwapCallCount fake = faked_CallCount (ft_Swap fake)"

definition FakeRoutingTable_SwapCalls :: "((logger \<times> routingTable option \<times> DomainSet) \<Rightarrow> 'w \<Rightarrow> (TCPRouteMappings \<times> MessagesToEmit) \<times> 'w) option \<Rightarrow> 'w FakeRoutingTable \<Rightarrow> 'w FakeRoutingTable" where
  "FakeRoutingTable_SwapCalls stub fake = fake\<lparr>ft_Swap := faked_Calls stub (ft_Swap fake)\<rparr>"

definition FakeRoutingTable_SwapArgsForCall :: "int64 \<Rightarrow> 'w FakeRoutingTable \<Rightarrow> (logger \<times> routingTable option \<times> DomainSet) option" where
  "FakeRoutingTable_SwapArgsForCall i fake = faked_ArgsForCall i (ft_Swap fake)"

definition FakeRoutingTable_SwapReturns :: "(TCPRouteMappings \<times> MessagesToEmit) \<Rightarrow> 'w FakeRoutingTable \<Rightarrow> 'w FakeRoutingTable" where
  "FakeRoutingTable_SwapReturns result fake = fake\<lparr>ft_Swap := faked_Returns result (ft_Swap fake)\<rparr>"

definition FakeRoutingTable_SwapReturnsOnCall :: "int64 \<Rightarrow> (TCPRouteMappings \<times> MessagesToEmit) \<Rightarrow> 'w FakeRoutingTable \<Rightarrow> 'w FakeRoutingTable" where
  "FakeRoutingTable_SwapReturnsOnCall i result fake = fake\<lparr>ft_Swap := faked_ReturnsOnCall i result (ft_Swap fake)\<rparr>"

text \<open>\<open>TCPAssociationsCount\<close>\<close>

definition FakeRoutingTable_TCPAssociationsCount :: "unit \<Rightarrow> 'w FakeRoutingTable \<times> 'w \<Rightarrow> int64 \<times> 'w FakeRoutingTable \<times> 'w" where
  "FakeRoutingTable_TCPAssociationsCount = (\<lambda>_ (fake, w).
     (let (ret, w') = faked_result () (ft_TCPAssociationsCount fake) w in
      (ret, FakeRoutingTable_recordInvocation ''TCPAssociationsCount'' [] (fake\<lparr>ft_TCPAssociationsCount := faked_call () (ft_TCPAssociationsCount fake)\<rparr>), w')))"

definition FakeRoutingTable_TCPAssociationsCountCallCount :: "'w FakeRoutingTable \<Rightarrow> int64" where
  "FakeRoutingTable_TCPAssociationsCountCallCount fake = faked_CallCount (ft_TCPAssociationsCount fake)"

definition FakeRoutingTable_TCPAssociationsCountCalls :: "(unit \<Rightarrow> 'w \<Rightarrow> int64 \<times> 'w) option \<Rightarrow> 'w FakeRoutingTable \<Rightarrow> 'w FakeRoutingTable" where
  "FakeRoutingTable_TCPAssociationsCountCalls stub fake = fake\<lparr>ft_TCPAssociationsCount := faked_Calls stub (ft_TCPAssociationsCount fake)\<rparr>"

definition FakeRoutingTable_TCPAssociationsCountReturns :: "int64 \<Rightarrow> 'w FakeRoutingTable \<Rightarrow> 'w FakeRoutingTable" where
  "FakeRoutingTable_TCPAssociationsCountReturns result fake = fake\<lparr>ft_TCPAssociationsCount := faked_Returns result (ft_TCPAssociationsCount fake)\<rparr>"

definition FakeRoutingTable_TCPAssociationsCountReturnsOnCall :: "int64 \<Rightarrow> int64 \<Rightarrow> 'w FakeRoutingTable \<Rightarrow> 'w FakeRoutingTable" where
  "FakeRoutingTable_TCPAssociationsCountReturnsOnCall i result fake = fake\<lparr>ft_TCPAssociationsCount := faked_ReturnsOnCall i result (ft_TCPAssociationsCount fake)\<rparr>"

text \<open>\<open>TableSize\<close>\<close>

definition FakeRoutingTable_TableSize :: "unit \<Rightarrow> 'w FakeRoutingTable \<times> 'w \<Rightarrow> int64 \<times> 'w FakeRoutingTable \<times> 'w" where
  "FakeRoutingTable_TableSize = (\<lambda>_ (fake, w).
     (let (ret, w') = faked_result () (ft_TableSize fake) w in
      (ret, FakeRoutingTable_recordInvocation ''TableSize'' [] (fake\<lparr>ft_TableSize := faked_call () (ft_TableSize fake)\<rparr>), w')))"

definition FakeRoutingTable_TableSizeCallCount :: "'w FakeRoutingTable \<Rightarrow> int64" where
  "FakeRoutingTable_TableSizeCallCount fake = faked_CallCount (ft_TableSize fake)"

definition FakeRoutingTable_TableSizeCalls :: "(unit \<Rightarrow> 'w \<Rightarrow> int64 \<times> 'w) option \<Rightarrow> 'w FakeRoutingTable \<Rightarrow> 'w FakeRoutingTable" where
  "FakeRoutingTable_TableSizeCalls stub fake = fake\<lparr>ft_TableSize := faked_Calls stub (ft_TableSize fake)\<rparr>"

definition FakeRoutingTable_TableSizeReturns :: "int64 \<Rightarrow> 'w FakeRoutingTable \<Rightarrow> 'w FakeRoutingTable" where
  "FakeRoutingTable_TableSizeReturns result fake = fake\<lparr>ft_TableSize := faked_Returns result (ft_TableSize fake)\<rparr>"

definition FakeRoutingTable_TableSizeReturnsOnCall :: "int64 \<Rightarrow> int64 \<Rightarrow> 'w FakeRoutingTable \<Rightarrow> 'w FakeRoutingTable" where
  "FakeRoutingTable_TableSizeReturnsOnCall i result fake = fake\<lparr>ft_TableSize := faked_ReturnsOnCall i result (ft_TableSize fake)\<rparr>"

lemmas FakeRoutingTable_invoke = FakeRoutingTable_recordInvocation_def
  FakeRoutingTable_AddEndpoint_def
  FakeRoutingTable_GetExternalRoutingEvents_def
  FakeRoutingTable_GetInternalRoutingEvents_def
  FakeRoutingTable_HTTPAssociationsCount_def
  FakeRoutingTable_HasExternalRoutes_def
  FakeRoutingTable_InternalAssociationsCount_def
  FakeRoutingTable_RemoveEndpoint_def
  FakeRoutingTable_RemoveRoutes_def
  FakeRoutingTable_SetRoutes_def
  FakeRoutingTable_Swap_def
  FakeRoutingTable_TCPAssociationsCount_def
  FakeRoutingTable_TableSize_def

interpretation ft_AddEndpoint: test_double ft_AddEndpoint ft_invocations "''AddEndpoint''" "\<lambda>(arg1, arg2). [AnyLogger arg1, AnyActual arg2]" FakeRoutingTable_AddEndpoint
  by unfold_locales (auto simp: FakeRoutingTable_invoke Let_def split: prod.splits)

interpretation ft_GetExternalRoutingEvents: test_double ft_GetExternalRoutingEvents ft_invocations "''GetExternalRoutingEvents''" "\<lambda>_. []" FakeRoutingTable_GetExternalRoutingEvents
  by unfold_locales (auto simp: FakeRoutingTable_invoke Let_def split: prod.splits)

interpretation ft_GetInternalRoutingEvents: test_double ft_GetInternalRoutingEvents ft_invocations "''GetInternalRoutingEvents''" "\<lambda>_. []" FakeRoutingTable_GetInternalRoutingEvents
  by unfold_locales (auto simp: FakeRoutingTable_invoke Let_def split: prod.splits)

interpretation ft_HTTPAssociationsCount: test_double ft_HTTPAssociationsCount ft_invocations "''HTTPAssociationsCount''" "\<lambda>_. []" FakeRoutingTable_HTTPAssociationsCount
  by unfold_locales (auto simp: FakeRoutingTable_invoke Let_def split: prod.splits)

interpretation ft_HasExternalRoutes: test_double ft_HasExternalRoutes ft_invocations "''HasExternalRoutes''" "\<lambda>arg1. [AnyActual arg1]" FakeRoutingTable_HasExternalRoutes
  by unfold_locales (auto simp: FakeRoutingTable_invoke Let_def split: prod.splits)

interpretation ft_InternalAssociationsCount: test_double ft_InternalAssociationsCount ft_invocations "''InternalAssociationsCount''" "\<lambda>_. []" FakeRoutingTable_InternalAssociationsCount
  by unfold_locales (auto simp: FakeRoutingTable_invoke Let_def split: prod.splits)

interpretation ft_RemoveEndpoint: test_double ft_RemoveEndpoint ft_invocations "''RemoveEndpoint''" "\<lambda>(arg1, arg2). [AnyLogger arg1, AnyActual arg2]" FakeRoutingTable_RemoveEndpoint
  by unfold_locales (auto simp: FakeRoutingTable_invoke Let_def split: prod.splits)

interpretation ft_RemoveRoutes: test_double ft_RemoveRoutes ft_invocations "''RemoveRoutes''" "\<lambda>(arg1, arg2). [AnyLogger arg1, AnyDesired arg2]" FakeRoutingTable_RemoveRoutes
  by unfold_locales (auto simp: FakeRoutingTable_invoke Let_def split: prod.splits)

interpretation ft_SetRoutes: test_double ft_SetRoutes ft_invocations "''SetRoutes''" "\<lambda>(arg1, arg2, arg3). [AnyLogger arg1, AnyDesired arg2, AnyDesired arg3]" FakeRoutingTable_SetRoutes
  by unfold_locales (auto simp: FakeRoutingTable_invoke Let_def split: prod.splits)

interpretation ft_Swap: test_double ft_Swap ft_invocations "''Swap''" "\<lambda>(arg1, arg2, arg3). [AnyLogger arg1, AnyTable arg2, AnyDomains arg3]" FakeRoutingTable_Swap
  by unfold_locales (auto simp: FakeRoutingTable_invoke Let_def split: prod.splits)

interpretation ft_TCPAssociationsCount: test_double ft_TCPAssociationsCount ft_invocations "''TCPAssociationsCount''" "\<lambda>_. []" FakeRoutingTable_TCPAssociationsCount
  by unfold_locales (auto simp: FakeRoutingTable_invoke Let_def split: prod.splits)

interpretation ft_TableSize: test_double ft_TableSize ft_invocations "''TableSize''" "\<lambda>_. []" FakeRoutingTable_TableSize
  by unfold_locales (auto simp: FakeRoutingTable_invoke Let_def split: prod.splits)

section \<open>A scripted table\<close>

text \<open>
  A table whose result of one call and of all others is set answers so, whatever the arguments, and
  leaves the test's own state alone.
\<close>

theorem scripted_table:
  fixes w :: 'w
  assumes "argsForCall (ft_SetRoutes fake) = []"
  shows "let fake' = FakeRoutingTable_SetRoutesReturnsOnCall i special (FakeRoutingTable_SetRoutesReturns usual fake);
      st = fold (\<lambda>a st. snd (FakeRoutingTable_SetRoutes a st)) args (fake', w) in
    fst (FakeRoutingTable_SetRoutes a st) = (if of_nat (length args) = i then special
      else (case go_get (returnsOnCall (ft_SetRoutes fake)) (of_nat (length args)) of Some r \<Rightarrow> r | None \<Rightarrow> usual)) \<and>
    snd st = w"
proof -
  let ?fake = "FakeRoutingTable_SetRoutesReturnsOnCall i special (FakeRoutingTable_SetRoutesReturns usual fake)"
  have after: "fold (\<lambda>a st. snd (FakeRoutingTable_SetRoutes a st)) args (?fake, w) = ft_SetRoutes.after args (?fake, w)"
    by (simp add: ft_SetRoutes.after_def)
  have fake: "ft_SetRoutes ?fake = faked_ReturnsOnCall i special (faked_Returns usual (ft_SetRoutes fake))"
    by (simp add: FakeRoutingTable_SetRoutesReturnsOnCall_def FakeRoutingTable_SetRoutesReturns_def)
  show ?thesis
    using ft_SetRoutes.nth_result [of ?fake a args w] ft_SetRoutes.world_kept [of ?fake args w] assms
    unfolding Let_def after by (auto simp: fake split: option.splits)
qed

end
