(* ===== verification/Spec2Isabelle.thy ===== *)
theory Spec2Isabelle
  imports Resync Requests System_Routers Table_Counts Log_Data Matchers Fake_NATS Test_Servers
    Fake_Emitters Fake_Handler Fake_Table
begin

text \<open>
  The route emitter of Cloud Foundry, verified.

  \<^bold>\<open>The program.\<close> The route emitter watches the BBS, Diego's database, for desired LRPs (applications with
  their routes) and actual LRPs (their instances) and tells the routers which instance serves which route:
  HTTP and internal routes over NATS, TCP routes through the routing API. The watcher
  (\<open>src/watcher/watcher.go\<close>) receives events, periodic requests to synchronise (from
  \<open>src/syncer/syncer.go\<close>) and periodic requests to emit (from
  \<open>src/scheduler/routebroadcastscheduler.go\<close>) and calls the handler (\<open>src/routehandlers/handler.go\<close>), which
  updates the routing table (\<open>src/routingtable/\<close>) and passes the messages the table returns to the emitters
  (\<open>src/emitter/\<close>). Unregistrations are also put into a cache from which a sender repeats them
  (\<open>src/unregistration/\<close>). \<open>src/cmd/route-emitter/main.go\<close> builds and starts all of this on a NATS client
  (\<open>src/diegonats/\<close>).

  \<^bold>\<open>Theories.\<close>
  \<^item> \<open>RE_Prelude\<close>: Go's maps as association lists with unique keys, the laws of a map as the locale
    \<open>go_map_laws\<close>, machine integers, decimal printing, and the lemmas all components share.
  \<^item> \<open>BBS_Models\<close>: the data of the BBS packages and the parameter \<open>bbs_env\<close> for what those packages compute
    (parsing of routing info, comparison of modification tags, domain sets), with a concrete instance for the
    witnesses.
  \<^item> \<open>Endpoint\<close> (\<open>endpoint.go\<close>) and \<open>Registry_Message\<close> (\<open>registry_message.go\<close>, \<open>messages_to_emit.go\<close>): keys,
    endpoints, routes, entries and messages; merging of messages is the locale \<open>merge_monoid\<close>.
  \<^item> \<open>Table_Diff\<close>: the diff of two entries and the messages it yields, with their specification: exactly
    the route and endpoint pairs that changed. \<open>Internal_Table\<close>: every operation of \<open>internalRoutingTable\<close>
    in \<open>routingtable.go\<close>. \<open>Table_Loops\<close>: the loops of these operations over endpoints, routes and keys share
    the locale \<open>entry_loop\<close>, interpreted for adding, removing, setting and swapping.
    \<open>Table_Properties\<close>: what each operation does to each entry. \<open>Routing_Table\<close>: the three tables together
    and the route generators; histories of calls.
  \<^item> \<open>Routing_Table_Correct\<close>: every operation emits exactly the difference it makes. \<open>Table_Behaviour\<close>:
    repeated events, round trips, the contents after a swap. \<open>Table_Reading\<close>: the periodic emission and
    \<open>HasExternalRoutes\<close>. \<open>Table_Kinds\<close>: what kinds of routes the tables hold, and what a message says.
    \<open>Table_Addresses\<close>: ownership of addresses and collisions. \<open>Table_Counts\<close>: the association counts
    against what is emitted. \<open>Log_Data\<close> (\<open>lrp_utils.go\<close>): the log lines of the table's operations and their data.
  \<^item> \<open>Router_View\<close>: the other end of the wire. An observer reads what the table emits and keeps the routes it
    was told of; how a router identifies a route is the locale \<open>router_identity\<close>, interpreted for host name and
    address and for the whole message. \<open>Router_Handler\<close>: the same observer behind a whole handler, whose events
    may perform several operations. \<open>System_Routers\<close>: the observer behind the started program, where the sender
    withdraws routes while the watcher works.
  \<^item> \<open>Emitter\<close>: the NATS emitter on a work pool that runs its jobs in any order, and the routing API emitter
    with its second attempt. \<open>Unregistration\<close>: cache and sender, with the cache's contract as the locale
    \<open>message_cache\<close>, and their interleaving as a step relation.
  \<^item> \<open>Handler\<close>: the event handlers, synchronisation, refresh and periodic emission, and that they refine
    histories of table operations. \<open>Watcher\<close>: the event loop as a step relation over its inputs.
    \<open>Evacuation\<close>: an instance that starts to evacuate keeps its routes without a message. \<open>Resync\<close>: a
    repeated synchronisation is silent.
  \<^item> \<open>Scheduler\<close>: the scheduler's whole run and the syncer. \<open>NATS_Client\<close>: the NATS client, its process and
    the URLs it builds. \<open>Requests\<close>: syncer and watcher on their channel. \<open>Main_Program\<close>: configuration and \<open>main\<close>.
    \<open>System\<close>: watcher and sender on one cache, invariants of the handler as the locale \<open>handler_invariant\<close>, and the way from the handler to NATS.
  \<^item> \<open>Matchers\<close> (\<open>routingtable/matchers/\<close>) and \<open>Fake_NATS\<close> (\<open>diegonats/fake_nats_client.go\<close>): the comparison the
    tests make and the in-memory client they run against, both written by hand. \<open>Test_Servers\<close>
    (\<open>cmd/route-emitter/runners/\<close>, \<open>diegonats/natsserverrunner/\<close>): the servers of the integration tests.
  \<^item> \<open>Test_Doubles\<close>, \<open>Fake_Emitters\<close>, \<open>Fake_Handler\<close>, \<open>Fake_Table\<close>: the doubles generated from the interfaces
    (\<open>fakes\<close> and \<open>fakeroutingtable\<close>). What a double does for a method is one group of definitions; the contract
    of a method is the locale \<open>test_double\<close>, interpreted for each of the 23 methods.
  \<^item> this theory: the properties that span all of these.

  \<^bold>\<open>How state and operations correspond.\<close> A Go struct is a record, a map an association list, a pointer that
  may be nil an option. The messages in the unregistration cache are shared by pointer between cache and
  sender, so they live in a heap. An operation takes the state and returns the new one with its results;
  a panic is \<open>None\<close>. The branches of a \<open>select\<close> are inputs of a step function, and goroutines are steps that
  interleave. Go iterates over maps in random order; the model iterates in the order of the association list,
  and as the properties hold for every list they hold for every order of the initial state. The handler's
  calls on the emitters and the metrics client are recorded in order in its state.

  \<^bold>\<open>What is shown.\<close> Every operation of the table emits exactly the difference between the route and endpoint
  pairs it had and has, along every consistent history; the handler passes on exactly that; the NATS emitter
  publishes each message once. Together: what is on the wire after an event is what the table says. Routers
  that read it in any order, and may forget routes at any time, never know a route the table does not have,
  and know exactly the table's routes after one periodic emission; this holds for the whole started program with its
  watcher and its sender, evacuations included. Two messages of one update may name the
  same host and address, so a router that goes by these can lose a route until then. The
  watcher never runs two synchronisations, replays the events that arrive meanwhile, and a repeated
  synchronisation is silent. Each cached unregistration is sent as often as configured and never more often.
  The processes start in the right order, with a lock when there must be one.

  \<^bold>\<open>Hypotheses.\<close> An instance event is consistent with a table when its ports have distinct container ports and
  its record agrees with the instance's other record (ordinary or evacuating) in everything but tag,
  presence and time stamp: the two records describe one container. No assumption is made on the order of
  events or on modification tags. Hashing of messages may fail unless a property says otherwise.

  \<^bold>\<open>Bounds.\<close> The loop of the routing API emitter has the measure \<open>2 - count\<close>. The greeting loop and the event
  loops consume a list of inputs, one per branch that fired, so nothing runs out of fuel: an exhausted list is
  a loop that still waits, and the scheduler is shown to end. A publication in the fake NATS client can set off
  others without end; it is a partial function, shown to return for handlers that publish nothing and for a
  request that is answered once. Ports, indexes, counters and durations are words of their Go width.

  \<^bold>\<open>Not modelled.\<close> Log lines other than those of the table's operations and of the end of \<open>main\<close>, the times in
  metrics, the libraries for NATS, BBS, locket, UAA, JSON, YAML, TLS, gomega, the process runner and the ordered group
  (parameters or left out: their code is not part of the repository). Interface declarations have no definition of
  their own. A stub of a test double cannot call the double it belongs to, and the mutexes of the doubles and of the
  fake NATS client are left out: their operations are atomic steps.
\<close>

section \<open>The whole process\<close>

text \<open>
  C10: in every state that the processes \<open>main\<close> started can reach, whatever the watcher receives and
  however the sender interleaves, the routing table is one that a history of table operations reaches
  from the empty table, so it is well formed and has only routes of the right kinds; the emitters are the
  configured ones; and the sender and the cache behave as in the model of their interleaving, in which no
  cached message is sent more often than configured.
\<close>

theorem system_safe:
  assumes "main E M path = Inr p" "system_reachable E U (sd_sendCount (pr_sender p)) (pr_handler p) s"
  shows "\<exists>cfg. NewRouteEmitterConfig M path = Inr cfg \<and>
    (let h = w_handler (em_watcher s) in
     handler_config h = (True, cfg_EnableTCPEmitter cfg, cfg_CellID cfg \<noteq> '''', cfg_TCPEnableTLS cfg) \<and>
     (\<exists>ops. h_routingTable h = run_ops E (cfg_TCPEnableTLS cfg) ops
        (NewRoutingTable E (cfg_RegisterDirectInstanceRoutes cfg) (cfg_TCPEnableTLS cfg))) \<and>
     wf_routing_table E (cfg_TCPEnableTLS cfg) (h_routingTable h) \<and> kinds_ok (h_routingTable h)) \<and>
    unreg_reachable U (sd_sendCount (pr_sender p)) (sender_view s)"
proof -
  obtain cfg where cfg: "NewRouteEmitterConfig M path = Inr cfg"
    "pr_handler p = NewHandler (NewRoutingTable E (cfg_RegisterDirectInstanceRoutes cfg) (cfg_TCPEnableTLS cfg)) True
       (cfg_EnableTCPEmitter cfg) (cfg_CellID cfg \<noteq> '''') (cfg_TCPEnableTLS cfg) NewCache"
    using started_handler [OF assms(1)] by metis
  let ?t0 = "NewRoutingTable E (cfg_RegisterDirectInstanceRoutes cfg) (cfg_TCPEnableTLS cfg)"
  let ?conf = "(True, cfg_EnableTCPEmitter cfg, cfg_CellID cfg \<noteq> '''', cfg_TCPEnableTLS cfg)"
  have "table_history E ?t0 ?conf (pr_handler p)"
    unfolding table_history_def cfg(2)
    by (auto simp: NewHandler_def handler_config_def intro: exI [of _ "[]"])
  from table_inv.reachable [OF assms(2) this] obtain ops where
    h: "handler_config (w_handler (em_watcher s)) = ?conf"
      "h_routingTable (w_handler (em_watcher s)) = run_ops E (cfg_TCPEnableTLS cfg) ops ?t0"
    by (rule table_historyE)
  have "unreg_reachable U (sd_sendCount (pr_sender p)) (sender_view s)"
    by (rule system_refines_unreg [OF assms(2)]) (simp add: cfg(2) NewHandler_def)
  with cfg(1) h apply_op_run_ops_wf(2) [OF wf_NewRoutingTable, of E "cfg_TCPEnableTLS cfg" ops "cfg_RegisterDirectInstanceRoutes cfg"]
    history_kinds(2) [OF wf_NewRoutingTable kinds_NewRoutingTable, of E "cfg_TCPEnableTLS cfg" ops "cfg_RegisterDirectInstanceRoutes cfg"]
  show ?thesis by (auto simp: Let_def)
qed

theorem system_safe_witness:
  "\<exists>p s. main example_env example_main_env ''config.json'' = Inr p \<and>
     system_run example_env example_hash_total (sd_sendCount (pr_sender p)) [WatcherInput example_client InSync, SenderTick]
       (system_init (pr_handler p)) = Some s \<and>
     w_syncing (em_watcher s) \<and> wf_routing_table example_env False (h_routingTable (w_handler (em_watcher s)))"
proof -
  obtain p where p: "main example_env example_main_env ''config.json'' = Inr p" using example_main_started by metis
  obtain s where s: "system_run example_env example_hash_total (sd_sendCount (pr_sender p)) [WatcherInput example_client InSync, SenderTick]
      (system_init (pr_handler p)) = Some s" "w_syncing (em_watcher s)"
    by (auto simp: system_init_def watcher_init_def sender_view_def set_sender_def)
  have tls: "\<not> cfg_TCPEnableTLS example_config" by (simp add: example_config_def)
  from system_safe [OF p system_run_reachable [OF system_reachable.start s(1)]] example_main_simps(1) tls p s
  show ?thesis by (auto simp: Let_def)
qed

section \<open>Events on the wire\<close>



section \<open>Repeated unregistrations on the wire\<close>

text \<open>The NATS emitter as the sender uses it.\<close>

abbreviation wire_emit :: "wire_env \<Rightarrow> MessagesToEmit \<Rightarrow> nats_state \<Rightarrow> nats_state \<times> go_error option" where
  "wire_emit W \<equiv> nats_Emit (we_nats W) (we_schedule W) (we_emitInternalRoutes W)"

lemma publications_unregister_one:
  "publications W (unregister_one m) = {#(''router.unregister'', fst (Marshal (we_nats W) m))#}"
  by (simp add: publications_def unregister_one_def nats_jobs_def no_messages_def)

lemma emit_each_publications:
  assumes "\<And>jobs. mset (we_schedule W jobs) = mset jobs"
  shows "mset (ns_published (emit_each (wire_emit W) ms s)) =
    mset (ns_published s) + mset (map (\<lambda>m. (''router.unregister'', fst (Marshal (we_nats W) m))) ms)"
proof (induction ms arbitrary: s)
  case (Cons m ms)
  have "emit_each (wire_emit W) (m # ms) s = emit_each (wire_emit W) ms (fst (wire_emit W (unregister_one m) s))"
    by (simp add: emit_each_def)
  then show ?case
    using Cons nats_Emit_publications [OF assms, of "unregister_one m" s] by (simp add: publications_unregister_one)
qed (simp add: emit_each_def)

lemma emit_each_power:
  assumes "\<And>jobs. mset (we_schedule W jobs) = mset jobs"
  shows "mset (ns_published ((emit_each (wire_emit W) ms ^^ k) s)) =
    mset (ns_published s) + repeat_mset k (mset (map (\<lambda>m. (''router.unregister'', fst (Marshal (we_nats W) m))) ms))"
  by (induction k) (simp_all add: emit_each_publications [OF assms])

text \<open>
  C24: when nothing else runs, the sender puts every unregistration of the cache on NATS exactly
  \<open>sendCount\<close> times in as many ticks, even when publications fail, keeps the messages in the cache until the
  last of these ticks and has emptied it then.
\<close>

theorem unregistrations_on_the_wire:
  assumes "wf_cache U c" "list_all (\<lambda>ref. msg_SentCount (uc_heap c ! ref) = 0) (cache_List c)" "n \<noteq> 0"
    and "\<And>jobs. mset (we_schedule W jobs) = mset jobs"
  shows "let tick = sender_tick U (wire_emit W) n in
    (\<forall>k < unat n. uc_messages (fst ((tick ^^ k) (c, s))) = uc_messages c) \<and>
    uc_messages (fst ((tick ^^ unat n) (c, s))) = [] \<and>
    mset (ns_published (snd ((tick ^^ unat n) (c, s)))) = mset (ns_published s) +
      repeat_mset (unat n) (mset (map (\<lambda>m. (''router.unregister'', fst (Marshal (we_nats W) m))) (cached_messages c)))"
  using sender_sends_n_times [OF assms(1-3), of "wire_emit W" s] emit_each_power [OF assms(4)]
  by (simp add: Let_def)

theorem unregistrations_on_the_wire_witness:
  "mset (ns_published (snd ((sender_tick example_hash (nats_Emit example_nats rev False) 2 ^^ 2)
     (example_cache, \<lparr>ns_published = [], ns_counters = []\<rparr>)))) =
   repeat_mset 2 (mset (map (\<lambda>m. (''router.unregister'', fst (Marshal example_nats m))) (cached_messages example_cache)))"
proof -
  let ?W = "\<lparr>we_nats = example_nats, we_schedule = rev, we_emitInternalRoutes = False, we_api = example_api, we_ttl = 0\<rparr>"
  have zero: "list_all (\<lambda>ref. msg_SentCount (uc_heap example_cache ! ref) = 0) (cache_List example_cache)" by code_simp
  have wf: "wf_cache example_hash example_cache" by code_simp
  have two: "(2::int64) \<noteq> 0" "unat (2::int64) = 2" by simp_all
  have perm: "mset (we_schedule ?W jobs) = mset jobs" for jobs by simp
  show ?thesis
    using unregistrations_on_the_wire [OF wf zero two(1) perm, of "\<lparr>ns_published = [], ns_counters = []\<rparr>"]
    unfolding two(2) by (simp add: Let_def)
qed

end
